(* ===== verification/Dare_Prelude.thy ===== *)
theory Dare_Prelude
  imports Main "HOL-Library.Word" "HOL-Library.Monad_Syntax"
begin

text \<open>
  What every component of the development shares: the fixed-width integer types of the C
  sources, byte-addressed memory with the little-endian layout of the target (x86-64), the
  generic facts on words, lists and counting loops, and the collections of simplification
  rules that carry the proofs of the components.
\<close>

unbundle bit_operations_syntax

named_theorems mem_simps \<open>reading memory after a write\<close>
named_theorems eval_simps \<open>the equations that evaluate the definitions of the model on a concrete state\<close>
named_theorems bitfield_simps \<open>reading a bit field after an update of another one\<close>

type_synonym u8 = "8 word"
type_synonym u16 = "16 word"
type_synonym u32 = "32 word"
type_synonym u64 = "64 word"
type_synonym memory = "nat \<Rightarrow> u8"

section \<open>Evaluation\<close>

text \<open>With these congruence rules the simplifier evaluates call by value: it does not enter the branches
  of a conditional or the continuation of a binding before the value they wait for is known.\<close>

lemma bind_weak_cong: "m = m' \<Longrightarrow> Option.bind m f = Option.bind m' f"
  by simp

lemma let_val_cong: "m = m' \<Longrightarrow> Let m f = Let m' f"
  by simp

lemma case_prod_val_cong: "m = m' \<Longrightarrow> case_prod f m = case_prod f m'"
  by simp

lemmas eval_cong = bind_weak_cong let_val_cong case_prod_val_cong option.case_cong_weak if_weak_cong

declare Let_def [eval_simps]

section \<open>Byte-addressed memory\<close>

definition mem_read :: "memory \<Rightarrow> nat \<Rightarrow> nat \<Rightarrow> u8 list" where
  "mem_read m a n = map m [a..<a + n]"

definition mem_write :: "memory \<Rightarrow> nat \<Rightarrow> u8 list \<Rightarrow> memory" where
  "mem_write m a bs = (\<lambda>i. if a \<le> i \<and> i < a + length bs then bs ! (i - a) else m i)"

text \<open>The little-endian encoding of a number on n bytes, and its inverse.\<close>

fun le_enc :: "nat \<Rightarrow> nat \<Rightarrow> u8 list" where
  "le_enc 0 x = []"
| "le_enc (Suc n) x = of_nat (x mod 256) # le_enc n (x div 256)"

fun le_dec :: "u8 list \<Rightarrow> nat" where
  "le_dec [] = 0"
| "le_dec (b # bs) = unat b + 256 * le_dec bs"

definition load64 :: "memory \<Rightarrow> nat \<Rightarrow> u64" where
  "load64 m a = of_nat (le_dec (mem_read m a 8))"

definition load32 :: "memory \<Rightarrow> nat \<Rightarrow> u32" where
  "load32 m a = of_nat (le_dec (mem_read m a 4))"

definition load16 :: "memory \<Rightarrow> nat \<Rightarrow> u16" where
  "load16 m a = of_nat (le_dec (mem_read m a 2))"

definition load8 :: "memory \<Rightarrow> nat \<Rightarrow> u8" where
  "load8 m a = m a"

definition store64 :: "memory \<Rightarrow> nat \<Rightarrow> u64 \<Rightarrow> memory" where
  "store64 m a w = mem_write m a (le_enc 8 (unat w))"

definition store32 :: "memory \<Rightarrow> nat \<Rightarrow> u32 \<Rightarrow> memory" where
  "store32 m a w = mem_write m a (le_enc 4 (unat w))"

definition store16 :: "memory \<Rightarrow> nat \<Rightarrow> u16 \<Rightarrow> memory" where
  "store16 m a w = mem_write m a (le_enc 2 (unat w))"

definition store8 :: "memory \<Rightarrow> nat \<Rightarrow> u8 \<Rightarrow> memory" where
  "store8 m a w = mem_write m a [w]"

lemma length_mem_read [simp]: "length (mem_read m a n) = n"
  by (simp add: mem_read_def)

lemma nth_mem_read [simp]: "i < n \<Longrightarrow> mem_read m a n ! i = m (a + i)"
  by (simp add: mem_read_def)

lemma mem_read_cong: "(\<And>i. a \<le> i \<Longrightarrow> i < a + n \<Longrightarrow> m i = m' i) \<Longrightarrow> mem_read m a n = mem_read m' a n"
  by (simp add: mem_read_def)

lemma mem_read_write_same [mem_simps]: "n = length bs \<Longrightarrow> mem_read (mem_write m a bs) a n = bs"
  by (rule nth_equalityI) (simp_all add: mem_write_def)

lemma mem_read_write_disjoint [mem_simps]:
  "b + n \<le> a \<or> a + length bs \<le> b \<Longrightarrow> mem_read (mem_write m a bs) b n = mem_read m b n"
  by (rule mem_read_cong) (auto simp: mem_write_def)

lemma mem_write_outside: "i < a \<or> a + length bs \<le> i \<Longrightarrow> mem_write m a bs i = m i"
  by (auto simp: mem_write_def)

lemma mem_write_Nil [simp]: "mem_write m a [] = m"
  by (rule ext) (auto simp: mem_write_def)

lemma length_le_enc [simp]: "length (le_enc n x) = n"
  by (induction n arbitrary: x) simp_all

lemma le_dec_enc: "le_dec (le_enc n x) = x mod 256 ^ n"
proof (induction n arbitrary: x)
  case (Suc n)
  have "unat (of_nat (x mod 256) :: u8) = x mod 256"
    by (simp add: unat_of_nat)
  then show ?case
    using Suc by (simp add: mod_mult2_eq add.commute)
qed simp

lemma le_dec_enc_id: "x < 256 ^ n \<Longrightarrow> le_dec (le_enc n x) = x"
  by (simp add: le_dec_enc)

lemma of_nat_le_dec_enc [simp]:
  "of_nat (le_dec (le_enc 8 (unat w))) = (w :: u64)"
  "of_nat (le_dec (le_enc 4 (unat v))) = (v :: u32)"
  "of_nat (le_dec (le_enc 2 (unat u))) = (u :: u16)"
proof -
  have "unat w < 256 ^ 8" "unat v < 256 ^ 4" "unat u < 256 ^ 2"
    using unsigned_less [of w, where ?'a=nat] unsigned_less [of v, where ?'a=nat]
      unsigned_less [of u, where ?'a=nat] by simp_all
  then show "of_nat (le_dec (le_enc 8 (unat w))) = w" "of_nat (le_dec (le_enc 4 (unat v))) = v"
    "of_nat (le_dec (le_enc 2 (unat u))) = u"
    by (simp_all only: le_dec_enc_id of_nat_unat ucast_id)
qed

lemmas load_defs = load64_def load32_def load16_def
lemmas store_defs = store64_def store32_def store16_def store8_def

lemma load_store_same [mem_simps]:
  "load64 (store64 m a w) a = w"
  "load32 (store32 m a v) a = v"
  "load16 (store16 m a u) a = u"
  by (simp_all add: load_defs store_defs mem_simps del: le_enc.simps)

lemma load8_store8_same [mem_simps]: "load8 (store8 m a b) a = b"
  by (simp add: load8_def store8_def mem_write_def)

lemma load_write_disjoint [mem_simps]:
  "b + 8 \<le> a \<or> a + length bs \<le> b \<Longrightarrow> load64 (mem_write m a bs) b = load64 m b"
  "b + 4 \<le> a \<or> a + length bs \<le> b \<Longrightarrow> load32 (mem_write m a bs) b = load32 m b"
  "b + 2 \<le> a \<or> a + length bs \<le> b \<Longrightarrow> load16 (mem_write m a bs) b = load16 m b"
  "b < a \<or> a + length bs \<le> b \<Longrightarrow> load8 (mem_write m a bs) b = load8 m b"
  by (simp_all add: load_defs load8_def mem_read_write_disjoint mem_write_outside)

lemma load_store64_disjoint [mem_simps]:
  "b + 8 \<le> a \<or> a + 8 \<le> b \<Longrightarrow> load64 (store64 m a w) b = load64 m b"
  "b + 4 \<le> a \<or> a + 8 \<le> b \<Longrightarrow> load32 (store64 m a w) b = load32 m b"
  "b + 2 \<le> a \<or> a + 8 \<le> b \<Longrightarrow> load16 (store64 m a w) b = load16 m b"
  "b < a \<or> a + 8 \<le> b \<Longrightarrow> load8 (store64 m a w) b = load8 m b"
  by (simp_all add: store64_def load_write_disjoint del: le_enc.simps)

lemma load_store32_disjoint [mem_simps]:
  "b + 8 \<le> a \<or> a + 4 \<le> b \<Longrightarrow> load64 (store32 m a v) b = load64 m b"
  "b + 4 \<le> a \<or> a + 4 \<le> b \<Longrightarrow> load32 (store32 m a v) b = load32 m b"
  "b + 2 \<le> a \<or> a + 4 \<le> b \<Longrightarrow> load16 (store32 m a v) b = load16 m b"
  "b < a \<or> a + 4 \<le> b \<Longrightarrow> load8 (store32 m a v) b = load8 m b"
  by (simp_all add: store32_def load_write_disjoint del: le_enc.simps)

lemma load_store16_disjoint [mem_simps]:
  "b + 8 \<le> a \<or> a + 2 \<le> b \<Longrightarrow> load64 (store16 m a u) b = load64 m b"
  "b + 4 \<le> a \<or> a + 2 \<le> b \<Longrightarrow> load32 (store16 m a u) b = load32 m b"
  "b + 2 \<le> a \<or> a + 2 \<le> b \<Longrightarrow> load16 (store16 m a u) b = load16 m b"
  "b < a \<or> a + 2 \<le> b \<Longrightarrow> load8 (store16 m a u) b = load8 m b"
  by (simp_all add: store16_def load_write_disjoint del: le_enc.simps)

lemma load_store8_disjoint [mem_simps]:
  "b + 8 \<le> a \<or> a < b \<Longrightarrow> load64 (store8 m a c) b = load64 m b"
  "b + 4 \<le> a \<or> a < b \<Longrightarrow> load32 (store8 m a c) b = load32 m b"
  "b + 2 \<le> a \<or> a < b \<Longrightarrow> load16 (store8 m a c) b = load16 m b"
  "b \<noteq> a \<Longrightarrow> load8 (store8 m a c) b = load8 m b"
  using load_write_disjoint [of b a "[c]" m]
  by (cases "b < a"; simp add: store8_def Suc_le_eq)+

lemma mem_read_store_disjoint [mem_simps]:
  "b + n \<le> a \<or> a + 8 \<le> b \<Longrightarrow> mem_read (store64 m a w) b n = mem_read m b n"
  "b + n \<le> a \<or> a + 4 \<le> b \<Longrightarrow> mem_read (store32 m a v) b n = mem_read m b n"
  "b + n \<le> a \<or> a + 2 \<le> b \<Longrightarrow> mem_read (store16 m a u) b n = mem_read m b n"
  "b + n \<le> a \<or> a < b \<Longrightarrow> mem_read (store8 m a c) b n = mem_read m b n"
  by (simp_all add: store_defs mem_read_write_disjoint Suc_le_eq del: le_enc.simps)

lemma load_cong:
  "(\<And>i. a \<le> i \<Longrightarrow> i < a + 8 \<Longrightarrow> m i = m' i) \<Longrightarrow> load64 m a = load64 m' a"
  "(\<And>i. a \<le> i \<Longrightarrow> i < a + 4 \<Longrightarrow> m i = m' i) \<Longrightarrow> load32 m a = load32 m' a"
  "(\<And>i. a \<le> i \<Longrightarrow> i < a + 2 \<Longrightarrow> m i = m' i) \<Longrightarrow> load16 m a = load16 m' a"
  by (simp_all add: load_defs mem_read_cong [of a _ m m'])

section \<open>Words\<close>

lemma unat_diff_le: "(b::'a::len word) \<le> a \<Longrightarrow> unat (a - b) = unat a - unat b"
  by (rule unat_sub)

lemma unat_plus_fits: "unat (a::'a::len word) + unat b < 2 ^ LENGTH('a) \<Longrightarrow> unat (a + b) = unat a + unat b"
  by (simp add: unat_word_ariths)

lemma unat_ucast_up: "LENGTH('a) \<le> LENGTH('b) \<Longrightarrow> unat (ucast (w::'a::len word) :: 'b::len word) = unat w"
  by (simp add: unsigned_ucast_eq take_bit_nat_eq_self_iff
      less_le_trans [OF unsigned_less power_increasing])

lemma unat_of_nat_small: "n < 2 ^ LENGTH('a) \<Longrightarrow> unat (of_nat n :: 'a::len word) = n"
  by (simp add: unat_of_nat)

lemma unat_less_power: "unat (w::'a::len word) < 2 ^ LENGTH('a)"
  by (rule unsigned_less)

section \<open>Circular positions\<close>

lemma mod_step: "m \<le> n \<Longrightarrow> ((a + m) mod s + (n - m)) mod s = (a + n) mod (s::nat)"
  by (metis add.assoc le_add_diff_inverse mod_add_left_eq)

lemma mod_step': "m \<le> n \<Longrightarrow> ((a + m) mod s + n - m) mod s = (a + n) mod (s::nat)"
  using mod_step [of m n a s] by simp

section \<open>Tables with a map as their meaning\<close>

text \<open>The contract of the lookup tables: \<open>view\<close> is the map a table stands for, \<open>kid\<close> what two keys
  must agree on to be the same, \<open>ok\<close> when an insertion is allowed.\<close>

datatype ('a, 'v) map_op = Put 'a 'v | Del 'a

locale map_impl =
  fixes kid :: "'a \<Rightarrow> 'k" and get :: "'m \<Rightarrow> 'a \<Rightarrow> 'v option" and put :: "'a \<Rightarrow> 'v \<Rightarrow> 'm \<Rightarrow> 'm"
    and del :: "'a \<Rightarrow> 'm \<Rightarrow> 'm" and view :: "'m \<Rightarrow> 'k \<Rightarrow> 'v option" and invar :: "'m \<Rightarrow> bool"
    and ok :: "'m \<Rightarrow> 'a \<Rightarrow> 'v \<Rightarrow> bool"
  assumes get_view: "invar m \<Longrightarrow> get m a = view m (kid a)"
    and view_put: "\<lbrakk>invar m; ok m a v\<rbrakk> \<Longrightarrow> view (put a v m) = (view m)(kid a \<mapsto> v)"
    and view_del: "invar m \<Longrightarrow> view (del a m) = (view m)(kid a := None)"
    and invar_put: "\<lbrakk>invar m; ok m a v\<rbrakk> \<Longrightarrow> invar (put a v m)"
    and invar_del: "invar m \<Longrightarrow> invar (del a m)"
begin

fun step :: "('a, 'v) map_op \<Rightarrow> 'm \<Rightarrow> 'm" where
  "step (Put a v) m = put a v m"
| "step (Del a) m = del a m"

fun abs_step :: "('a, 'v) map_op \<Rightarrow> ('k \<Rightarrow> 'v option) \<Rightarrow> 'k \<Rightarrow> 'v option" where
  "abs_step (Put a v) f = f(kid a \<mapsto> v)"
| "abs_step (Del a) f = f(kid a := None)"

fun step_ok :: "('a, 'v) map_op \<Rightarrow> 'm \<Rightarrow> bool" where
  "step_ok (Put a v) m = ok m a v"
| "step_ok (Del a) m = True"

fun run_ok :: "('a, 'v) map_op list \<Rightarrow> 'm \<Rightarrow> bool" where
  "run_ok [] m = True"
| "run_ok (x # xs) m = (step_ok x m \<and> run_ok xs (step x m))"

lemma step_refines: "\<lbrakk>invar m; step_ok x m\<rbrakk> \<Longrightarrow> invar (step x m) \<and> view (step x m) = abs_step x (view m)"
  by (cases x) (simp_all add: view_put view_del invar_put invar_del)

text \<open>Any allowed sequence of operations does to the table what it does to the map.\<close>

lemma run_refines: "\<lbrakk>invar m; run_ok xs m\<rbrakk> \<Longrightarrow>
    invar (fold step xs m) \<and> view (fold step xs m) = fold abs_step xs (view m)"
  by (induction xs arbitrary: m) (simp_all add: step_refines)

lemma get_put: "\<lbrakk>invar m; ok m a v\<rbrakk> \<Longrightarrow> get (put a v m) b = (if kid b = kid a then Some v else get m b)"
  by (simp add: get_view view_put invar_put)

lemma get_del: "invar m \<Longrightarrow> get (del a m) b = (if kid b = kid a then None else get m b)"
  by (simp add: get_view view_del invar_del)

end

end
