(* ===== verification/Dare_Ids.thy ===== *)
theory Dare_Ids
  imports Dare_Prelude
begin

text \<open>
  The packed identifiers of the replication protocol: the state identifier SID
  (dare_server.h), the work-request identifier WRID (dare_ibv_rc.h) and the configuration
  identifier CID with its group sizes (dare_config.h).  The accessors are the macros of the
  headers; the lemmas give their get/set laws, the order that the numeric comparison of two
  SIDs induces, and the reading of the server bitmask as a set.
\<close>

section \<open>The state identifier [TERM|L|IDX]\<close>

definition SID_GET_IDX :: "u64 \<Rightarrow> u8" where
  "SID_GET_IDX sid = ucast (sid AND 0xFF)"

definition SID_SET_IDX :: "u64 \<Rightarrow> u8 \<Rightarrow> u64" where
  "SID_SET_IDX sid idx = ucast idx OR push_bit 8 (drop_bit 8 sid)"

definition SID_GET_L :: "u64 \<Rightarrow> bool" where
  "SID_GET_L sid = (sid AND push_bit 8 1 \<noteq> 0)"

definition SID_SET_L :: "u64 \<Rightarrow> u64" where
  "SID_SET_L sid = sid OR push_bit 8 1"

definition SID_UNSET_L :: "u64 \<Rightarrow> u64" where
  "SID_UNSET_L sid = sid AND NOT (push_bit 8 1)"

definition SID_GET_TERM :: "u64 \<Rightarrow> u64" where
  "SID_GET_TERM sid = drop_bit 9 sid"

definition SID_SET_TERM :: "u64 \<Rightarrow> u64 \<Rightarrow> u64" where
  "SID_SET_TERM sid term = push_bit 9 term OR (sid AND 0x1FF)"

definition IS_SID_NEW :: "u64 \<Rightarrow> bool" where
  "IS_SID_NEW sid = (\<not> SID_GET_L sid \<and> SID_GET_TERM sid = 0)"

definition SID_NULL :: u64 where
  "SID_NULL = 0xFF"

definition SID_DEAD :: u64 where
  "SID_DEAD = 0xFFFFFFFFFFFFFFFF"

section \<open>The work-request identifier [SSN|WA|TAG|CONN]\<close>

definition WRID_GET_CONN :: "u64 \<Rightarrow> u8" where
  "WRID_GET_CONN wrid = ucast (wrid AND 0xFF)"

definition WRID_SET_CONN :: "u64 \<Rightarrow> u8 \<Rightarrow> u64" where
  "WRID_SET_CONN wrid conn = ucast conn OR push_bit 8 (drop_bit 8 wrid)"

definition WRID_GET_TAG :: "u64 \<Rightarrow> bool" where
  "WRID_GET_TAG wrid = (wrid AND push_bit 8 1 \<noteq> 0)"

definition WRID_SET_TAG :: "u64 \<Rightarrow> u64" where
  "WRID_SET_TAG wrid = wrid OR push_bit 8 1"

definition WRID_UNSET_TAG :: "u64 \<Rightarrow> u64" where
  "WRID_UNSET_TAG wrid = wrid AND NOT (push_bit 8 1)"

definition WRID_GET_WA :: "u64 \<Rightarrow> bool" where
  "WRID_GET_WA wrid = (wrid AND push_bit 9 1 \<noteq> 0)"

definition WRID_SET_WA :: "u64 \<Rightarrow> u64" where
  "WRID_SET_WA wrid = wrid OR push_bit 9 1"

definition WRID_UNSET_WA :: "u64 \<Rightarrow> u64" where
  "WRID_UNSET_WA wrid = wrid AND NOT (push_bit 9 1)"

definition WRID_GET_SSN :: "u64 \<Rightarrow> u64" where
  "WRID_GET_SSN wrid = drop_bit 10 wrid"

definition WRID_SET_SSN :: "u64 \<Rightarrow> u64 \<Rightarrow> u64" where
  "WRID_SET_SSN wrid ssn = push_bit 10 ssn OR (wrid AND 0x3FF)"

section \<open>The configuration identifier\<close>

definition CID_STABLE :: u8 where "CID_STABLE = 0"

definition CID_TRANSIT :: u8 where "CID_TRANSIT = 1"

definition CID_EXTENDED :: u8 where "CID_EXTENDED = 2"

record dare_cid_t =
  cid_epoch :: u64
  cid_size0 :: u8
  cid_size1 :: u8
  cid_state :: u8
  cid_bitmask :: u32

definition CID_IS_SERVER_ON :: "dare_cid_t \<Rightarrow> u8 \<Rightarrow> bool" where
  "CID_IS_SERVER_ON cid idx = (cid_bitmask cid AND push_bit (unat idx) 1 \<noteq> 0)"

definition CID_SERVER_ADD :: "dare_cid_t \<Rightarrow> u8 \<Rightarrow> dare_cid_t" where
  "CID_SERVER_ADD cid idx = cid\<lparr>cid_bitmask := cid_bitmask cid OR push_bit (unat idx) 1\<rparr>"

definition CID_SERVER_RM :: "dare_cid_t \<Rightarrow> u8 \<Rightarrow> dare_cid_t" where
  "CID_SERVER_RM cid idx = cid\<lparr>cid_bitmask := cid_bitmask cid AND NOT (push_bit (unat idx) 1)\<rparr>"

definition equal_cid :: "dare_cid_t \<Rightarrow> dare_cid_t \<Rightarrow> bool" where
  "equal_cid l r =
    (if cid_epoch l \<noteq> cid_epoch r then False
     else if cid_state l \<noteq> cid_state r then False
     else if cid_size0 l \<noteq> cid_size0 r then False
     else if cid_size1 l \<noteq> cid_size1 r then False
     else if cid_bitmask l \<noteq> cid_bitmask r then False
     else True)"

definition get_extended_group_size :: "dare_cid_t \<Rightarrow> u8" where
  "get_extended_group_size cid =
    (if CID_STABLE = cid_state cid then cid_size0 cid
     else if cid_size0 cid < cid_size1 cid then cid_size1 cid
     else cid_size0 cid)"

definition get_group_size :: "dare_cid_t \<Rightarrow> u8" where
  "get_group_size cid =
    (if CID_TRANSIT \<noteq> cid_state cid then cid_size0 cid
     else if cid_size0 cid < cid_size1 cid then cid_size1 cid
     else cid_size0 cid)"

section \<open>Field laws\<close>

text \<open>The interface of one field of a packed 64-bit identifier: what a read returns after a
  write of the same field, and that the last write wins.\<close>

locale packed_field =
  fixes get :: "u64 \<Rightarrow> 'f" and put :: "u64 \<Rightarrow> 'f \<Rightarrow> u64" and fits :: "'f \<Rightarrow> bool"
  assumes get_put: "fits v \<Longrightarrow> get (put w v) = v"
    and put_put: "put (put w v) v' = put w v'"
    and put_get: "put w (get w) = w"
    and fits_get: "fits (get w)"
begin

lemma put_idem: "put (put w v) v = put w v"
  by (rule put_put)

lemma put_inject: "fits v \<Longrightarrow> fits v' \<Longrightarrow> put w v = put w v' \<longleftrightarrow> v = v'"
  using get_put by metis

end

text \<open>Two fields of the same identifier that do not overlap.\<close>

locale packed_fields = a: packed_field get_a put_a fits_a + b: packed_field get_b put_b fits_b
  for get_a :: "u64 \<Rightarrow> 'f" and put_a fits_a and get_b :: "u64 \<Rightarrow> 'g" and put_b fits_b +
  assumes a_put_b: "get_a (put_b w v) = get_a w"
    and b_put_a: "get_b (put_a w u) = get_b w"
begin

lemma both_after_puts: "fits_a u \<Longrightarrow> fits_b v \<Longrightarrow>
    get_a (put_b (put_a w u) v) = u \<and> get_b (put_b (put_a w u) v) = v"
  by (simp add: a_put_b a.get_put b.get_put)

end

definition flag_put :: "(u64 \<Rightarrow> u64) \<Rightarrow> (u64 \<Rightarrow> u64) \<Rightarrow> u64 \<Rightarrow> bool \<Rightarrow> u64" where
  "flag_put set_flag unset_flag w b = (if b then set_flag w else unset_flag w)"

lemmas sid_defs = SID_GET_IDX_def SID_SET_IDX_def SID_GET_L_def SID_SET_L_def SID_UNSET_L_def
  SID_GET_TERM_def SID_SET_TERM_def

lemmas wrid_defs = WRID_GET_CONN_def WRID_SET_CONN_def WRID_GET_TAG_def WRID_SET_TAG_def
  WRID_UNSET_TAG_def WRID_GET_WA_def WRID_SET_WA_def WRID_UNSET_WA_def WRID_GET_SSN_def
  WRID_SET_SSN_def

lemma and_single_bit: "((w::'a::len word) AND push_bit n 1 \<noteq> 0) = bit w n"
  by (simp add: push_bit_of_1 and_exp_eq_0_iff_not_bit)

lemma masks_eq: "(0xFF::u64) = mask 8" "(0x1FF::u64) = mask 9" "(0x3FF::u64) = mask 10"
  by (simp_all add: mask_eq_exp_minus_1)

lemma bit_less_exp: "bit (t::u64) n \<Longrightarrow> unat t < 2 ^ k \<Longrightarrow> n < k"
proof (rule ccontr)
  assume b: "bit t n" and t: "unat t < 2 ^ k" and "\<not> n < k"
  then have "unat t < 2 ^ n"
    by (meson leI less_le_trans one_le_numeral power_increasing)
  moreover have "odd (unat t div 2 ^ n)"
    using b by (simp add: bit_unsigned_iff flip: bit_iff_odd)
  ultimately show False by simp
qed

lemma bit_u8_iff: "bit (w::u8) n \<longleftrightarrow> n < 8 \<and> bit w n"
  using bit_imp_le_length [of w n] by auto

lemma bit_exp_u64: "bit (push_bit k 1 :: u64) n \<longleftrightarrow> n = k \<and> k < 64"
  by (auto simp: push_bit_of_1 bit_simps simp del: push_bit_of_1)

lemma bit_sid [bitfield_simps]:
  "bit (SID_GET_IDX sid) n \<longleftrightarrow> n < 8 \<and> bit sid n"
  "bit (SID_SET_IDX sid i) n \<longleftrightarrow> (if n < 8 then bit i n else bit sid n)"
  "SID_GET_L sid \<longleftrightarrow> bit sid 8"
  "bit (SID_SET_L sid) n \<longleftrightarrow> n = 8 \<or> bit sid n"
  "bit (SID_UNSET_L sid) n \<longleftrightarrow> n \<noteq> 8 \<and> bit sid n"
  "bit (SID_GET_TERM sid) n \<longleftrightarrow> bit sid (n + 9)"
  "bit (SID_SET_TERM sid t) n \<longleftrightarrow> (if n < 9 then bit sid n else n < 64 \<and> bit t (n - 9))"
  using bit_imp_le_length [of sid n] bit_imp_le_length [of sid "n + 9"] bit_imp_le_length [of i n]
  by (auto simp only: sid_defs masks_eq and_single_bit bit_exp_u64 bit_or_iff bit_and_iff bit_not_iff
      bit_mask_iff bit_push_bit_iff bit_drop_bit_eq bit_unsigned_iff comp_def possible_bit_word
      split: if_splits)
    (auto simp: bit_simps add.commute)

lemma bit_wrid [bitfield_simps]:
  "bit (WRID_GET_CONN w) n \<longleftrightarrow> n < 8 \<and> bit w n"
  "bit (WRID_SET_CONN w i) n \<longleftrightarrow> (if n < 8 then bit i n else bit w n)"
  "WRID_GET_TAG w \<longleftrightarrow> bit w 8"
  "bit (WRID_SET_TAG w) n \<longleftrightarrow> n = 8 \<or> bit w n"
  "bit (WRID_UNSET_TAG w) n \<longleftrightarrow> n \<noteq> 8 \<and> bit w n"
  "WRID_GET_WA w \<longleftrightarrow> bit w 9"
  "bit (WRID_SET_WA w) n \<longleftrightarrow> n = 9 \<or> bit w n"
  "bit (WRID_UNSET_WA w) n \<longleftrightarrow> n \<noteq> 9 \<and> bit w n"
  "bit (WRID_GET_SSN w) n \<longleftrightarrow> bit w (n + 10)"
  "bit (WRID_SET_SSN w t) n \<longleftrightarrow> (if n < 10 then bit w n else n < 64 \<and> bit t (n - 10))"
  using bit_imp_le_length [of w n] bit_imp_le_length [of w "n + 10"] bit_imp_le_length [of i n]
  by (auto simp only: wrid_defs masks_eq and_single_bit bit_exp_u64 bit_or_iff bit_and_iff bit_not_iff
      bit_mask_iff bit_push_bit_iff bit_drop_bit_eq bit_unsigned_iff comp_def possible_bit_word
      split: if_splits)
    (auto simp: bit_simps add.commute)

lemma bit_flag_put: "bit (flag_put s u w b) n \<longleftrightarrow> (if b then bit (s w) n else bit (u w) n)"
  by (simp add: flag_put_def)

lemma bit_less_55: "unat (t::u64) < 36028797018963968 \<Longrightarrow> bit t n \<Longrightarrow> n < 55"
  using bit_less_exp [of t n 55] by simp

lemma bit_less_54: "unat (t::u64) < 18014398509481984 \<Longrightarrow> bit t n \<Longrightarrow> n < 54"
  using bit_less_exp [of t n 54] by simp

lemma unat_SID_GET_TERM: "unat (SID_GET_TERM w) = unat w div 512"
  unfolding SID_GET_TERM_def by (simp only: unat_drop_bit_eq) (simp add: drop_bit_eq_div)

lemma unat_WRID_GET_SSN: "unat (WRID_GET_SSN w) = unat w div 1024"
  unfolding WRID_GET_SSN_def by (simp only: unat_drop_bit_eq) (simp add: drop_bit_eq_div)

lemma SID_GET_TERM_bound: "unat (SID_GET_TERM w) < 2 ^ 55"
  using unsigned_less [of w, where ?'a=nat] by (simp add: unat_SID_GET_TERM)

lemma WRID_GET_SSN_bound: "unat (WRID_GET_SSN w) < 2 ^ 54"
  using unsigned_less [of w, where ?'a=nat] by (simp add: unat_WRID_GET_SSN)

lemmas field_intros = bit_word_eqI
lemmas field_dests = bit_less_55 bit_less_54

interpretation sid_idx: packed_field SID_GET_IDX SID_SET_IDX "\<lambda>_. True"
  by unfold_locales (auto simp: bitfield_simps intro!: bit_word_eqI split: if_splits)

interpretation sid_l: packed_field SID_GET_L "flag_put SID_SET_L SID_UNSET_L" "\<lambda>_. True"
  by unfold_locales (auto simp: bitfield_simps bit_flag_put intro!: bit_word_eqI split: if_splits)

interpretation sid_term: packed_field SID_GET_TERM SID_SET_TERM "\<lambda>t. unat t < 2 ^ 55"
  using SID_GET_TERM_bound
  by unfold_locales (auto simp: bitfield_simps intro!: bit_word_eqI split: if_splits dest: field_dests)

interpretation sid_term_idx: packed_fields SID_GET_TERM SID_SET_TERM "\<lambda>t. unat t < 2 ^ 55"
    SID_GET_IDX SID_SET_IDX "\<lambda>_. True"
  by unfold_locales (auto simp: bitfield_simps intro!: bit_word_eqI)

interpretation sid_term_l: packed_fields SID_GET_TERM SID_SET_TERM "\<lambda>t. unat t < 2 ^ 55"
    SID_GET_L "flag_put SID_SET_L SID_UNSET_L" "\<lambda>_. True"
  by unfold_locales (auto simp: bitfield_simps bit_flag_put intro!: bit_word_eqI split: if_splits)

interpretation sid_l_idx: packed_fields SID_GET_L "flag_put SID_SET_L SID_UNSET_L" "\<lambda>_. True"
    SID_GET_IDX SID_SET_IDX "\<lambda>_. True"
  by unfold_locales (auto simp: bitfield_simps bit_flag_put intro!: bit_word_eqI split: if_splits)

interpretation wrid_conn: packed_field WRID_GET_CONN WRID_SET_CONN "\<lambda>_. True"
  by unfold_locales (auto simp: bitfield_simps intro!: bit_word_eqI split: if_splits)

interpretation wrid_tag: packed_field WRID_GET_TAG "flag_put WRID_SET_TAG WRID_UNSET_TAG" "\<lambda>_. True"
  by unfold_locales (auto simp: bitfield_simps bit_flag_put intro!: bit_word_eqI split: if_splits)

interpretation wrid_wa: packed_field WRID_GET_WA "flag_put WRID_SET_WA WRID_UNSET_WA" "\<lambda>_. True"
  by unfold_locales (auto simp: bitfield_simps bit_flag_put intro!: bit_word_eqI split: if_splits)

interpretation wrid_ssn: packed_field WRID_GET_SSN WRID_SET_SSN "\<lambda>s. unat s < 2 ^ 54"
  using WRID_GET_SSN_bound
  by unfold_locales (auto simp: bitfield_simps intro!: bit_word_eqI split: if_splits dest: field_dests)

interpretation wrid_ssn_conn: packed_fields WRID_GET_SSN WRID_SET_SSN "\<lambda>s. unat s < 2 ^ 54"
    WRID_GET_CONN WRID_SET_CONN "\<lambda>_. True"
  by unfold_locales (auto simp: bitfield_simps intro!: bit_word_eqI)

interpretation wrid_ssn_wa: packed_fields WRID_GET_SSN WRID_SET_SSN "\<lambda>s. unat s < 2 ^ 54"
    WRID_GET_WA "flag_put WRID_SET_WA WRID_UNSET_WA" "\<lambda>_. True"
  by unfold_locales (auto simp: bitfield_simps bit_flag_put intro!: bit_word_eqI split: if_splits)

section \<open>The order of SIDs\<close>

lemma unat_SID_GET_IDX: "unat (SID_GET_IDX w) = unat w mod 256"
proof -
  have "unat (SID_GET_IDX w) = unat (take_bit 8 w)"
    unfolding SID_GET_IDX_def masks_eq by (simp add: unsigned_ucast_eq unsigned_take_bit_eq take_bit_eq_mask [symmetric])
  also have "\<dots> = take_bit 8 (unat w)" by (simp only: unsigned_take_bit_eq)
  finally show ?thesis by (simp add: take_bit_eq_mod)
qed

lemma SID_GET_L_odd: "SID_GET_L w \<longleftrightarrow> odd (unat w div 256)"
  using bit_unsigned_iff [of w 8, where ?'a=nat]
  by (simp add: bitfield_simps bit_iff_odd)

lemma unat_sid_split: "unat w = unat (SID_GET_TERM w) * 512 + of_bool (SID_GET_L w) * 256 + unat (SID_GET_IDX w)"
proof -
  have "x = x div 512 * 512 + of_bool (odd (x div 256)) * 256 + x mod 256" for x :: nat
  proof -
    have "x = x div 256 * 256 + x mod 256" by simp
    moreover have "x div 256 = x div 512 * 2 + of_bool (odd (x div 256))"
      using div_mult_mod_eq [of "x div 256" 2] div_mult2_eq [of x 256 2]
      by (simp add: mod_2_eq_odd)
    ultimately show ?thesis by linarith
  qed
  then show ?thesis
    by (simp only: unat_SID_GET_TERM SID_GET_L_odd unat_SID_GET_IDX)
qed

lemma unat_SID_GET_IDX_less: "unat (SID_GET_IDX w) < 256"
  by (simp add: unat_SID_GET_IDX)

lemma sid_le_iff_lex:
  "a \<le> b \<longleftrightarrow>
    SID_GET_TERM a < SID_GET_TERM b \<or> SID_GET_TERM a = SID_GET_TERM b \<and>
    (\<not> SID_GET_L a \<and> SID_GET_L b \<or> SID_GET_L a = SID_GET_L b \<and> SID_GET_IDX a \<le> SID_GET_IDX b)"
  using unat_SID_GET_IDX_less [of a] unat_SID_GET_IDX_less [of b]
  unfolding word_le_nat_alt word_less_nat_alt word_unat_eq_iff
  by (subst unat_sid_split [of a], subst unat_sid_split [of b]) auto

lemma SID_eq_iff: "a = b \<longleftrightarrow> SID_GET_TERM a = SID_GET_TERM b \<and> SID_GET_L a = SID_GET_L b \<and>
    SID_GET_IDX a = SID_GET_IDX b"
proof
  assume "SID_GET_TERM a = SID_GET_TERM b \<and> SID_GET_L a = SID_GET_L b \<and> SID_GET_IDX a = SID_GET_IDX b"
  then show "a = b"
    using unat_sid_split [of a] unat_sid_split [of b] by (simp add: word_unat_eq_iff)
qed simp

lemma sid_le_imp_term_le: "a \<le> b \<Longrightarrow> SID_GET_TERM a \<le> SID_GET_TERM b"
  unfolding sid_le_iff_lex [of a b] by auto

section \<open>Configurations\<close>

lemma and_exp_bit: "((m::u32) AND push_bit n 1 \<noteq> 0) = bit m n"
  by (rule and_single_bit)

lemma bit_exp_u32: "bit (push_bit k 1 :: u32) n \<longleftrightarrow> n = k \<and> k < 32"
  by (auto simp: push_bit_of_1 bit_simps simp del: push_bit_of_1)

lemma CID_IS_SERVER_ON_bit: "CID_IS_SERVER_ON cid i \<longleftrightarrow> bit (cid_bitmask cid) (unat i)"
  by (simp only: CID_IS_SERVER_ON_def and_exp_bit)

lemma CID_SERVER_ADD_on [simp]: "unat i < 32 \<Longrightarrow>
    CID_IS_SERVER_ON (CID_SERVER_ADD cid i) j \<longleftrightarrow> j = i \<or> CID_IS_SERVER_ON cid j"
  by (auto simp only: CID_IS_SERVER_ON_bit CID_SERVER_ADD_def bit_or_iff bit_exp_u32 word_unat_eq_iff)
    (auto simp: bit_simps)

lemma CID_SERVER_RM_on [simp]: "CID_IS_SERVER_ON (CID_SERVER_RM cid i) j \<longleftrightarrow> j \<noteq> i \<and> CID_IS_SERVER_ON cid j"
  using bit_imp_le_length [of "cid_bitmask cid" "unat j"]
  by (auto simp only: CID_IS_SERVER_ON_bit CID_SERVER_RM_def bit_and_iff bit_not_iff bit_exp_u32 word_unat_eq_iff
      possible_bit_word) (auto simp: bit_simps)

lemma CID_SERVER_ADD_fields [simp]:
  "cid_epoch (CID_SERVER_ADD cid i) = cid_epoch cid" "cid_size0 (CID_SERVER_ADD cid i) = cid_size0 cid"
  "cid_size1 (CID_SERVER_ADD cid i) = cid_size1 cid" "cid_state (CID_SERVER_ADD cid i) = cid_state cid"
  by (simp_all add: CID_SERVER_ADD_def)

lemma CID_SERVER_RM_fields [simp]:
  "cid_epoch (CID_SERVER_RM cid i) = cid_epoch cid" "cid_size0 (CID_SERVER_RM cid i) = cid_size0 cid"
  "cid_size1 (CID_SERVER_RM cid i) = cid_size1 cid" "cid_state (CID_SERVER_RM cid i) = cid_state cid"
  by (simp_all add: CID_SERVER_RM_def)

lemma equal_cid_iff: "equal_cid l r \<longleftrightarrow> l = (r :: dare_cid_t)"
  by (cases l; cases r; simp add: equal_cid_def)

lemma get_group_size_le_extended: "get_group_size cid \<le> get_extended_group_size cid"
  by (auto simp: get_group_size_def get_extended_group_size_def CID_STABLE_def CID_TRANSIT_def)

section \<open>Reading back the fields of a SID\<close>

lemma sid_fields [simp]:
  "SID_GET_TERM (SID_SET_IDX w i) = SID_GET_TERM w" "SID_GET_TERM (SID_SET_L w) = SID_GET_TERM w"
  "SID_GET_TERM (SID_UNSET_L w) = SID_GET_TERM w" "SID_GET_IDX (SID_SET_IDX w i) = i"
  "SID_GET_IDX (SID_SET_TERM w t) = SID_GET_IDX w" "SID_GET_IDX (SID_SET_L w) = SID_GET_IDX w"
  "SID_GET_IDX (SID_UNSET_L w) = SID_GET_IDX w" "SID_GET_L (SID_SET_L w)" "\<not> SID_GET_L (SID_UNSET_L w)"
  "SID_GET_L (SID_SET_TERM w t) = SID_GET_L w" "SID_GET_L (SID_SET_IDX w i) = SID_GET_L w"
  using sid_term_idx.a_put_b sid_term_idx.b_put_a sid_term_l.b_put_a sid_l_idx.a_put_b sid_idx.get_put
    sid_term_l.a_put_b [where v = True] sid_term_l.a_put_b [where v = False]
    sid_l_idx.b_put_a [where u = True] sid_l_idx.b_put_a [where u = False]
    sid_l.get_put [where v = True] sid_l.get_put [where v = False]
  by (simp_all add: flag_put_def)

lemma SID_GET_TERM_SET [simp]: "unat t < 2 ^ 55 \<Longrightarrow> SID_GET_TERM (SID_SET_TERM w t) = t"
  by (rule sid_term.get_put)

lemma SID_GET_TERM_SET_TERM [simp]: "SID_GET_TERM (SID_SET_TERM w (SID_GET_TERM v)) = SID_GET_TERM v"
  by (rule sid_term.get_put) (rule SID_GET_TERM_bound)

lemma sid_less_iff_lex:
  "a < b \<longleftrightarrow> SID_GET_TERM a < SID_GET_TERM b \<or>
    SID_GET_TERM a = SID_GET_TERM b \<and> (\<not> SID_GET_L a \<and> SID_GET_L b \<or> SID_GET_L a = SID_GET_L b \<and> SID_GET_IDX a < SID_GET_IDX b)"
  using sid_le_iff_lex [of b a] by (auto simp: not_le [symmetric])

end
