(* ===== verification/Dare_Log.thy ===== *)
theory Dare_Log
  imports Dare_Ids
begin

text \<open>
  The replicated log (dare_log.h): a circular buffer of variable-length entries, kept as the
  raw bytes the other servers read and write over RDMA.  An entry pointer of the C code is the
  offset of the entry in \<open>log_entries\<close>; its fields are read and written at the byte offsets of
  struct dare_log_entry_t (idx 0, term 8, req_id 16, clt_id 24, type 26, data 32; 48 bytes).
  A pointer returned through \<open>uint64_t *offset\<close> together with an entry equals that entry's
  offset, so \<open>log_get_entry\<close> returns the one value \<open>Some offset\<close>, or \<open>None\<close> for NULL, in which
  case the caller's offset is unchanged.  The unbounded scans of the buffer take fuel and
  return \<open>None\<close> when it runs out.
\<close>

section \<open>Data\<close>

definition NOOP :: u8 where "NOOP = 0"

definition CSM :: u8 where "CSM = 1"

definition CONFIG :: u8 where "CONFIG = 2"

definition HEAD :: u8 where "HEAD = 3"

definition LOG_SIZE :: u64 where "LOG_SIZE = 16384 * 4096"

definition MAX_NC_ENTRIES :: nat where "MAX_NC_ENTRIES = 1024"

definition sizeof_entry :: nat where "sizeof_entry = 48"

record sm_cmd_t =
  cmd_len :: u16
  cmd_cmd :: "u8 list"

text \<open>The argument \<open>void *data\<close> of \<open>log_append_entry\<close>, read according to the entry type.\<close>

datatype log_data = DCmd sm_cmd_t | DCid dare_cid_t | DHead u64 | DNone

record dare_log_entry_det_t =
  det_idx :: u64
  det_term :: u64
  det_offset :: u64

record dare_log_t =
  log_head :: u64
  log_apply :: u64
  log_commit :: u64
  log_end :: u64
  log_tail :: u64
  log_len :: u64
  log_nc_buf :: "dare_log_entry_det_t list list"
  log_entries :: memory

section \<open>Entry fields\<close>

definition entry_idx :: "memory \<Rightarrow> u64 \<Rightarrow> u64" where
  "entry_idx m e = load64 m (unat e)"

definition entry_term :: "memory \<Rightarrow> u64 \<Rightarrow> u64" where
  "entry_term m e = load64 m (unat e + 8)"

definition entry_req_id :: "memory \<Rightarrow> u64 \<Rightarrow> u64" where
  "entry_req_id m e = load64 m (unat e + 16)"

definition entry_clt_id :: "memory \<Rightarrow> u64 \<Rightarrow> u16" where
  "entry_clt_id m e = load16 m (unat e + 24)"

definition entry_type :: "memory \<Rightarrow> u64 \<Rightarrow> u8" where
  "entry_type m e = load8 m (unat e + 26)"

definition entry_cmd_len :: "memory \<Rightarrow> u64 \<Rightarrow> u16" where
  "entry_cmd_len m e = load16 m (unat e + 32)"

definition entry_cmd :: "memory \<Rightarrow> u64 \<Rightarrow> u8 list" where
  "entry_cmd m e = mem_read m (unat e + 34) (unat (entry_cmd_len m e))"

definition entry_head :: "memory \<Rightarrow> u64 \<Rightarrow> u64" where
  "entry_head m e = load64 m (unat e + 32)"

definition entry_cid :: "memory \<Rightarrow> u64 \<Rightarrow> dare_cid_t" where
  "entry_cid m e =
    \<lparr>cid_epoch = load64 m (unat e + 32), cid_size0 = load8 m (unat e + 40),
     cid_size1 = load8 m (unat e + 41), cid_state = load8 m (unat e + 42),
     cid_bitmask = load32 m (unat e + 44)\<rparr>"

definition put_header :: "memory \<Rightarrow> u64 \<Rightarrow> u64 \<Rightarrow> u64 \<Rightarrow> u64 \<Rightarrow> u16 \<Rightarrow> u8 \<Rightarrow> memory" where
  "put_header m e idx term req_id clt_id type =
    store8 (store16 (store64 (store64 (store64 m (unat e) idx) (unat e + 8) term) (unat e + 16) req_id)
      (unat e + 24) clt_id) (unat e + 26) type"

definition put_cid :: "memory \<Rightarrow> u64 \<Rightarrow> dare_cid_t \<Rightarrow> memory" where
  "put_cid m e cid =
    store32 (store8 (store8 (store8 (store64 m (unat e + 32) (cid_epoch cid))
      (unat e + 40) (cid_size0 cid)) (unat e + 41) (cid_size1 cid)) (unat e + 42) (cid_state cid))
      (unat e + 44) (cid_bitmask cid)"

definition put_head :: "memory \<Rightarrow> u64 \<Rightarrow> u64 \<Rightarrow> memory" where
  "put_head m e h = store64 m (unat e + 32) h"

definition put_cmd_len :: "memory \<Rightarrow> u64 \<Rightarrow> u16 \<Rightarrow> memory" where
  "put_cmd_len m e l = store16 m (unat e + 32) l"

definition put_cmd :: "memory \<Rightarrow> u64 \<Rightarrow> u8 list \<Rightarrow> memory" where
  "put_cmd m e bs = mem_write m (unat e + 34) bs"

section \<open>Operations\<close>

definition log_new :: "dare_log_t" where
  "log_new = \<lparr>log_head = 0, log_apply = 0, log_commit = 0, log_end = LOG_SIZE, log_tail = LOG_SIZE,
    log_len = LOG_SIZE, log_nc_buf = replicate 13 [], log_entries = (\<lambda>_. 0)\<rparr>"

definition is_log_empty :: "dare_log_t \<Rightarrow> bool" where
  "is_log_empty log = (log_end log = log_len log)"

definition is_log_full :: "dare_log_t \<Rightarrow> bool" where
  "is_log_full log = (log_end log = log_head log)"

definition not_committed_entries :: "dare_log_t \<Rightarrow> bool" where
  "not_committed_entries log = (\<not> is_log_empty log \<and> log_commit log \<noteq> log_end log)"

definition not_applied_entries :: "dare_log_t \<Rightarrow> bool" where
  "not_applied_entries log = (\<not> is_log_empty log \<and> log_apply log \<noteq> log_commit log)"

definition log_fit_entry_header :: "dare_log_t \<Rightarrow> u64 \<Rightarrow> bool" where
  "log_fit_entry_header log offset = (log_len log - offset \<ge> of_nat sizeof_entry)"

definition log_add_new_entry :: "dare_log_t \<Rightarrow> u64 option" where
  "log_add_new_entry log =
    (if is_log_full log then None
     else if is_log_empty log \<or> \<not> log_fit_entry_header log (log_end log) then Some 0
     else Some (log_end log))"

definition log_entry_len :: "memory \<Rightarrow> u64 \<Rightarrow> u32" where
  "log_entry_len m e =
    (if entry_type m e = NOOP \<or> entry_type m e = CONFIG \<or> entry_type m e = HEAD
     then of_nat sizeof_entry
     else of_nat (sizeof_entry + unat (entry_cmd_len m e)))"

definition log_fit_entry :: "dare_log_t \<Rightarrow> u64 \<Rightarrow> u64 \<Rightarrow> bool" where
  "log_fit_entry log offset e = (log_len log - offset \<ge> ucast (log_entry_len (log_entries log) e))"

definition log_offset_end_distance :: "dare_log_t \<Rightarrow> u64 \<Rightarrow> u64" where
  "log_offset_end_distance log offset =
    (if log_end log = log_len log then 0
     else if log_end log \<ge> offset then log_end log - offset
     else log_len log - (offset - log_end log))"

definition log_is_offset_larger :: "dare_log_t \<Rightarrow> u64 \<Rightarrow> u64 \<Rightarrow> bool" where
  "log_is_offset_larger log loffset roffset =
    (let a = (if log_end log = log_len log then 0
              else if log_end log \<ge> loffset then log_end log - loffset
              else log_len log - (loffset - log_end log));
         b = (if log_end log = log_len log then 0
              else if log_end log \<ge> roffset then log_end log - roffset
              else log_len log - (roffset - log_end log))
     in a < b)"

definition log_get_entry :: "dare_log_t \<Rightarrow> u64 \<Rightarrow> u64 option" where
  "log_get_entry log offset =
    (if is_log_empty log then None
     else if 0 = log_offset_end_distance log offset then None
     else if \<not> log_fit_entry_header log offset then Some 0
     else Some offset)"

text \<open>One round of the scanning loops: the offset after the entry at \<open>e\<close>.\<close>

definition log_next :: "dare_log_t \<Rightarrow> u64 \<Rightarrow> u64" where
  "log_next log e = (if \<not> log_fit_entry log e e then 0 else e) + ucast (log_entry_len (log_entries log) e)"

text \<open>The entries met by the loop \<open>while ((entry = log_get_entry(log, &offset)) != NULL)\<close>,
  as the values of offset in its body.\<close>

fun log_scan :: "nat \<Rightarrow> dare_log_t \<Rightarrow> u64 \<Rightarrow> u64 list option" where
  "log_scan fuel log offset =
    (case log_get_entry log offset of
       None \<Rightarrow> Some []
     | Some e \<Rightarrow> (case fuel of 0 \<Rightarrow> None
                 | Suc f \<Rightarrow> map_option ((#) e) (log_scan f log (log_next log e))))"

declare log_scan.simps [simp del]

definition entry_det :: "dare_log_t \<Rightarrow> u64 \<Rightarrow> dare_log_entry_det_t" where
  "entry_det log e = \<lparr>det_idx = entry_idx (log_entries log) e, det_term = entry_term (log_entries log) e,
    det_offset = e\<rparr>"

definition log_entries_to_nc_buf :: "nat \<Rightarrow> dare_log_t \<Rightarrow> dare_log_entry_det_t list option" where
  "log_entries_to_nc_buf fuel log = map_option (map (entry_det log)) (log_scan fuel log (log_commit log))"

text \<open>The offset of an exhausted loop is the one after the last matching entry; with an empty
  NC-buffer the C code returns the uninitialised variable, which is \<open>None\<close> here.\<close>

fun log_find_remote_end_offset :: "dare_log_t \<Rightarrow> dare_log_entry_det_t list \<Rightarrow> u64 option \<Rightarrow> u64 option" where
  "log_find_remote_end_offset log [] offset = offset"
| "log_find_remote_end_offset log (d # nc) offset =
    (case log_get_entry log (det_offset d) of
       None \<Rightarrow> Some (det_offset d)
     | Some e \<Rightarrow>
        if entry_idx (log_entries log) e \<noteq> det_idx d \<or> entry_term (log_entries log) e \<noteq> det_term d
        then Some e
        else log_find_remote_end_offset log nc (Some (log_next log e)))"

definition last_or :: "'a \<Rightarrow> 'a list \<Rightarrow> 'a" where
  "last_or d xs = (if xs = [] then d else last xs)"

definition log_get_tail :: "nat \<Rightarrow> dare_log_t \<Rightarrow> u64 option" where
  "log_get_tail fuel log =
    (if log_tail log \<noteq> log_len log then Some (log_tail log)
     else if is_log_empty log then Some (log_len log)
     else case log_scan fuel log (log_commit log) of None \<Rightarrow> None | Some es \<Rightarrow>
       if last_or (log_len log) es \<noteq> log_len log then Some (last_or (log_len log) es)
       else case log_scan fuel log (log_apply log) of None \<Rightarrow> None | Some es \<Rightarrow>
         if last_or (log_len log) es \<noteq> log_len log then Some (last_or (log_len log) es)
         else map_option (last_or (log_len log)) (log_scan fuel log (log_head log)))"

definition data_cmd :: "log_data \<Rightarrow> sm_cmd_t" where
  "data_cmd d = (case d of DCmd c \<Rightarrow> c | _ \<Rightarrow> \<lparr>cmd_len = 0, cmd_cmd = []\<rparr>)"

definition data_cid :: "log_data \<Rightarrow> dare_cid_t" where
  "data_cid d = (case d of DCid c \<Rightarrow> c | _ \<Rightarrow> \<lparr>cid_epoch = 0, cid_size0 = 0, cid_size1 = 0, cid_state = 0, cid_bitmask = 0\<rparr>)"

definition data_head :: "log_data \<Rightarrow> u64" where
  "data_head d = (case d of DHead h \<Rightarrow> h | _ \<Rightarrow> 0)"

text \<open>\<open>log_append_entry\<close>: the index of the new entry (one more than that of the last one), then
  the placement and the copy of the entry.  The result is the index (0 when the log is full), the
  log, and the global flag \<open>prev_log_entry_head\<close>; \<open>None\<close> only when the scan for the tail runs out
  of fuel.\<close>

definition log_new_idx :: "dare_log_t \<Rightarrow> u64 \<Rightarrow> u64" where
  "log_new_idx log tail =
    (case log_get_entry log tail of Some l \<Rightarrow> entry_idx (log_entries log) l + 1 | None \<Rightarrow> 1)"

definition log_finish_entry :: "dare_log_t \<Rightarrow> u64 \<Rightarrow> dare_log_t" where
  "log_finish_entry log e = log\<lparr>log_tail := log_end log,
    log_end := log_end log + ucast (log_entry_len (log_entries log) e)\<rparr>"

definition log_put_entry ::
  "dare_log_t \<Rightarrow> u64 \<Rightarrow> u64 \<Rightarrow> u64 \<Rightarrow> u16 \<Rightarrow> u8 \<Rightarrow> log_data \<Rightarrow> u64 \<times> dare_log_t" where
  "log_put_entry log idx term req_id clt_id type data =
    (case log_add_new_entry log of
       None \<Rightarrow> (0, log)
     | Some e \<Rightarrow>
      (let log = log\<lparr>log_entries := put_header (log_entries log) e idx term req_id clt_id type\<rparr>;
           log = (if \<not> log_fit_entry_header log (log_end log) then log\<lparr>log_end := 0\<rparr> else log)
       in if type = CONFIG
          then (idx, log_finish_entry (log\<lparr>log_entries := put_cid (log_entries log) e (data_cid data)\<rparr>) e)
          else if type = HEAD
          then (idx, log_finish_entry (log\<lparr>log_entries := put_head (log_entries log) e (data_head data)\<rparr>) e)
          else if type = NOOP then (idx, log_finish_entry log e)
          else
           (let cmd = data_cmd data;
                bytes = take (unat (cmd_len cmd)) (cmd_cmd cmd);
                log = log\<lparr>log_entries := put_cmd_len (log_entries log) e (cmd_len cmd)\<rparr>
            in if \<not> log_fit_entry log (log_end log) e
               then (let log = log\<lparr>log_end := 0\<rparr> in
                 case log_add_new_entry log of
                   None \<Rightarrow> (0, log)
                 | Some e \<Rightarrow> (idx, log_finish_entry (log\<lparr>log_entries :=
                     put_cmd (put_cmd_len (put_header (log_entries log) e idx term req_id clt_id type) e (cmd_len cmd)) e bytes\<rparr>) e))
               else (idx, log_finish_entry (log\<lparr>log_entries := put_cmd (log_entries log) e bytes\<rparr>) e))))"

definition log_append_entry ::
  "nat \<Rightarrow> dare_log_t \<Rightarrow> bool \<Rightarrow> u64 \<Rightarrow> u64 \<Rightarrow> u16 \<Rightarrow> u8 \<Rightarrow> log_data \<Rightarrow> (u64 \<times> dare_log_t \<times> bool) option" where
  "log_append_entry fuel log prev term req_id clt_id type data =
    (let prev = (if type \<noteq> HEAD then False else prev) in
     case (if log_tail log = log_len log then log_get_tail fuel log else Some (log_tail log)) of
       None \<Rightarrow> None
     | Some tail \<Rightarrow>
      (let log = log\<lparr>log_tail := tail\<rparr>;
           (idx, log) = log_put_entry log (log_new_idx log tail) term req_id clt_id type data
       in Some (idx, log, prev)))"

text \<open>The fuel of a scan of the log: every entry takes at least 48 bytes.\<close>

definition scan_fuel :: "dare_log_t \<Rightarrow> nat" where
  "scan_fuel l = unat (log_len l) div sizeof_entry + 1"

end
