(* ===== verification/Dare_Log_Proofs.thy ===== *)
theory Dare_Log_Proofs
  imports Dare_Log
begin

text \<open>
  Correctness of the circular log: the list of entries it stands for, the invariant of its
  offsets, and that the operations of \<open>Dare_Log\<close> implement the abstract list.
\<close>

section \<open>The abstract log\<close>

text \<open>What an entry holds, read the way \<open>apply_committed_entries\<close> reads it: the header at the
  entry's offset, the data at the offset where the whole entry fits.\<close>

record entry_v =
  v_idx :: u64
  v_term :: u64
  v_req_id :: u64
  v_clt_id :: u16
  v_type :: u8
  v_data :: log_data

definition entry_body :: "memory \<Rightarrow> u64 \<Rightarrow> u64 \<Rightarrow> u64" where
  "entry_body m len e = (if len - e \<ge> ucast (log_entry_len m e) then e else 0)"

definition entry_data :: "memory \<Rightarrow> u8 \<Rightarrow> u64 \<Rightarrow> log_data" where
  "entry_data m type b =
    (if type = NOOP then DNone else if type = CONFIG then DCid (entry_cid m b)
     else if type = HEAD then DHead (entry_head m b)
     else DCmd \<lparr>cmd_len = entry_cmd_len m b, cmd_cmd = entry_cmd m b\<rparr>)"

definition entry_view :: "memory \<Rightarrow> u64 \<Rightarrow> u64 \<Rightarrow> entry_v" where
  "entry_view m len e =
    \<lparr>v_idx = entry_idx m e, v_term = entry_term m e, v_req_id = entry_req_id m e,
     v_clt_id = entry_clt_id m e, v_type = entry_type m e,
     v_data = entry_data m (entry_type m e) (entry_body m len e)\<rparr>"

definition log_view :: "nat \<Rightarrow> dare_log_t \<Rightarrow> entry_v list option" where
  "log_view fuel log = map_option (map (entry_view (log_entries log) (log_len log))) (log_scan fuel log (log_head log))"

abbreviation elen :: "memory \<Rightarrow> u64 \<Rightarrow> nat" where
  "elen m e \<equiv> unat (log_entry_len m e)"

text \<open>The offsets \<open>es\<close> of the entries met from \<open>off\<close> on, up to the end offset; \<open>w\<close> says whether
  the buffer's end is still to be crossed.\<close>

fun chain :: "memory \<Rightarrow> u64 \<Rightarrow> bool \<Rightarrow> u64 \<Rightarrow> u64 list \<Rightarrow> u64 \<Rightarrow> bool" where
  "chain m len w off [] fin = (\<not> w \<and> off = fin)"
| "chain m len w off (e # es) fin =
    (if unat len - unat off < 48 then w \<and> e = 0 \<and> elen m 0 \<le> unat len \<and> chain m len False (ucast (log_entry_len m 0)) es fin
     else e = off \<and>
       (if unat off + elen m off \<le> unat len then chain m len w (off + ucast (log_entry_len m off)) es fin
        else w \<and> elen m off \<le> unat len \<and> chain m len False (ucast (log_entry_len m off)) es fin))"

definition hdr_eq :: "memory \<Rightarrow> u64 \<Rightarrow> u64 \<Rightarrow> bool" where
  "hdr_eq m e b = (entry_idx m e = entry_idx m b \<and> entry_term m e = entry_term m b \<and>
    entry_req_id m e = entry_req_id m b \<and> entry_clt_id m e = entry_clt_id m b \<and> entry_type m e = entry_type m b \<and> entry_cmd_len m e = entry_cmd_len m b)"

definition wrapped :: "dare_log_t \<Rightarrow> bool" where
  "wrapped log = (unat (log_end log) < unat (log_head log))"

definition is_pos :: "dare_log_t \<Rightarrow> u64 list \<Rightarrow> u64 \<Rightarrow> bool" where
  "is_pos log es off =
    (\<exists>i\<le>length es. \<exists>w. unat off \<le> unat (log_len log) \<and> (w \<longrightarrow> wrapped log) \<and>
      (w = wrapped log \<longrightarrow> unat (log_head log) \<le> unat off) \<and>
      chain (log_entries log) (log_len log) w off (drop i es) (log_end log))"

definition log_inv :: "dare_log_t \<Rightarrow> u64 list \<Rightarrow> bool" where
  "log_inv log es =
    (sizeof_entry \<le> unat (log_len log) \<and> unat (log_len log) < 2 ^ 63 \<and>
     (if is_log_empty log then es = [] \<and> log_head log = 0 \<and> log_apply log = 0 \<and> log_commit log = 0 \<and> log_tail log = log_len log
      else es \<noteq> [] \<and> 0 < unat (log_end log) \<and> unat (log_end log) < unat (log_len log) \<and> unat (log_head log) \<le> unat (log_len log) \<and>
        chain (log_entries log) (log_len log) (wrapped log) (log_head log) es (log_end log) \<and>
        is_pos log es (log_commit log) \<and> is_pos log es (log_apply log) \<and>
        (\<forall>e\<in>set es. hdr_eq (log_entries log) e (entry_body (log_entries log) (log_len log) e)) \<and>
        log_tail log \<in> {log_len log, last es, entry_body (log_entries log) (log_len log) (last es)}))"

text \<open>The bytes an entry occupies.\<close>

definition entry_foot :: "memory \<Rightarrow> u64 \<Rightarrow> u64 \<Rightarrow> nat set" where
  "entry_foot m len e = {unat e..<unat e + 48} \<union>
    {unat (entry_body m len e)..<unat (entry_body m len e) + elen m e}"

definition log_room :: "dare_log_t \<Rightarrow> nat \<Rightarrow> bool" where
  "log_room log n =
    (if is_log_empty log then n < unat (log_len log)
     else if unat (log_head log) \<le> unat (log_end log)
     then unat (log_end log) + n < unat (log_len log) \<or>
       unat (log_len log) < unat (log_end log) + n \<and> n < unat (log_head log)
     else unat (log_end log) + n < unat (log_head log))"

definition data_len :: "u8 \<Rightarrow> log_data \<Rightarrow> nat" where
  "data_len type d = (if type = NOOP \<or> type = CONFIG \<or> type = HEAD then 48 else 48 + unat (cmd_len (data_cmd d)))"

definition data_ok :: "u8 \<Rightarrow> log_data \<Rightarrow> bool" where
  "data_ok type d =
    (if type = NOOP then d = DNone else if type = CONFIG then d = DCid (data_cid d)
     else if type = HEAD then d = DHead (data_head d)
     else d = DCmd (data_cmd d) \<and> length (cmd_cmd (data_cmd d)) = unat (cmd_len (data_cmd d)))"

section \<open>Entry lengths and offsets\<close>

lemma elen_unfold: "elen m e =
    (if entry_type m e = NOOP \<or> entry_type m e = CONFIG \<or> entry_type m e = HEAD then 48 else 48 + unat (entry_cmd_len m e))"
proof -
  have "48 + unat (entry_cmd_len m e) < 2 ^ 32"
    using unsigned_less [of "entry_cmd_len m e", where ?'a=nat] by simp
  then show ?thesis by (simp add: log_entry_len_def sizeof_entry_def unat_of_nat_small flip: of_nat_add)
qed

lemma elen_ge: "48 \<le> elen m e" and elen_less: "elen m e < 48 + 65536"
  using unsigned_less [of "entry_cmd_len m e", where ?'a=nat] by (simp_all add: elen_unfold)

lemma unat_elen [simp]: "unat (ucast (log_entry_len m e) :: u64) = elen m e"
  by (simp add: unat_ucast_up)


lemma entry_body_alt: "unat e \<le> unat len \<Longrightarrow>
    entry_body m len e = (if unat e + elen m e \<le> unat len then e else 0)"
  by (auto simp: entry_body_def word_le_nat_alt unat_sub)

lemma fit_header_alt: "unat off \<le> unat (log_len log) \<Longrightarrow>
    log_fit_entry_header log off \<longleftrightarrow> 48 \<le> unat (log_len log) - unat off"
  by (simp add: log_fit_entry_header_def word_le_nat_alt unat_sub sizeof_entry_def)

lemma fit_entry_alt: "unat off \<le> unat (log_len log) \<Longrightarrow>
    log_fit_entry log off e \<longleftrightarrow> unat off + elen (log_entries log) e \<le> unat (log_len log)"
  by (auto simp: log_fit_entry_def word_le_nat_alt unat_sub)

lemma distance_zero_iff:
  assumes "unat off \<le> unat (log_len log)" "0 < unat (log_end log)" "unat (log_end log) < unat (log_len log)"
  shows "log_offset_end_distance log off = 0 \<longleftrightarrow> off = log_end log"
proof (cases "off \<le> log_end log")
  case True
  then show ?thesis using assms by (auto simp: log_offset_end_distance_def)
next
  case False
  then have "unat (log_len log - (off - log_end log)) = unat (log_len log) - (unat off - unat (log_end log))"
    using assms by (simp add: unat_sub word_le_nat_alt)
  then have "log_len log - (off - log_end log) \<noteq> 0"
    using assms False by (auto simp: word_le_nat_alt word_unat_eq_iff)
  then show ?thesis using False assms by (auto simp: log_offset_end_distance_def)
qed

lemma get_entry_alt:
  assumes "unat off \<le> unat (log_len log)" "0 < unat (log_end log)" "unat (log_end log) < unat (log_len log)"
  shows "log_get_entry log off =
    (if off = log_end log then None else if unat (log_len log) - unat off < 48 then Some 0 else Some off)"
  using assms distance_zero_iff [OF assms] fit_header_alt [OF assms(1)]
  by (auto simp: log_get_entry_def is_log_empty_def)

lemma unat_next: "unat e + elen m e \<le> unat (len::u64) \<Longrightarrow> unat (e + ucast (log_entry_len m e)) = unat e + elen m e"
  using order_le_less_trans [OF _ unat_less_power [of len]] by (subst unat_plus_fits) auto

section \<open>Chains of entries\<close>

lemma chain_le: "chain m len False off es fin \<Longrightarrow> unat off \<le> unat len \<Longrightarrow> unat off \<le> unat fin"
  using elen_ge [of m]
  by (induction es arbitrary: off) (fastforce simp: unat_next split: if_splits)+

lemma chain_fin_le: "chain m len w off es fin \<Longrightarrow> unat off \<le> unat len \<Longrightarrow> unat fin \<le> unat len"
  by (induction es arbitrary: w off) (auto simp: unat_next split: if_splits)

lemma chain_less: "chain m len False off (e # es) fin \<Longrightarrow> unat off \<le> unat len \<Longrightarrow> unat off < unat fin"
  using elen_ge [of m off] chain_le [of m len "off + ucast (log_entry_len m off)" es fin]
  by (auto simp: unat_next split: if_splits)

text \<open>The entries of a chain lie between its ends.\<close>

definition live :: "bool \<Rightarrow> nat \<Rightarrow> nat \<Rightarrow> nat \<Rightarrow> nat set" where
  "live w off len fin = (if w then {off..<len} \<union> {0..<fin} else {off..<fin})"

lemma live_mono: "off \<le> off' \<Longrightarrow> live w off' len fin \<subseteq> live w off len fin"
  by (auto simp: live_def)

lemma live_wrap: "live False off' len fin \<subseteq> live True off len fin"
  by (auto simp: live_def)

lemma chain_foot:
  "chain m len w off es fin \<Longrightarrow> unat off \<le> unat len \<Longrightarrow> e \<in> set es \<Longrightarrow>
    entry_foot m len e \<subseteq> live w (unat off) (unat len) (unat fin)"
proof (induction es arbitrary: w off)
  case (Cons d es)
  let ?next = "off + ucast (log_entry_len m off)"
  have ge: "48 \<le> elen m e" for e by (rule elen_ge)
  show ?case
  proof (cases "unat off + elen m off \<le> unat len")
    case True
    then have d: "d = off" "chain m len w ?next es fin" and nx: "unat ?next = unat off + elen m off"
      using Cons.prems ge [of off] by (auto simp: unat_next split: if_splits)
    have "w \<or> unat ?next \<le> unat fin"
      using chain_le [of m len ?next es fin] d nx True by (cases w) auto
    then have "entry_foot m len d \<subseteq> live w (unat off) (unat len) (unat fin)"
      using d nx True ge [of off] Cons.prems by (auto simp: entry_foot_def entry_body_alt live_def)
    moreover have "e \<in> set es \<Longrightarrow> entry_foot m len e \<subseteq> live w (unat off) (unat len) (unat fin)"
      using Cons.IH [OF d(2)] nx True live_mono [of "unat off" "unat ?next" w "unat len" "unat fin"] by auto
    ultimately show ?thesis using Cons.prems(3) by auto
  next
    case False
    let ?b = "if unat len - unat off < 48 then 0 else off"
    have d: "w" "d = ?b" "chain m len False (ucast (log_entry_len m ?b)) es fin" "elen m ?b \<le> unat len"
      using Cons.prems False ge [of off] by (auto split: if_splits)
    have "elen m ?b \<le> unat fin"
      using chain_le [OF d(3)] d(4) by simp
    then have "entry_foot m len d \<subseteq> live w (unat off) (unat len) (unat fin)"
      using d False ge [of ?b] Cons.prems by (auto simp: entry_foot_def entry_body_alt live_def split: if_splits)
    moreover have "e \<in> set es \<Longrightarrow> entry_foot m len e \<subseteq> live w (unat off) (unat len) (unat fin)"
      using Cons.IH [OF d(3)] d(1,4) live_wrap by fastforce
    ultimately show ?thesis using Cons.prems(3) by auto
  qed
qed simp

lemma elen_cong:
  assumes "\<And>i. unat e \<le> i \<Longrightarrow> i < unat e + 48 \<Longrightarrow> m i = m' i"
  shows "log_entry_len m e = log_entry_len m' e"
  using assms load_cong(3) [of "unat e + 32" m m']
  by (simp add: log_entry_len_def entry_type_def entry_cmd_len_def load8_def)

lemma chain_cong:
  "chain m len w off es fin \<Longrightarrow> (\<And>e i. e \<in> set es \<Longrightarrow> unat e \<le> i \<Longrightarrow> i < unat e + 48 \<Longrightarrow> m i = m' i) \<Longrightarrow>
    chain m' len w off es fin"
proof (induction es arbitrary: w off)
  case (Cons d es)
  have "log_entry_len m d = log_entry_len m' d"
    using Cons.prems(2) [of d] by (intro elen_cong) auto
  moreover have "chain m len w' off' es fin \<Longrightarrow> chain m' len w' off' es fin" for w' off'
    by (erule Cons.IH) (rule Cons.prems(2); simp)
  ultimately show ?case
    using Cons.prems(1) by (simp split: if_splits)
qed simp

lemma chain_snoc_fit:
  "chain m len w off es fin \<Longrightarrow> 48 \<le> unat len - unat fin \<Longrightarrow> unat fin + elen m fin \<le> unat len \<Longrightarrow>
    chain m len w off (es @ [fin]) (fin + ucast (log_entry_len m fin))"
  by (induction es arbitrary: w off) (auto split: if_splits)

lemma chain_snoc_wrap:
  assumes "chain m len False off es fin" "unat len < unat fin + elen m fin \<or> unat len - unat fin < 48"
    and "e = (if unat len - unat fin < 48 then 0 else fin)" "elen m e \<le> unat len"
  shows "chain m len True off (es @ [e]) (ucast (log_entry_len m e))"
  using assms by (induction es arbitrary: off) (auto split: if_splits)

lemma log_scan_chain:
  assumes "0 < unat (log_end log)" "unat (log_end log) < unat (log_len log)"
  shows "chain (log_entries log) (log_len log) w off es (log_end log) \<Longrightarrow> unat off \<le> unat (log_len log) \<Longrightarrow>
    (w \<longrightarrow> unat (log_end log) < unat off) \<Longrightarrow> length es \<le> fuel \<Longrightarrow> log_scan fuel log off = Some es"
proof (induction es arbitrary: w off fuel)
  case Nil
  then show ?case using get_entry_alt [of off log] assms by (simp add: log_scan.simps)
next
  case (Cons e es)
  let ?m = "log_entries log" and ?len = "log_len log"
  obtain f where f: "fuel = Suc f" "length es \<le> f"
    using Cons.prems(4) by (cases fuel) auto
  have "off \<noteq> log_end log"
    using Cons.prems chain_less [of ?m ?len off e es "log_end log"] by (cases w) auto
  then have get: "log_get_entry log off = Some e"
    using get_entry_alt [of off log] Cons.prems assms by (auto split: if_splits)
  have "log_scan f log (log_next log e) = Some es"
  proof (cases "unat off + elen ?m off \<le> unat ?len")
    case True
    then have e: "e = off" "chain ?m ?len w (off + ucast (log_entry_len ?m off)) es (log_end log)"
      using Cons.prems elen_ge [of ?m off] by (auto split: if_splits)
    moreover have "log_next log e = off + ucast (log_entry_len ?m off)"
      using e True Cons.prems(2) by (simp add: log_next_def fit_entry_alt)
    ultimately show ?thesis
      using Cons.IH [OF e(2), of f] f(2) Cons.prems(3) True by (auto simp: unat_next)
  next
    case False
    let ?b = "if unat ?len - unat off < 48 then 0 else off"
    have d: "e = ?b" "chain ?m ?len False (ucast (log_entry_len ?m ?b)) es (log_end log)" "elen ?m ?b \<le> unat ?len"
      using Cons.prems False elen_ge [of ?m off] by (auto split: if_splits)
    then have "log_next log e = ucast (log_entry_len ?m ?b)"
      using False Cons.prems(2) by (auto simp: log_next_def fit_entry_alt)
    then show ?thesis
      using Cons.IH [OF d(2)] d(3) f by simp
  qed
  then show ?case using get f by (simp add: log_scan.simps [of "Suc f"])
qed

section \<open>Writing an entry\<close>

definition put_data :: "memory \<Rightarrow> u64 \<Rightarrow> u8 \<Rightarrow> log_data \<Rightarrow> memory" where
  "put_data m e type d =
    (if type = CONFIG then put_cid m e (data_cid d) else if type = HEAD then put_head m e (data_head d)
     else if type = NOOP then m
     else put_cmd (put_cmd_len m e (cmd_len (data_cmd d))) e (take (unat (cmd_len (data_cmd d))) (cmd_cmd (data_cmd d))))"

lemmas put_defs = put_cid_def put_head_def put_cmd_def put_cmd_len_def put_header_def
lemmas entry_defs = entry_idx_def entry_term_def entry_req_id_def entry_clt_id_def entry_type_def
  entry_cmd_len_def entry_cmd_def entry_head_def entry_cid_def

lemma store_outside:
  "i < a \<or> a + 8 \<le> i \<Longrightarrow> store64 m a w i = m i"
  "i < a \<or> a + 4 \<le> i \<Longrightarrow> store32 m a v i = m i"
  "i < a \<or> a + 2 \<le> i \<Longrightarrow> store16 m a u i = m i"
  "i < a \<or> a + 1 \<le> i \<Longrightarrow> store8 m a c i = m i"
  by (simp_all add: store_defs mem_write_outside del: le_enc.simps)

lemma put_header_outside: "i < unat e \<or> unat e + 48 \<le> i \<Longrightarrow> put_header m e idx t r c ty i = m i"
  by (auto simp: put_header_def store_outside)

lemma put_data_outside: "i < unat e \<or> unat e + data_len ty d \<le> i \<Longrightarrow> put_data m e ty d i = m i"
  by (auto simp: put_data_def put_defs data_len_def store_outside mem_write_outside)

lemma put_header_fields [mem_simps]:
  "entry_idx (put_header m e idx t r c ty) e = idx"
  "entry_term (put_header m e idx t r c ty) e = t"
  "entry_req_id (put_header m e idx t r c ty) e = r"
  "entry_clt_id (put_header m e idx t r c ty) e = c"
  "entry_type (put_header m e idx t r c ty) e = ty"
  by (simp_all add: put_header_def entry_defs mem_simps)

lemma put_data_header [mem_simps]:
  "entry_idx (put_data m e ty d) e = entry_idx m e"
  "entry_term (put_data m e ty d) e = entry_term m e"
  "entry_req_id (put_data m e ty d) e = entry_req_id m e"
  "entry_clt_id (put_data m e ty d) e = entry_clt_id m e"
  "entry_type (put_data m e ty d) e = entry_type m e"
  by (simp_all add: put_data_def put_defs entry_defs mem_simps)

lemma entry_data_put: "data_ok ty d \<Longrightarrow> entry_data (put_data m e ty d) ty e = d"
  by (cases d) (auto simp: data_ok_def entry_data_def put_data_def put_defs entry_defs mem_simps NOOP_def CONFIG_def
      HEAD_def data_cid_def data_head_def data_cmd_def split: if_splits)

lemma elen_put_data: "entry_type m e = ty \<Longrightarrow> elen (put_data m e ty d) e = data_len ty d"
  by (auto simp: elen_unfold data_len_def put_data_def put_defs entry_defs mem_simps)

section \<open>Appending\<close>

text \<open>The memory and the body offset after an append, and the offset at which a scan meets the
  new entry.\<close>

definition new_offset :: "dare_log_t \<Rightarrow> u64" where
  "new_offset log = (if is_log_empty log \<or> \<not> log_fit_entry_header log (log_end log) then 0 else log_end log)"

definition new_body :: "dare_log_t \<Rightarrow> nat \<Rightarrow> u64" where
  "new_body log n = (if is_log_empty log \<or> unat (log_len log) < unat (log_end log) + n then 0 else log_end log)"

definition append_mem :: "dare_log_t \<Rightarrow> u64 \<Rightarrow> u64 \<Rightarrow> u64 \<Rightarrow> u16 \<Rightarrow> u8 \<Rightarrow> log_data \<Rightarrow> memory" where
  "append_mem log idx term req_id clt_id type d =
    (let e = new_offset log; b = new_body log (data_len type d);
         m1 = (if e = b then log_entries log
           else put_cmd_len (put_header (log_entries log) e idx term req_id clt_id type) e (cmd_len (data_cmd d)))
     in put_data (put_header m1 b idx term req_id clt_id type) b type d)"

definition next_idx :: "memory \<Rightarrow> u64 list \<Rightarrow> u64" where
  "next_idx m es = (if es = [] then 1 else entry_idx m (last es) + 1)"

lemma chain_entry:
  assumes "chain m len w off es fin" "unat off \<le> unat len" "unat fin \<le> unat len" "w \<longrightarrow> unat fin < unat off" "e \<in> set es"
  shows "e \<noteq> fin" "entry_body m len e \<noteq> fin" "unat e + 48 \<le> unat len" "unat (entry_body m len e) + 48 \<le> unat len"
proof -
  have foot: "entry_foot m len e \<subseteq> live w (unat off) (unat len) (unat fin)"
    using chain_foot assms by blast
  have le: "48 \<le> elen m e" by (rule elen_ge)
  have "unat e \<in> entry_foot m len e" "unat (entry_body m len e) \<in> entry_foot m len e"
    "unat e + 47 \<in> entry_foot m len e" "unat (entry_body m len e) + 47 \<in> entry_foot m len e"
    using le by (simp_all add: entry_foot_def)
  then have "unat e \<in> live w (unat off) (unat len) (unat fin)"
    "unat (entry_body m len e) \<in> live w (unat off) (unat len) (unat fin)"
    "unat e + 47 \<in> live w (unat off) (unat len) (unat fin)"
    "unat (entry_body m len e) + 47 \<in> live w (unat off) (unat len) (unat fin)"
    using foot by auto
  then show "e \<noteq> fin" "entry_body m len e \<noteq> fin" "unat e + 48 \<le> unat len" "unat (entry_body m len e) + 48 \<le> unat len"
    using assms(3,4) by (auto simp: live_def split: if_splits)
qed

lemma log_invD:
  assumes "log_inv log es" "\<not> is_log_empty log"
  shows "es \<noteq> []" "0 < unat (log_end log)" "unat (log_end log) < unat (log_len log)" "unat (log_head log) \<le> unat (log_len log)"
    "chain (log_entries log) (log_len log) (wrapped log) (log_head log) es (log_end log)"
    "is_pos log es (log_commit log)" "is_pos log es (log_apply log)"
    "e \<in> set es \<Longrightarrow> hdr_eq (log_entries log) e (entry_body (log_entries log) (log_len log) e)"
    "log_tail log \<in> {log_len log, last es, entry_body (log_entries log) (log_len log) (last es)}"
  using assms by (simp_all add: log_inv_def)

lemma is_pos_scan:
  assumes "log_inv log es" "\<not> is_log_empty log" "is_pos log es off" "length es \<le> fuel"
  obtains i where "i \<le> length es" "log_scan fuel log off = Some (drop i es)"
proof -
  obtain i w where iw: "i \<le> length es" "unat off \<le> unat (log_len log)" "w \<longrightarrow> wrapped log"
      "w = wrapped log \<longrightarrow> unat (log_head log) \<le> unat off"
      "chain (log_entries log) (log_len log) w off (drop i es) (log_end log)"
    using assms(3) unfolding is_pos_def by blast
  moreover have "log_scan fuel log off = Some (drop i es)"
    using assms iw by (intro log_scan_chain [OF _ _ iw(5)]) (auto simp: log_inv_def wrapped_def)
  ultimately show ?thesis using that by blast
qed

lemma is_pos_head: "log_inv log es \<Longrightarrow> \<not> is_log_empty log \<Longrightarrow> is_pos log es (log_head log)"
  unfolding is_pos_def log_inv_def by (intro exI [of _ 0] conjI exI [of _ "wrapped log"]) auto

lemma log_scan_head: "log_inv log es \<Longrightarrow> length es \<le> fuel \<Longrightarrow> log_scan fuel log (log_head log) = Some es"
proof (cases "is_log_empty log")
  case True
  then show "log_inv log es \<Longrightarrow> ?thesis" by (simp add: log_scan.simps log_get_entry_def log_inv_def)
next
  case False
  then show "log_inv log es \<Longrightarrow> length es \<le> fuel \<Longrightarrow> ?thesis"
    by (intro log_scan_chain [of log "wrapped log"]) (auto simp: log_inv_def wrapped_def)
qed

lemma inv_entry:
  assumes "log_inv log es" "e \<in> set es"
  shows "log_get_entry log e = Some e"
    "log_get_entry log (entry_body (log_entries log) (log_len log) e) = Some (entry_body (log_entries log) (log_len log) e)"
    "entry_idx (log_entries log) (entry_body (log_entries log) (log_len log) e) = entry_idx (log_entries log) e"
proof -
  let ?m = "log_entries log" and ?len = "log_len log"
  have ne: "\<not> is_log_empty log" using assms by (auto simp: log_inv_def split: if_splits)
  have ch: "chain ?m ?len (wrapped log) (log_head log) es (log_end log)"
    using assms ne by (simp add: log_inv_def)
  note E = chain_entry [OF ch _ _ _ assms(2)]
  show "log_get_entry log e = Some e" "log_get_entry log (entry_body ?m ?len e) = Some (entry_body ?m ?len e)"
    using E assms ne get_entry_alt [of e log] get_entry_alt [of "entry_body ?m ?len e" log]
    by (auto simp: log_inv_def wrapped_def)
  show "entry_idx ?m (entry_body ?m ?len e) = entry_idx ?m e"
    using assms ne by (simp add: log_inv_def hdr_eq_def)
qed

lemma last_drop_neq: "i \<le> length es \<Longrightarrow> drop i es \<noteq> [] \<Longrightarrow> last (drop i es) = last es"
  by simp

lemma log_get_tail_inv:
  assumes "log_inv log es" "\<not> is_log_empty log" "length es \<le> fuel"
  shows "\<exists>t\<in>{last es, entry_body (log_entries log) (log_len log) (last es)}. log_get_tail fuel log = Some t"
proof (cases "log_tail log = log_len log")
  case True
  have es: "es \<noteq> []" "last es \<noteq> log_len log"
    using assms chain_entry(3) [of "log_entries log" "log_len log" "wrapped log" "log_head log" es "log_end log" "last es"]
    by (auto simp: log_inv_def wrapped_def)
  obtain i where i: "log_scan fuel log (log_commit log) = Some (drop i es)"
    using is_pos_scan [OF assms(1,2) log_invD(6) [OF assms(1,2)] assms(3)] by blast
  obtain j where j: "log_scan fuel log (log_apply log) = Some (drop j es)"
    using is_pos_scan [OF assms(1,2) log_invD(7) [OF assms(1,2)] assms(3)] by blast
  show ?thesis
    using True es assms(2) i j log_scan_head [OF assms(1,3)]
    by (auto simp: log_get_tail_def last_or_def)
next
  case False
  then show ?thesis using assms by (auto simp: log_get_tail_def log_inv_def)
qed

lemma get_tail_cached: "(if log_tail log = log_len log then log_get_tail fuel log else Some (log_tail log)) = log_get_tail fuel log"
  by (simp add: log_get_tail_def)

lemma log_get_entry_tail_upd [simp]: "log_get_entry (log\<lparr>log_tail := t\<rparr>) off = log_get_entry log off"
  by (simp add: log_get_entry_def is_log_empty_def log_offset_end_distance_def log_fit_entry_header_def)

lemma tail_and_index:
  assumes "log_inv log es" "length es \<le> fuel"
  shows "\<exists>t. log_get_tail fuel log = Some t \<and> log_new_idx log t = next_idx (log_entries log) es"
proof (cases "is_log_empty log")
  case True
  then show ?thesis using assms by (simp add: log_get_tail_def log_inv_def next_idx_def log_get_entry_def log_new_idx_def)
next
  case False
  then have "es \<noteq> []" using assms by (simp add: log_inv_def)
  then have "log_get_entry log t = Some t \<and> entry_idx (log_entries log) t + 1 = next_idx (log_entries log) es"
    if "t \<in> {last es, entry_body (log_entries log) (log_len log) (last es)}" for t
    using inv_entry [OF assms(1), of "last es"] that by (auto simp: next_idx_def)
  then show ?thesis using log_get_tail_inv [OF assms(1) False assms(2)] by (fastforce simp: log_new_idx_def)
qed

lemma data_len_ge: "48 \<le> data_len ty d"
  by (simp add: data_len_def)

lemma not_full: "log_inv log es \<Longrightarrow> \<not> is_log_full log"
proof (cases "is_log_empty log")
  case True
  then show "log_inv log es \<Longrightarrow> ?thesis" by (auto simp: log_inv_def is_log_full_def is_log_empty_def sizeof_entry_def)
next
  case False
  assume inv: "log_inv log es"
  then obtain e es' where "es = e # es'" using False by (cases es) (auto simp: log_inv_def)
  then have "\<not> wrapped log \<Longrightarrow> unat (log_head log) < unat (log_end log)"
    using log_invD(4,5) [OF inv False] chain_less by auto
  then show ?thesis by (cases "wrapped log") (auto simp: is_log_full_def wrapped_def)
qed

lemma elen_put_cmd_len: "entry_type m e = ty \<Longrightarrow> ty \<noteq> NOOP \<Longrightarrow> ty \<noteq> CONFIG \<Longrightarrow> ty \<noteq> HEAD \<Longrightarrow>
    log_entry_len (put_cmd_len m e (cmd_len (data_cmd d))) e = of_nat (data_len ty d)"
  by (simp add: log_entry_len_def put_cmd_len_def data_len_def entry_type_def entry_cmd_len_def mem_simps sizeof_entry_def)

lemma log_entry_len_put_data: "entry_type m e = ty \<Longrightarrow> log_entry_len (put_data m e ty d) e = of_nat (data_len ty d)"
  using elen_put_data [of m e ty d] by (metis of_nat_unat ucast_id)

lemma data_len_bound: "data_len ty d < 2 ^ 17"
  using unsigned_less [of "cmd_len (data_cmd d)", where ?'a=nat] by (simp add: data_len_def)

lemma ucast_data_len: "ucast (of_nat (data_len ty d) :: u32) = (of_nat (data_len ty d) :: u64)"
  using data_len_bound [of ty d] by (simp add: word_unat_eq_iff unat_ucast_up unat_of_nat_small)

lemma unat_data_len: "unat (of_nat (data_len ty d) :: u64) = data_len ty d" "unat (of_nat (data_len ty d) :: u32) = data_len ty d"
  using data_len_bound [of ty d] by (simp_all add: unat_of_nat_small)

lemma elen_puts [simp]:
  "entry_type m e = CONFIG \<Longrightarrow> log_entry_len (put_cid m e c) e = 48"
  "entry_type m e = HEAD \<Longrightarrow> log_entry_len (put_head m e h) e = 48"
  "entry_type m e = NOOP \<Longrightarrow> log_entry_len m e = 48"
  "log_entry_len (put_cmd (put_cmd_len m e l) e bs) e = log_entry_len (put_cmd_len m e l) e"
  by (simp_all add: log_entry_len_def put_defs entry_type_def entry_cmd_len_def mem_simps sizeof_entry_def)

lemmas type_defs = NOOP_def CSM_def CONFIG_def HEAD_def

lemma room_cases:
  assumes inv: "log_inv log es" and room: "log_room log n" and n: "48 \<le> n"
  obtains (empty) "is_log_empty log" "n < unat (log_len log)"
  | (fit) "\<not> is_log_empty log" "log_fit_entry_header log (log_end log)" "unat (log_end log) + n < unat (log_len log)"
      "wrapped log \<longrightarrow> unat (log_end log) + n < unat (log_head log)"
  | (turn) "\<not> is_log_empty log" "\<not> log_fit_entry_header log (log_end log)" "unat (log_len log) < unat (log_end log) + n"
      "n < unat (log_head log)" "\<not> wrapped log"
  | (stub) "\<not> is_log_empty log" "log_fit_entry_header log (log_end log)" "unat (log_len log) < unat (log_end log) + n"
      "n < unat (log_head log)" "\<not> wrapped log"
proof (cases "is_log_empty log")
  case True
  then show ?thesis using room empty by (simp add: log_room_def)
next
  case False
  have "unat (log_end log) \<le> unat (log_len log)" "unat (log_head log) \<le> unat (log_len log)"
    using log_invD [OF inv False] by auto
  then show ?thesis
    using False room n fit turn stub fit_header_alt [of "log_end log" log]
    by (auto simp: log_room_def wrapped_def split: if_splits)
qed

lemma fit_upd [simp]:
  "log_fit_entry_header (log\<lparr>log_tail := t\<rparr>) off = log_fit_entry_header log off"
  "log_fit_entry_header (log\<lparr>log_entries := m\<rparr>) off = log_fit_entry_header log off"
  "log_fit_entry_header (log\<lparr>log_end := x\<rparr>) off = log_fit_entry_header log off"
  "log_add_new_entry (log\<lparr>log_tail := t\<rparr>) = log_add_new_entry log"
  "log_add_new_entry (log\<lparr>log_entries := m\<rparr>) = log_add_new_entry log"
  by (simp_all add: log_fit_entry_header_def log_add_new_entry_def is_log_full_def is_log_empty_def)

lemma add_new_entry_offset: "log_inv log es \<Longrightarrow> log_add_new_entry log = Some (new_offset log)"
  using not_full by (auto simp: log_add_new_entry_def new_offset_def)

lemma log_new_idx_tail [simp]: "log_new_idx (log\<lparr>log_tail := t\<rparr>) off = log_new_idx log off"
  by (simp add: log_new_idx_def split: option.split)

lemma log_put_entry_eq:
  assumes inv: "log_inv log es" and room: "log_room log (data_len type d)"
  shows "log_put_entry (log\<lparr>log_tail := t\<rparr>) idx term req_id clt_id type d =
    (idx, log\<lparr>log_entries := append_mem log idx term req_id clt_id type d,
        log_tail := new_body log (data_len type d),
        log_end := new_body log (data_len type d) + of_nat (data_len type d)\<rparr>)"
proof -
  have len: "48 \<le> unat (log_len log)"
    using inv by (simp add: log_inv_def sizeof_entry_def)
  note simps = log_put_entry_def log_finish_entry_def add_new_entry_offset [OF inv] Let_def append_mem_def
    put_data_def elen_put_cmd_len ucast_data_len unat_data_len fit_entry_alt mem_simps
  consider "type = CONFIG" | "type = HEAD" | "type = NOOP" | "type \<noteq> CONFIG" "type \<noteq> HEAD" "type \<noteq> NOOP" by blast
  note types = this
  show ?thesis
    using inv room data_len_ge [of type d]
  proof (cases rule: room_cases)
    case empty
    have nf: "\<not> log_fit_entry_header log (log_end log)"
      using empty(1) by (simp add: fit_header_alt is_log_empty_def)
    show ?thesis using empty nf types
      by (cases) (simp_all add: simps new_offset_def new_body_def, simp_all add: data_len_def type_defs)
  next
    case fit
    then have "unat (log_end log) \<le> unat (log_len log)" by simp
    then show ?thesis using fit types
      by (cases) (simp_all add: simps new_offset_def new_body_def, simp_all add: data_len_def type_defs)
  next
    case turn
    have "unat (log_head log) \<le> unat (log_len log)" using log_invD(4) [OF inv turn(1)] .
    then show ?thesis using turn types
      by (cases) (simp_all add: simps new_offset_def new_body_def, simp_all add: data_len_def type_defs)
  next
    case stub
    have le: "unat (log_head log) \<le> unat (log_len log)" "unat (log_end log) < unat (log_len log)"
      "log_end log \<noteq> 0" "\<not> is_log_empty (log\<lparr>log_end := 0\<rparr>)" "log_fit_entry_header log 0"
      "log_head log \<noteq> 0"
      using log_invD(2,3,4) [OF inv stub(1)] len stub(4) by (auto simp: is_log_empty_def fit_header_alt)
    then have types': "type \<noteq> CONFIG" "type \<noteq> HEAD" "type \<noteq> NOOP"
      using stub by (auto simp: data_len_def fit_header_alt)
    have new: "log_add_new_entry (log\<lparr>log_tail := t, log_entries := m, log_end := 0\<rparr>) = Some 0" for t m
      using le by (simp add: log_add_new_entry_def is_log_full_def is_log_empty_def log_fit_entry_header_def)
    show ?thesis using stub le types'
      by (simp add: simps new_offset_def new_body_def new)
  qed
qed

lemma log_append_entry_eq:
  assumes "log_inv log es" "length es \<le> fuel" "log_room log (data_len type d)"
  shows "log_append_entry fuel log prev term req_id clt_id type d =
    Some (next_idx (log_entries log) es,
      log\<lparr>log_entries := append_mem log (next_idx (log_entries log) es) term req_id clt_id type d,
        log_tail := new_body log (data_len type d),
        log_end := new_body log (data_len type d) + of_nat (data_len type d)\<rparr>,
      type = HEAD \<and> prev)"
  using tail_and_index [OF assms(1,2)] log_put_entry_eq [OF assms(1,3)]
  by (auto simp: log_append_entry_def get_tail_cached Let_def)

text \<open>The header fields of two memories that agree on the bytes of a header are the same.\<close>

lemma header_cong:
  assumes "\<And>i. unat e \<le> i \<Longrightarrow> i < unat e + 48 \<Longrightarrow> m i = m' i"
  shows "entry_idx m e = entry_idx m' e" "entry_term m e = entry_term m' e" "entry_req_id m e = entry_req_id m' e"
    "entry_clt_id m e = entry_clt_id m' e" "entry_type m e = entry_type m' e" "entry_cmd_len m e = entry_cmd_len m' e"
    "log_entry_len m e = log_entry_len m' e" "entry_cid m e = entry_cid m' e" "entry_head m e = entry_head m' e"
  using assms elen_cong [OF assms]
  by (auto simp: entry_defs load8_def intro: load_cong(1) [of _ m m'] load_cong(2) [of _ m m'] load_cong(3) [of _ m m'])

lemma entry_view_cong:
  assumes "\<And>i. i \<in> entry_foot m len e \<Longrightarrow> m i = m' i" "hdr_eq m e (entry_body m len e)"
  shows "entry_view m' len e = entry_view m len e" "entry_body m' len e = entry_body m len e" "hdr_eq m' e (entry_body m len e)"
proof -
  let ?b = "entry_body m len e"
  have e: "i < unat e + 48 \<Longrightarrow> unat e \<le> i \<Longrightarrow> m i = m' i" for i
    using assms(1) [of i] by (simp add: entry_foot_def)
  have b: "i < unat ?b + elen m e \<Longrightarrow> unat ?b \<le> i \<Longrightarrow> m i = m' i" for i
    using assms(1) [of i] by (simp add: entry_foot_def)
  have b48: "i < unat ?b + 48 \<Longrightarrow> unat ?b \<le> i \<Longrightarrow> m i = m' i" for i
    using b [of i] elen_ge [of m e] by simp
  note he = header_cong [of e m m', OF e] and hb = header_cong [of ?b m m', OF b48]
  show body: "entry_body m' len e = ?b"
    using he(7) by (simp add: entry_body_def)
  show "hdr_eq m' e ?b"
    using assms(2) he hb by (simp add: hdr_eq_def)
  have "entry_cmd m' ?b = entry_cmd m ?b" if "entry_type m e \<noteq> NOOP" "entry_type m e \<noteq> CONFIG" "entry_type m e \<noteq> HEAD"
    using that b assms(2) hb(6) elen_unfold [of m e]
    by (auto simp: entry_cmd_def hdr_eq_def intro!: mem_read_cong)
  then show "entry_view m' len e = entry_view m len e"
    using he hb body by (simp add: entry_view_def entry_data_def)
qed

lemma append_mem_outside:
  assumes "i < unat (new_offset log) \<or> unat (new_offset log) + 48 \<le> i"
    "i < unat (new_body log (data_len ty d)) \<or> unat (new_body log (data_len ty d)) + data_len ty d \<le> i"
  shows "append_mem log idx t r c ty d i = log_entries log i"
  using assms data_len_ge [of ty d]
  by (auto simp: append_mem_def Let_def put_data_outside put_header_outside put_cmd_len_def store_outside)

lemma append_mem_new:
  fixes log :: dare_log_t and ty :: u8 and d :: log_data and idx t r :: u64 and c :: u16
  defines "e \<equiv> new_offset log" and "b \<equiv> new_body log (data_len ty d)"
  assumes dis: "e = b \<or> unat b + data_len ty d \<le> unat e \<and> ty \<noteq> CONFIG \<and> ty \<noteq> HEAD \<and> ty \<noteq> NOOP" and ok: "data_ok ty d"
  defines "m \<equiv> append_mem log idx t r c ty d"
  shows "entry_idx m e = idx" "entry_term m e = t" "entry_req_id m e = r" "entry_clt_id m e = c" "entry_type m e = ty"
    "elen m e = data_len ty d" "hdr_eq m e b" "entry_data m ty b = d"
proof -
  let ?m1 = "put_cmd_len (put_header (log_entries log) e idx t r c ty) e (cmd_len (data_cmd d))"
  let ?m0 = "if e = b then log_entries log else ?m1"
  have m: "m = put_data (put_header ?m0 b idx t r c ty) b ty d"
    by (simp add: m_def append_mem_def Let_def e_def b_def)
  have at_b: "entry_idx m b = idx" "entry_term m b = t" "entry_req_id m b = r" "entry_clt_id m b = c" "entry_type m b = ty"
    "elen m b = data_len ty d"
    by (simp_all add: m mem_simps elen_put_data)
  show "entry_data m ty b = d" using ok by (simp add: m entry_data_put)
  have "entry_idx m e = idx \<and> entry_term m e = t \<and> entry_req_id m e = r \<and> entry_clt_id m e = c \<and> entry_type m e = ty \<and>
    elen m e = data_len ty d \<and> hdr_eq m e b"
  proof (cases "e = b")
    case True
    then show ?thesis using at_b by (simp add: hdr_eq_def)
  next
    case False
    then have "m i = ?m1 i" if "unat e \<le> i" "i < unat e + 48" for i
      using dis that data_len_ge [of ty d] by (simp add: m put_data_outside put_header_outside)
    note h = header_cong [of e m ?m1, OF this]
    have m1: "entry_idx ?m1 e = idx" "entry_term ?m1 e = t" "entry_req_id ?m1 e = r" "entry_clt_id ?m1 e = c"
      "entry_type ?m1 e = ty" "entry_cmd_len ?m1 e = cmd_len (data_cmd d)"
      by (simp_all add: put_cmd_len_def put_header_def entry_defs mem_simps)
    have tys: "ty \<noteq> CONFIG \<and> ty \<noteq> HEAD \<and> ty \<noteq> NOOP" using dis False by simp
    have "entry_cmd_len m b = cmd_len (data_cmd d)"
      using tys by (simp add: m put_data_def put_cmd_def put_cmd_len_def entry_cmd_len_def mem_simps)
    then show ?thesis using h m1 at_b tys by (simp add: hdr_eq_def elen_unfold data_len_def)
  qed
  then show "entry_idx m e = idx" "entry_term m e = t" "entry_req_id m e = r" "entry_clt_id m e = c" "entry_type m e = ty"
    "elen m e = data_len ty d" "hdr_eq m e b" by auto
qed

text \<open>The chain from any position grows by the new entry.\<close>

lemma new_entry_disjoint:
  assumes inv: "log_inv log es" and room: "log_room log (data_len ty d)" and f: "f \<in> set es"
    and i: "i \<in> entry_foot (log_entries log) (log_len log) f"
  shows "append_mem log idx t r c ty d i = log_entries log i"
proof -
  let ?n = "data_len ty d"
  have ne: "\<not> is_log_empty log" using inv f by (auto simp: log_inv_def split: if_splits)
  note D = log_invD [OF inv ne]
  have "i \<in> live (wrapped log) (unat (log_head log)) (unat (log_len log)) (unat (log_end log))"
    using chain_foot [OF D(5) D(4) f] i by auto
  then have l: "if wrapped log then unat (log_head log) \<le> i \<or> i < unat (log_end log)
      else unat (log_head log) \<le> i \<and> i < unat (log_end log)"
    by (auto simp: live_def split: if_splits)
  show ?thesis
    using inv room data_len_ge [of ty d]
  proof (cases rule: room_cases)
    case empty then show ?thesis using ne by simp
  next
    case fit
    then show ?thesis using l D(3) data_len_ge [of ty d]
      by (intro append_mem_outside) (auto simp: new_offset_def new_body_def wrapped_def split: if_splits)
  next
    case turn
    then show ?thesis using l D(3) data_len_ge [of ty d]
      by (intro append_mem_outside) (auto simp: new_offset_def new_body_def wrapped_def split: if_splits)
  next
    case stub
    then show ?thesis using l D(3) data_len_ge [of ty d]
      by (intro append_mem_outside) (auto simp: new_offset_def new_body_def wrapped_def split: if_splits)
  qed
qed

lemma new_offset_body:
  assumes inv: "log_inv log es" and room: "log_room log (data_len ty d)"
  shows "new_offset log = new_body log (data_len ty d) \<or>
    unat (new_body log (data_len ty d)) + data_len ty d \<le> unat (new_offset log) \<and> ty \<noteq> CONFIG \<and> ty \<noteq> HEAD \<and> ty \<noteq> NOOP"
  using inv room data_len_ge [of ty d]
proof (cases rule: room_cases)
  case stub
  have "unat (log_end log) < unat (log_len log)" using log_invD(3) [OF inv stub(1)] .
  then show ?thesis using stub
    by (auto simp: new_offset_def new_body_def wrapped_def fit_header_alt data_len_def)
qed (auto simp: new_offset_def new_body_def)

lemma append_chain:
  fixes idx t r :: u64 and c :: u16
  assumes inv: "log_inv log es" and room: "log_room log (data_len ty d)" and ok: "data_ok ty d"
    and ne: "\<not> is_log_empty log" and ch: "chain (log_entries log) (log_len log) w off ds (log_end log)"
    and ds: "set ds \<subseteq> set es" and w: "w \<longrightarrow> wrapped log"
  defines "b \<equiv> new_body log (data_len ty d)" and "m \<equiv> append_mem log idx t r c ty d"
  shows "chain m (log_len log) (if b = log_end log then w else True) off (ds @ [new_offset log]) (b + of_nat (data_len ty d))"
proof -
  have ch': "chain m (log_len log) w off ds (log_end log)"
    using ch
  proof (rule chain_cong)
    fix e i assume "e \<in> set ds" "unat e \<le> i" "i < unat e + 48"
    then show "log_entries log i = m i"
      using new_entry_disjoint [OF inv room, of e i] ds by (auto simp: m_def entry_foot_def)
  qed
  have len: "elen m (new_offset log) = data_len ty d"
    unfolding m_def using new_offset_body [OF inv room] ok by (rule append_mem_new)
  then have ulen: "ucast (log_entry_len m (new_offset log)) = (of_nat (data_len ty d) :: u64)"
    by (metis of_nat_unat)
  note D = log_invD(2,3,4) [OF inv ne]
  show ?thesis
    using inv room data_len_ge [of ty d]
  proof (cases rule: room_cases)
    case empty then show ?thesis using ne by simp
  next
    case fit
    then have [simp]: "new_offset log = log_end log" "b = log_end log"
      by (simp_all add: new_offset_def new_body_def b_def)
    show ?thesis
      using chain_snoc_fit [OF ch'] fit len ulen data_len_ge [of ty d] by simp
  next
    case turn
    have e: "new_offset log = 0" "b = 0" "log_end log \<noteq> 0"
      using turn D by (auto simp: new_offset_def new_body_def b_def)
    show ?thesis
      using chain_snoc_wrap [of m "log_len log" off ds "log_end log" 0] ch' turn w len ulen e D
      by (simp add: fit_header_alt)
  next
    case stub
    have e: "new_offset log = log_end log" "b = 0" "log_end log \<noteq> 0"
      using stub D by (auto simp: new_offset_def new_body_def b_def)
    show ?thesis
      using chain_snoc_wrap [of m "log_len log" off ds "log_end log" "log_end log"] ch' stub w len ulen e D
      by (simp add: fit_header_alt)
  qed
qed

definition appended :: "dare_log_t \<Rightarrow> u64 \<Rightarrow> u64 \<Rightarrow> u64 \<Rightarrow> u16 \<Rightarrow> u8 \<Rightarrow> log_data \<Rightarrow> dare_log_t" where
  "appended log idx t r c ty d = log\<lparr>log_entries := append_mem log idx t r c ty d,
    log_tail := new_body log (data_len ty d), log_end := new_body log (data_len ty d) + of_nat (data_len ty d)\<rparr>"

lemma appended_sel [simp]:
  "log_entries (appended log idx t r c ty d) = append_mem log idx t r c ty d"
  "log_tail (appended log idx t r c ty d) = new_body log (data_len ty d)"
  "log_end (appended log idx t r c ty d) = new_body log (data_len ty d) + of_nat (data_len ty d)"
  "log_len (appended log idx t r c ty d) = log_len log" "log_head (appended log idx t r c ty d) = log_head log"
  "log_commit (appended log idx t r c ty d) = log_commit log" "log_apply (appended log idx t r c ty d) = log_apply log"
  by (simp_all add: appended_def)

lemma appended_end:
  assumes inv: "log_inv log es" and room: "log_room log (data_len ty d)"
  shows "unat (new_body log (data_len ty d) + of_nat (data_len ty d)) = unat (new_body log (data_len ty d)) + data_len ty d"
    "unat (new_body log (data_len ty d)) + data_len ty d < unat (log_len log)"
    "\<not> is_log_empty log \<Longrightarrow> wrapped (appended log idx t r c ty d) = (if new_body log (data_len ty d) = log_end log then wrapped log else True)"
proof -
  let ?b = "new_body log (data_len ty d)"
  show less: "unat ?b + data_len ty d < unat (log_len log)"
    using inv room data_len_ge [of ty d]
    by (cases rule: room_cases) (use log_invD(4) [OF inv] in \<open>auto simp: new_body_def\<close>)
  have L: "unat (log_len log) < 2 ^ 63" using inv by (simp add: log_inv_def)
  show e: "unat (?b + of_nat (data_len ty d)) = unat ?b + data_len ty d"
    using less L by (subst unat_plus_fits) (simp_all add: unat_data_len)
  show "wrapped (appended log idx t r c ty d) = (if ?b = log_end log then wrapped log else True)" if ne: "\<not> is_log_empty log"
    using inv room data_len_ge [of ty d]
    by (cases rule: room_cases) (use ne e log_invD(2) [OF inv ne] in \<open>auto simp: wrapped_def new_body_def\<close>)
qed

lemma is_pos_append:
  assumes inv: "log_inv log es" and room: "log_room log (data_len ty d)" and ok: "data_ok ty d"
    and ne: "\<not> is_log_empty log" and pos: "is_pos log es off"
  shows "is_pos (appended log idx t r c ty d) (es @ [new_offset log]) off"
proof -
  let ?b = "new_body log (data_len ty d)"
  obtain i w where iw: "i \<le> length es" "unat off \<le> unat (log_len log)" "w \<longrightarrow> wrapped log"
      "w = wrapped log \<longrightarrow> unat (log_head log) \<le> unat off"
      "chain (log_entries log) (log_len log) w off (drop i es) (log_end log)"
    using pos unfolding is_pos_def by blast
  have "?b \<noteq> log_end log \<Longrightarrow> \<not> wrapped log"
    using inv room data_len_ge [of ty d] by (cases rule: room_cases) (use ne in \<open>auto simp: new_body_def\<close>)
  then show ?thesis
    unfolding is_pos_def
    using iw append_chain [OF inv room ok ne iw(5) set_drop_subset iw(3), of idx t r c] appended_end(3) [OF inv room ne, of idx t r c]
    by (intro exI [of _ i] conjI exI [of _ "if ?b = log_end log then w else True"]) auto
qed

lemma appended_new_entry:
  assumes inv: "log_inv log es" and room: "log_room log (data_len ty d)" and ok: "data_ok ty d"
  shows "entry_body (append_mem log idx t r c ty d) (log_len log) (new_offset log) = new_body log (data_len ty d)"
    "entry_view (append_mem log idx t r c ty d) (log_len log) (new_offset log) =
      \<lparr>v_idx = idx, v_term = t, v_req_id = r, v_clt_id = c, v_type = ty, v_data = d\<rparr>"
    "hdr_eq (append_mem log idx t r c ty d) (new_offset log) (new_body log (data_len ty d))"
proof -
  let ?m = "append_mem log idx t r c ty d" and ?b = "new_body log (data_len ty d)"
  note N = append_mem_new [OF new_offset_body [OF inv room] ok, of idx t r c]
  show "hdr_eq ?m (new_offset log) ?b" using N by simp
  show body: "entry_body ?m (log_len log) (new_offset log) = ?b"
    using inv room data_len_ge [of ty d]
  proof (cases rule: room_cases)
    case stub
    then show ?thesis using N(6) log_invD(3) [OF inv stub(1)]
      by (auto simp: entry_body_alt new_offset_def new_body_def)
  qed (use N(6) log_invD(4) [OF inv] in \<open>auto simp: entry_body_alt new_offset_def new_body_def\<close>)
  show "entry_view ?m (log_len log) (new_offset log) =
      \<lparr>v_idx = idx, v_term = t, v_req_id = r, v_clt_id = c, v_type = ty, v_data = d\<rparr>"
    using N body by (simp add: entry_view_def)
qed

lemma log_inv_appended:
  assumes inv: "log_inv log es" and room: "log_room log (data_len ty d)" and ok: "data_ok ty d"
  shows "log_inv (appended log idx t r c ty d) (es @ [new_offset log])"
proof -
  let ?l = "appended log idx t r c ty d" and ?b = "new_body log (data_len ty d)" and ?e = "new_offset log"
  let ?m = "append_mem log idx t r c ty d"
  have len: "48 \<le> unat (log_len log)" "unat (log_len log) < 2 ^ 63"
    using inv by (simp_all add: log_inv_def sizeof_entry_def)
  note E = appended_end [OF inv room]
  have ne': "\<not> is_log_empty ?l"
    using E(1,2) by (auto simp: is_log_empty_def)
  have rest: "chain ?m (log_len log) (wrapped ?l) (log_head log) (es @ [?e]) (log_end ?l) \<and> is_pos ?l (es @ [?e]) (log_commit log) \<and>
      is_pos ?l (es @ [?e]) (log_apply log) \<and> unat (log_head log) \<le> unat (log_len log)"
  proof (cases "is_log_empty log")
    case True
    then have z: "es = []" "log_head log = 0" "log_apply log = 0" "log_commit log = 0" "?e = 0" "?b = 0"
      using inv by (auto simp: log_inv_def new_offset_def new_body_def)
    have el: "elen ?m 0 = data_len ty d"
      using append_mem_new(6) [OF new_offset_body [OF inv room] ok, of idx t r c] z by simp
    then have "ucast (log_entry_len ?m 0) = (of_nat (data_len ty d) :: u64)" by (metis of_nat_unat)
    then have "chain ?m (log_len log) False 0 [0] (of_nat (data_len ty d))"
      using el len E(2) z by simp
    moreover have "\<not> wrapped ?l" using z by (simp add: wrapped_def)
    ultimately have "is_pos ?l [0] 0"
      using z unfolding is_pos_def by (intro exI [of _ 0] conjI exI [of _ False]) simp_all
    with \<open>chain ?m (log_len log) False 0 [0] (of_nat (data_len ty d))\<close> \<open>\<not> wrapped ?l\<close> show ?thesis
      using z by simp
  next
    case False
    note D = log_invD [OF inv False]
    show ?thesis
      using append_chain [OF inv room ok False D(5), of idx t r c] E(3) [OF False, of idx t r c] D(4)
        is_pos_append [OF inv room ok False D(6), of idx t r c] is_pos_append [OF inv room ok False D(7), of idx t r c]
      by (simp split: if_splits)
  qed
  have hdr: "hdr_eq ?m e (entry_body ?m (log_len log) e)" if "e \<in> set (es @ [?e])" for e
  proof (cases "e \<in> set es")
    case True
    then have "hdr_eq (log_entries log) e (entry_body (log_entries log) (log_len log) e)"
      using inv log_invD(8) by (auto simp: log_inv_def split: if_splits)
    then show ?thesis
      using entry_view_cong [of "log_entries log" "log_len log" e ?m] new_entry_disjoint [OF inv room True, of _ idx t r c] by simp
  next
    case False
    then show ?thesis using that appended_new_entry [OF inv room ok, of idx t r c] by simp
  qed
  show ?thesis
    unfolding log_inv_def
    using ne' rest len hdr E(1,2) data_len_ge [of ty d] appended_new_entry(1) [OF inv room ok, of idx t r c]
    by (simp add: sizeof_entry_def)
qed

text \<open>The abstract log of an appended log.\<close>

lemma log_view_inv: "log_inv log es \<Longrightarrow> length es \<le> fuel \<Longrightarrow>
    log_view fuel log = Some (map (entry_view (log_entries log) (log_len log)) es)"
  by (simp add: log_view_def log_scan_head)

lemma log_view_appended:
  assumes inv: "log_inv log es" and room: "log_room log (data_len ty d)" and ok: "data_ok ty d"
  shows "map (entry_view (append_mem log idx t r c ty d) (log_len log)) (es @ [new_offset log]) =
    map (entry_view (log_entries log) (log_len log)) es @
      [\<lparr>v_idx = idx, v_term = t, v_req_id = r, v_clt_id = c, v_type = ty, v_data = d\<rparr>]"
proof -
  have "entry_view (append_mem log idx t r c ty d) (log_len log) e = entry_view (log_entries log) (log_len log) e" if "e \<in> set es" for e
  proof (rule entry_view_cong(1))
    show "hdr_eq (log_entries log) e (entry_body (log_entries log) (log_len log) e)"
      using inv that log_invD(8) by (auto simp: log_inv_def split: if_splits)
  qed (use new_entry_disjoint [OF inv room that] in auto)
  then show ?thesis using appended_new_entry(2) [OF inv room ok] by simp
qed

lemma log_inv_new: "log_inv log_new []"
  by (simp add: log_inv_def log_new_def is_log_empty_def sizeof_entry_def LOG_SIZE_def)

text \<open>Property C7: on a well-formed log with room for the entry, \<open>log_append_entry\<close> succeeds, returns
  the index of the last entry plus one (1 on an empty log), keeps the log well formed, and the list
  of entries a scan from the head reads grows by exactly the new entry: every older entry, its data
  included, is untouched, also when the new one goes around the end of the circular buffer.\<close>

theorem log_append_entry_refines:
  assumes "log_inv log es" "length es \<le> fuel" "log_room log (data_len type d)" "data_ok type d"
  shows "\<exists>log'. log_append_entry fuel log prev term req_id clt_id type d =
      Some (next_idx (log_entries log) es, log', type = HEAD \<and> prev) \<and>
    log_inv log' (es @ [new_offset log]) \<and>
    log_view (Suc fuel) log' = map_option (\<lambda>vs. vs @
      [\<lparr>v_idx = next_idx (log_entries log) es, v_term = term, v_req_id = req_id, v_clt_id = clt_id,
        v_type = type, v_data = d\<rparr>]) (log_view fuel log)"
proof -
  let ?l = "appended log (next_idx (log_entries log) es) term req_id clt_id type d"
  have inv: "log_inv ?l (es @ [new_offset log])"
    using log_inv_appended assms by blast
  have "log_view (Suc fuel) ?l = Some (map (entry_view (log_entries ?l) (log_len ?l)) (es @ [new_offset log]))"
    using log_view_inv [OF inv] assms(2) by simp
  moreover have "log_view fuel log = Some (map (entry_view (log_entries log) (log_len log)) es)"
    using log_view_inv assms by blast
  ultimately show ?thesis
    using inv log_append_entry_eq [OF assms(1-3)] log_view_appended [OF assms(1,3,4)]
    by (intro exI [of _ ?l]) (simp add: appended_def)
qed

theorem log_append_entry_refines_witness:
  "\<exists>log'. log_append_entry 0 log_new True 7 5 9 CSM (DCmd \<lparr>cmd_len = 2, cmd_cmd = [65, 66]\<rparr>) =
      Some (1, log', False) \<and> log_inv log' [0] \<and>
    log_view (Suc 0) log' = Some [\<lparr>v_idx = 1, v_term = 7, v_req_id = 5, v_clt_id = 9, v_type = CSM,
      v_data = DCmd \<lparr>cmd_len = 2, cmd_cmd = [65, 66]\<rparr>\<rparr>]"
proof -
  have "log_room log_new (data_len CSM (DCmd \<lparr>cmd_len = 2, cmd_cmd = [65, 66]\<rparr>))"
    "data_ok CSM (DCmd \<lparr>cmd_len = 2, cmd_cmd = [65, 66]\<rparr>)"
    by (simp_all add: log_room_def log_new_def is_log_empty_def data_len_def data_cmd_def LOG_SIZE_def data_ok_def type_defs)
  from log_append_entry_refines [OF log_inv_new _ this, of 0 True 7 5 9]
  show ?thesis
    using log_view_inv [OF log_inv_new, of 0]
    by (simp add: next_idx_def new_offset_def is_log_empty_def log_new_def type_defs)
qed

end
