(* ===== verification/Kvs.thy ===== *)
theory Kvs
  imports Dare_Prelude "HOL-Library.Monad_Syntax"
begin

text \<open>
  The key-value store (dare_kvs_sm.c): a hash table of singly linked lists, and the command a state
  machine entry carries.  A key is the array of \<open>KEY_SIZE\<close> bytes; \<open>strcmp\<close> and \<open>hash\<close> see its bytes
  up to the terminating NUL (\<open>cstr\<close>).  A result \<open>None\<close> means undefined behaviour: a key without a
  NUL, a command shorter than its length field says, or a copy through a NULL data pointer.
  Whether malloc and realloc succeed is an argument of the operations that call them.
\<close>

section \<open>Data\<close>

definition DEFAULT_KVS_SIZE :: u32 where "DEFAULT_KVS_SIZE = 1024"

definition KEY_SIZE :: nat where "KEY_SIZE = 64"

definition KVS_PUT :: u8 where "KVS_PUT = 1"

definition KVS_GET :: u8 where "KVS_GET = 2"

definition KVS_RM :: u8 where "KVS_RM = 3"

definition sizeof_snapshot_entry :: u32 where "sizeof_snapshot_entry = 66"

record kvs_blob_t =
  blob_len :: u16
  blob_data :: "u8 list option"

record kvs_entry_t =
  kvs_key :: "u8 list"
  kvs_blob :: kvs_blob_t

text \<open>The state machine: the table (one list per slot) and the global \<open>kvs_size\<close>.\<close>

record kvs_sm_t =
  kvs_table_size :: u32
  kvs_table :: "kvs_entry_t list list"
  kvs_size :: u32

definition create_kvs_sm :: "u32 \<Rightarrow> kvs_sm_t" where
  "create_kvs_sm n =
    (let n = (if n = 0 then DEFAULT_KVS_SIZE else n)
     in \<lparr>kvs_table_size = n, kvs_table = replicate (unat n) [], kvs_size = 0\<rparr>)"

section \<open>Keys\<close>

definition cstr :: "u8 list \<Rightarrow> u8 list" where
  "cstr k = takeWhile (\<lambda>b. b \<noteq> 0) k"

text \<open>The characters are signed.\<close>

definition hash :: "kvs_sm_t \<Rightarrow> u8 list \<Rightarrow> u32" where
  "hash t k = fold (\<lambda>b h. scast b + push_bit 5 h - h) (cstr k) 0 mod kvs_table_size t"

definition same_key :: "u8 list \<Rightarrow> kvs_entry_t \<Rightarrow> bool" where
  "same_key k e = (cstr k = cstr (kvs_key e))"

section \<open>Operations on the table\<close>

definition bucket :: "kvs_sm_t \<Rightarrow> u8 list \<Rightarrow> kvs_entry_t list" where
  "bucket t k = kvs_table t ! unat (hash t k)"

definition lookup_key :: "kvs_sm_t \<Rightarrow> u8 list \<Rightarrow> kvs_entry_t option" where
  "lookup_key t k = find (same_key k) (bucket t k)"

text \<open>Unlinking the first entry with the key from a list: the list that is left and the blob that goes.\<close>

fun unlink :: "u8 list \<Rightarrow> kvs_entry_t list \<Rightarrow> kvs_entry_t list \<times> kvs_entry_t option" where
  "unlink k [] = ([], None)"
| "unlink k (e # es) = (if same_key k e then (es, Some e) else (let (es', r) = unlink k es in (e # es', r)))"

definition set_bucket :: "u8 list \<Rightarrow> kvs_entry_t list \<Rightarrow> kvs_sm_t \<Rightarrow> kvs_sm_t" where
  "set_bucket k es t = t\<lparr>kvs_table := (kvs_table t)[unat (hash t k) := es]\<rparr>"

definition remove_key :: "u8 list \<Rightarrow> kvs_sm_t \<Rightarrow> kvs_sm_t" where
  "remove_key k t =
    (case unlink k (bucket t k) of
       (_, None) \<Rightarrow> t
     | (es, Some e) \<Rightarrow> (set_bucket k es t)
         \<lparr>kvs_size := kvs_size t - sizeof_snapshot_entry - ucast (blob_len (kvs_blob e))\<rparr>)"

fun update_first :: "u8 list \<Rightarrow> kvs_blob_t \<Rightarrow> kvs_entry_t list \<Rightarrow> kvs_entry_t list" where
  "update_first k b [] = []"
| "update_first k b (e # es) = (if same_key k e then e\<lparr>kvs_blob := b\<rparr> # es else e # update_first k b es)"

text \<open>\<open>realloc(p, 0)\<close> frees the block and returns NULL, as does a failed one.\<close>

definition realloc_ok :: "bool \<Rightarrow> u16 \<Rightarrow> bool" where
  "realloc_ok alloc n = (alloc \<and> n \<noteq> 0)"

text \<open>\<open>write_key\<close>: the return code and the new state.  \<open>list_ok\<close> and \<open>data_ok\<close> say whether the
  allocations of a new list element and of the value succeed.  Overwriting with another length
  resizes the value; a failed resize leaves the new length and a NULL pointer.\<close>

definition write_key :: "bool \<Rightarrow> bool \<Rightarrow> u8 list \<Rightarrow> u8 list \<Rightarrow> kvs_sm_t \<Rightarrow> (int \<times> kvs_sm_t) option" where
  "write_key list_ok data_ok k v t =
    (let n = of_nat (length v) in
     case lookup_key t k of
       Some e \<Rightarrow>
        (let old = kvs_blob e in
         if blob_len old \<noteq> n then
           (let t = t\<lparr>kvs_size := kvs_size t + (ucast n - ucast (blob_len old))\<rparr> in
            if realloc_ok data_ok n
            then Some (0, set_bucket k (update_first k \<lparr>blob_len = n, blob_data = Some v\<rparr> (bucket t k)) t)
            else Some (1, set_bucket k (update_first k \<lparr>blob_len = n, blob_data = None\<rparr> (bucket t k)) t))
         else if blob_data old = None \<and> n \<noteq> 0 then None
         else Some (0, set_bucket k (update_first k (old\<lparr>blob_data := if n = 0 then blob_data old else Some v\<rparr>) (bucket t k)) t))
     | None \<Rightarrow>
         if \<not> list_ok then Some (1, t)
         else
           let t = t\<lparr>kvs_size := kvs_size t + (sizeof_snapshot_entry + ucast n)\<rparr> in
           if \<not> data_ok then Some (1, t)
           else Some (0, set_bucket k (\<lparr>kvs_key = take KEY_SIZE k, kvs_blob = \<lparr>blob_len = n, blob_data = Some v\<rparr>\<rparr> # bucket t k) t))"

section \<open>Commands\<close>

text \<open>The layout of \<open>kvs_cmd_t\<close>: the type at 0, the key at 1, the length (little endian) at 66, the
  data at 68.\<close>

definition kvs_cmd_key :: "u8 list \<Rightarrow> u8 list option" where
  "kvs_cmd_key c = (let k = take KEY_SIZE (drop 1 c) in if length k = KEY_SIZE \<and> 0 \<in> set k then Some k else None)"

definition kvs_cmd_len :: "u8 list \<Rightarrow> nat" where
  "kvs_cmd_len c = unat (c ! 66) + 256 * unat (c ! 67)"

definition kvs_cmd_value :: "u8 list \<Rightarrow> u8 list option" where
  "kvs_cmd_value c = (if 68 \<le> length c \<and> 68 + kvs_cmd_len c \<le> length c then Some (take (kvs_cmd_len c) (drop 68 c)) else None)"

text \<open>\<open>apply_kvs_cmd\<close>: the return code, the answer to a GET, and the new state.\<close>

definition apply_kvs_cmd :: "bool \<Rightarrow> bool \<Rightarrow> u8 list \<Rightarrow> kvs_sm_t \<Rightarrow> (int \<times> u8 list option \<times> kvs_sm_t) option" where
  "apply_kvs_cmd list_ok data_ok c t =
    (if c = [] then None
     else if hd c = KVS_PUT then
       do {
         k \<leftarrow> kvs_cmd_key c;
         v \<leftarrow> kvs_cmd_value c;
         (rc, t) \<leftarrow> write_key list_ok data_ok k v t;
         Some (if rc \<noteq> 0 then 1 else 0, None, t)
       }
     else if hd c = KVS_GET then
       do {
         k \<leftarrow> kvs_cmd_key c;
         (case lookup_key t k of
            None \<Rightarrow> Some (0, Some [], t)
          | Some e \<Rightarrow> (case blob_data (kvs_blob e) of
              Some d \<Rightarrow> Some (0, Some d, t)
            | None \<Rightarrow> if blob_len (kvs_blob e) = 0 then Some (0, Some [], t) else None))
       }
     else if hd c = KVS_RM then do { k \<leftarrow> kvs_cmd_key c; Some (0, None, remove_key k t) }
     else Some (1, None, t))"

text \<open>The commands a client sends, as bytes.\<close>

datatype kvs_cmd = PutCmd "u8 list" "u8 list" | GetCmd "u8 list" | RmCmd "u8 list"

fun kvs_encode :: "kvs_cmd \<Rightarrow> u8 list" where
  "kvs_encode (PutCmd k v) = KVS_PUT # k @ 0 # le_enc 2 (length v) @ v"
| "kvs_encode (GetCmd k) = KVS_GET # k @ 0 # le_enc 2 0"
| "kvs_encode (RmCmd k) = KVS_RM # k @ 0 # le_enc 2 0"

text \<open>Applying commands one after the other: the answers; an error ends the run.\<close>

fun kvs_run :: "u8 list list \<Rightarrow> kvs_sm_t \<Rightarrow> (u8 list option list \<times> kvs_sm_t) option" where
  "kvs_run [] t = Some ([], t)"
| "kvs_run (c # cs) t =
    do {
      (rc, a, t) \<leftarrow> apply_kvs_cmd True True c t;
      if rc \<noteq> 0 then None else do { (as, t) \<leftarrow> kvs_run cs t; Some (a # as, t) }
    }"

text \<open>What the commands mean for a map.\<close>

fun abs_cmd :: "kvs_cmd \<Rightarrow> (u8 list \<Rightarrow> u8 list option) \<Rightarrow> u8 list option \<times> (u8 list \<Rightarrow> u8 list option)" where
  "abs_cmd (PutCmd k v) m = (None, m(cstr k \<mapsto> v))"
| "abs_cmd (GetCmd k) m = (Some (case m (cstr k) of None \<Rightarrow> [] | Some v \<Rightarrow> v), m)"
| "abs_cmd (RmCmd k) m = (None, m(cstr k := None))"

fun abs_cmds :: "kvs_cmd list \<Rightarrow> (u8 list \<Rightarrow> u8 list option) \<Rightarrow> u8 list option list \<times> (u8 list \<Rightarrow> u8 list option)" where
  "abs_cmds [] m = ([], m)"
| "abs_cmds (c # cs) m = (let (a, m) = abs_cmd c m; (as, m) = abs_cmds cs m in (a # as, m))"

section \<open>The table as a map\<close>

text \<open>An entry is in the slot of its key, keys are different, every value has the length its blob
  says, and \<open>kvs_size\<close> is the size of a snapshot.\<close>

definition entry_ok :: "kvs_entry_t \<Rightarrow> bool" where
  "entry_ok e = (\<exists>d. blob_data (kvs_blob e) = Some d \<and> length d = unat (blob_len (kvs_blob e)))"

definition bucket_ok :: "kvs_sm_t \<Rightarrow> nat \<Rightarrow> kvs_entry_t list \<Rightarrow> bool" where
  "bucket_ok t i es = (distinct (map (cstr \<circ> kvs_key) es) \<and>
     (\<forall>e \<in> set es. entry_ok e \<and> unat (hash t (kvs_key e)) = i))"

definition entry_size :: "kvs_entry_t \<Rightarrow> u32" where
  "entry_size e = sizeof_snapshot_entry + ucast (blob_len (kvs_blob e))"

definition table_bytes :: "kvs_entry_t list list \<Rightarrow> u32" where
  "table_bytes tb = sum_list (map (\<lambda>es. sum_list (map entry_size es)) tb)"

definition kvs_inv :: "kvs_sm_t \<Rightarrow> bool" where
  "kvs_inv t = (kvs_table_size t \<noteq> 0 \<and> length (kvs_table t) = unat (kvs_table_size t) \<and>
     (\<forall>i < length (kvs_table t). bucket_ok t i (kvs_table t ! i)) \<and> kvs_size t = table_bytes (kvs_table t))"

text \<open>The map from keys (as C strings) to values.\<close>

definition kvs_view :: "kvs_sm_t \<Rightarrow> u8 list \<Rightarrow> u8 list option" where
  "kvs_view t s = Option.bind (find (\<lambda>e. s = cstr (kvs_key e)) (bucket t s)) (\<lambda>e. blob_data (kvs_blob e))"

definition kvs_get :: "kvs_sm_t \<Rightarrow> u8 list \<Rightarrow> u8 list option" where
  "kvs_get t k = Option.bind (lookup_key t k) (\<lambda>e. blob_data (kvs_blob e))"

definition kvs_put :: "u8 list \<Rightarrow> u8 list \<Rightarrow> kvs_sm_t \<Rightarrow> kvs_sm_t" where
  "kvs_put k v t = snd (the (write_key True True k v t))"

text \<open>A value that fits the 16-bit length and is not empty (overwriting a value with an empty one is
  where \<open>realloc\<close> returns NULL), and a key that is a C string.\<close>

definition kvs_ok :: "u8 list \<Rightarrow> u8 list \<Rightarrow> bool" where
  "kvs_ok k v = (length k = KEY_SIZE \<and> 0 \<in> set k \<and> v \<noteq> [] \<and> length v < 2 ^ 16)"

fun cmd_ok :: "kvs_cmd \<Rightarrow> bool" where
  "cmd_ok (PutCmd k v) = kvs_ok k v"
| "cmd_ok (GetCmd k) = (length k = KEY_SIZE \<and> 0 \<in> set k)"
| "cmd_ok (RmCmd k) = (length k = KEY_SIZE \<and> 0 \<in> set k)"

lemma cstr_cstr [simp]: "cstr (cstr k) = cstr k"
  by (simp add: cstr_def)

lemma hash_cstr [simp]: "hash t (cstr k) = hash t k"
  by (simp add: hash_def)

lemma hash_bound: "kvs_table_size t \<noteq> 0 \<Longrightarrow> unat (hash t k) < unat (kvs_table_size t)"
  by (simp add: hash_def word_mod_less_divisor word_gt_0 flip: word_less_nat_alt)

lemma hash_upd [simp]: "hash (t\<lparr>kvs_table := tb\<rparr>) = hash t" "hash (t\<lparr>kvs_size := n\<rparr>) = hash t"
  by (simp_all add: hash_def fun_eq_iff)

lemma bucket_ok_upd [simp]: "bucket_ok (t\<lparr>kvs_table := tb\<rparr>) = bucket_ok t" "bucket_ok (t\<lparr>kvs_size := n\<rparr>) = bucket_ok t"
  by (simp_all add: bucket_ok_def fun_eq_iff)

lemma kvs_inv_bucket: "kvs_inv t \<Longrightarrow> bucket_ok t (unat (hash t k)) (bucket t k)"
  by (simp add: kvs_inv_def bucket_def hash_bound)

lemma sum_list_upd: "i < length xs \<Longrightarrow> sum_list (xs[i := y]) = sum_list xs - xs ! i + (y :: 'a::ab_group_add)"
  by (induction xs arbitrary: i) (auto split: nat.splits)

lemma table_bytes_update: "i < length tb \<Longrightarrow>
    table_bytes (tb[i := es]) = table_bytes tb - sum_list (map entry_size (tb ! i)) + sum_list (map entry_size es)"
  by (simp add: table_bytes_def map_update sum_list_upd)

lemma set_bucket_inv: "\<lbrakk>kvs_inv t; bucket_ok t (unat (hash t k)) es;
    n = kvs_size t - sum_list (map entry_size (bucket t k)) + sum_list (map entry_size es)\<rbrakk> \<Longrightarrow>
    kvs_inv ((set_bucket k es t)\<lparr>kvs_size := n\<rparr>)"
  using hash_bound [of t k]
  by (auto simp: kvs_inv_def set_bucket_def nth_list_update table_bytes_update bucket_def)

lemma bucket_set_bucket: "kvs_inv t \<Longrightarrow>
    bucket (set_bucket k es t) s = (if hash t s = hash t k then es else bucket t s)"
  using hash_bound [of t k] hash_bound [of t s]
  by (auto simp: kvs_inv_def bucket_def set_bucket_def nth_list_update word_unat_eq_iff)

lemma bucket_hash: "hash t s = hash t k \<Longrightarrow> bucket t s = bucket t k"
  by (simp add: bucket_def)

lemma bucket_size [simp]: "bucket (t\<lparr>kvs_size := n\<rparr>) = bucket t"
  by (simp add: bucket_def fun_eq_iff)

lemma kvs_view_size [simp]: "kvs_view (t\<lparr>kvs_size := n\<rparr>) = kvs_view t"
  by (simp add: kvs_view_def fun_eq_iff)

lemma lookup_key_find: "lookup_key t k = find (\<lambda>e. cstr k = cstr (kvs_key e)) (bucket t k)"
  by (simp add: lookup_key_def same_key_def [abs_def])

lemma bucket_cstr [simp]: "bucket t (cstr k) = bucket t k"
  by (simp add: bucket_def)

lemma kvs_get_view: "kvs_get t k = kvs_view t (cstr k)"
  by (simp add: kvs_get_def kvs_view_def lookup_key_find)

text \<open>What a list of entries holds for a key.\<close>

definition held :: "kvs_entry_t list \<Rightarrow> u8 list \<Rightarrow> kvs_entry_t option" where
  "held es s = find (\<lambda>e. s = cstr (kvs_key e)) es"

lemma held_Nil [simp]: "held [] s = None"
  by (simp add: held_def)

lemma held_Cons: "held (e # es) s = (if s = cstr (kvs_key e) then Some e else held es s)"
  by (simp add: held_def)

lemma held_None: "held es s = None \<longleftrightarrow> s \<notin> cstr ` kvs_key ` set es"
  by (auto simp: held_def find_None_iff)

lemma held_elem: "held es s = Some e \<Longrightarrow> e \<in> set es"
  by (auto simp: held_def find_Some_iff)

lemma kvs_view_held: "kvs_view t s = Option.bind (held (bucket t s) s) (\<lambda>e. blob_data (kvs_blob e))"
  by (simp add: kvs_view_def held_def)

lemma kvs_view_set_bucket: "\<lbrakk>kvs_inv t; \<And>s. s \<noteq> cstr k \<Longrightarrow> held es s = held (bucket t k) s\<rbrakk> \<Longrightarrow>
    kvs_view (set_bucket k es t) = (kvs_view t)(cstr k := Option.bind (held es (cstr k)) (\<lambda>e. blob_data (kvs_blob e)))"
proof (rule ext)
  fix s
  assume inv: "kvs_inv t" and same: "\<And>s. s \<noteq> cstr k \<Longrightarrow> held es s = held (bucket t k) s"
  show "kvs_view (set_bucket k es t) s =
      ((kvs_view t)(cstr k := Option.bind (held es (cstr k)) (\<lambda>e. blob_data (kvs_blob e)))) s"
    using bucket_hash [of t s k] by (auto simp: kvs_view_held bucket_set_bucket [OF inv] same)
qed

subsection \<open>Removing\<close>

lemma unlink_spec: "distinct (map (cstr \<circ> kvs_key) es) \<Longrightarrow> unlink k es = (es', r) \<Longrightarrow>
    r = held es (cstr k) \<and> es' = filter (\<lambda>e. cstr (kvs_key e) \<noteq> cstr k) es \<and>
    sum_list (map entry_size es) = (case r of None \<Rightarrow> 0 | Some e \<Rightarrow> entry_size e) + sum_list (map entry_size es')"
proof (induction es arbitrary: es' r)
  case (Cons e es)
  show ?case
  proof (cases "same_key k e")
    case True
    then have "\<forall>f \<in> set es. cstr (kvs_key f) \<noteq> cstr k" using Cons.prems(1) by (auto simp: same_key_def) (metis rev_image_eqI)
    then show ?thesis using True Cons.prems(2) by (auto simp: same_key_def held_Cons)
  next
    case False
    then show ?thesis
      using Cons by (auto simp: same_key_def held_Cons split: prod.splits)
  qed
qed (auto simp: held_def)

lemma held_filter: "held (filter (\<lambda>e. cstr (kvs_key e) \<noteq> u) es) s = (if s = u then None else held es s)"
  by (induction es) (auto simp: held_def)

lemma remove_key_spec: "kvs_inv t \<Longrightarrow> kvs_inv (remove_key k t) \<and> kvs_view (remove_key k t) = (kvs_view t)(cstr k := None)"
proof -
  assume inv: "kvs_inv t"
  note ok = kvs_inv_bucket [OF inv, of k]
  obtain es r where u: "unlink k (bucket t k) = (es, r)" by (cases "unlink k (bucket t k)")
  note sp = unlink_spec [OF _ u]
  have d: "distinct (map (cstr \<circ> kvs_key) (bucket t k))" using ok by (simp add: bucket_ok_def)
  show ?thesis
  proof (cases r)
    case None
    then have "held (bucket t k) (cstr k) = None" using sp d by simp
    then show ?thesis using inv u None by (auto simp: remove_key_def kvs_view_held fun_eq_iff)
  next
    case (Some e)
    have es: "es = filter (\<lambda>e. cstr (kvs_key e) \<noteq> cstr k) (bucket t k)" using sp d by simp
    then have "bucket_ok t (unat (hash t k)) es" using ok by (auto simp: bucket_ok_def distinct_map_filter)
    moreover have "sum_list (map entry_size (bucket t k)) = entry_size e + sum_list (map entry_size es)"
      using sp d Some by simp
    ultimately have "kvs_inv (remove_key k t)"
      using u Some inv by (auto simp: remove_key_def entry_size_def intro!: set_bucket_inv)
    moreover have "kvs_view (remove_key k t) = (kvs_view t)(cstr k := None)"
      using kvs_view_set_bucket [OF inv, of k es] u Some by (simp add: remove_key_def es held_filter)
    ultimately show ?thesis by simp
  qed
qed

subsection \<open>Writing\<close>

lemma update_first_keys: "map kvs_key (update_first k b es) = map kvs_key es"
  by (induction es) auto

lemma update_first_held: "held (update_first k b es) s =
    (if s = cstr k then map_option (\<lambda>e. e\<lparr>kvs_blob := b\<rparr>) (held es s) else held es s)"
  by (induction es) (auto simp: held_Cons same_key_def)

lemma update_first_elem: "f \<in> set (update_first k b es) \<Longrightarrow> kvs_blob f = b \<or> f \<in> set es"
  by (induction es) (auto split: if_splits)

lemma update_first_size: "held es (cstr k) = Some e \<Longrightarrow>
    sum_list (map entry_size (update_first k b es)) =
      sum_list (map entry_size es) - entry_size e + (sizeof_snapshot_entry + ucast (blob_len b))"
  by (induction es) (auto simp: held_Cons same_key_def entry_size_def split: if_splits)

lemma lookup_held: "lookup_key t k = held (bucket t k) (cstr k)"
  by (simp add: lookup_key_find held_def)

lemma blob_ok: "length v < 2 ^ 16 \<Longrightarrow> unat (of_nat (length v) :: u16) = length v"
  by (intro unat_of_nat_small) simp

text \<open>Writing over an entry, and adding one.\<close>

lemma overwrite_spec: "\<lbrakk>kvs_inv t; held (bucket t k) (cstr k) = Some e; length v < 2 ^ 16;
    b = \<lparr>blob_len = of_nat (length v), blob_data = Some v\<rparr>; n = kvs_size t + (ucast (blob_len b) - ucast (blob_len (kvs_blob e)))\<rbrakk> \<Longrightarrow>
    kvs_inv ((set_bucket k (update_first k b (bucket t k)) t)\<lparr>kvs_size := n\<rparr>) \<and>
    kvs_view (set_bucket k (update_first k b (bucket t k)) t) = (kvs_view t)(cstr k \<mapsto> v)"
proof -
  assume inv: "kvs_inv t" and h: "held (bucket t k) (cstr k) = Some e" and v: "length v < 2 ^ 16"
    and b: "b = \<lparr>blob_len = of_nat (length v), blob_data = Some v\<rparr>"
    and n: "n = kvs_size t + (ucast (blob_len b) - ucast (blob_len (kvs_blob e)))"
  let ?es = "update_first k b (bucket t k)"
  note ok = kvs_inv_bucket [OF inv, of k]
  have "entry_ok f" if "f \<in> set ?es" for f
    using update_first_elem [OF that] ok b v blob_ok [of v] by (auto simp: bucket_ok_def entry_ok_def)
  moreover have "unat (hash t (kvs_key f)) = unat (hash t k)" if "f \<in> set ?es" for f
  proof -
    have "kvs_key f \<in> set (map kvs_key (bucket t k))"
      using that arg_cong [OF update_first_keys [of k b "bucket t k"], of set] by (metis imageI set_map)
    then show ?thesis using ok by (auto simp: bucket_ok_def)
  qed
  moreover have "distinct (map (cstr \<circ> kvs_key) ?es)"
    using ok update_first_keys [of k b "bucket t k"] by (simp add: bucket_ok_def flip: map_map)
  ultimately have "bucket_ok t (unat (hash t k)) ?es" by (simp add: bucket_ok_def)
  then have "kvs_inv ((set_bucket k ?es t)\<lparr>kvs_size := n\<rparr>)"
    using inv update_first_size [OF h, of b] n by (intro set_bucket_inv) (simp_all add: entry_size_def)
  moreover have "kvs_view (set_bucket k ?es t) = (kvs_view t)(cstr k \<mapsto> v)"
    using kvs_view_set_bucket [OF inv, of k ?es] h b by (simp add: update_first_held)
  ultimately show ?thesis by simp
qed

lemma add_spec: "\<lbrakk>kvs_inv t; held (bucket t k) (cstr k) = None; length k = KEY_SIZE; length v < 2 ^ 16;
    e = \<lparr>kvs_key = k, kvs_blob = \<lparr>blob_len = of_nat (length v), blob_data = Some v\<rparr>\<rparr>;
    n = kvs_size t + entry_size e\<rbrakk> \<Longrightarrow>
    kvs_inv ((set_bucket k (e # bucket t k) t)\<lparr>kvs_size := n\<rparr>) \<and>
    kvs_view (set_bucket k (e # bucket t k) t) = (kvs_view t)(cstr k \<mapsto> v)"
proof -
  assume inv: "kvs_inv t" and h: "held (bucket t k) (cstr k) = None" and v: "length v < 2 ^ 16"
    and e: "e = \<lparr>kvs_key = k, kvs_blob = \<lparr>blob_len = of_nat (length v), blob_data = Some v\<rparr>\<rparr>"
    and n: "n = kvs_size t + entry_size e"
  note ok = kvs_inv_bucket [OF inv, of k]
  have "bucket_ok t (unat (hash t k)) (e # bucket t k)"
    using ok h e v blob_ok [of v] by (auto simp: bucket_ok_def entry_ok_def held_None image_image)
  then have "kvs_inv ((set_bucket k (e # bucket t k) t)\<lparr>kvs_size := n\<rparr>)"
    using inv n by (intro set_bucket_inv) simp_all
  moreover have "kvs_view (set_bucket k (e # bucket t k) t) = (kvs_view t)(cstr k \<mapsto> v)"
    using kvs_view_set_bucket [OF inv, of k "e # bucket t k"] e by (simp add: held_Cons)
  ultimately show ?thesis by simp
qed

lemma set_bucket_size: "set_bucket k es (t\<lparr>kvs_size := n\<rparr>) = (set_bucket k es t)\<lparr>kvs_size := n\<rparr>"
  by (simp add: set_bucket_def)

lemma write_key_spec: "\<lbrakk>kvs_inv t; kvs_ok k v\<rbrakk> \<Longrightarrow>
    \<exists>t'. write_key True True k v t = Some (0, t') \<and> kvs_inv t' \<and> kvs_view t' = (kvs_view t)(cstr k \<mapsto> v)"
proof (cases "held (bucket t k) (cstr k)")
  case None
  assume inv: "kvs_inv t" and ok: "kvs_ok k v"
  then show ?thesis
    using add_spec [OF inv None _ _ refl refl, of v] None
    by (simp add: write_key_def lookup_held set_bucket_size kvs_ok_def Let_def entry_size_def add.assoc)
next
  case (Some e)
  assume inv: "kvs_inv t" and ok: "kvs_ok k v"
  let ?n = "of_nat (length v) :: u16"
  have n: "?n \<noteq> 0" using ok blob_ok [of v] by (metis kvs_ok_def length_0_conv unat_0)
  note over = overwrite_spec [OF inv Some _ refl refl, of v]
  have e: "entry_ok e" using kvs_inv_bucket [OF inv, of k] held_elem [OF Some] by (simp add: bucket_ok_def)
  show ?thesis
  proof (cases "blob_len (kvs_blob e) = ?n")
    case True
    then have b: "(kvs_blob e)\<lparr>blob_data := Some v\<rparr> = \<lparr>blob_len = ?n, blob_data = Some v\<rparr>" by simp
    have s: "(set_bucket k es t)\<lparr>kvs_size := kvs_size t\<rparr> = set_bucket k es t" for es by (simp add: set_bucket_def)
    show ?thesis
      using over True ok e n Some
      by (auto simp: write_key_def lookup_held Let_def kvs_ok_def entry_ok_def b s)
  next
    case False
    then show ?thesis
      using over ok n Some by (auto simp: write_key_def lookup_held Let_def kvs_ok_def realloc_ok_def set_bucket_size)
  qed
qed

interpretation kv: map_impl cstr kvs_get kvs_put remove_key kvs_view kvs_inv "\<lambda>_. kvs_ok"
proof
  fix m a v
  assume "kvs_inv m" "kvs_ok a v"
  then show "kvs_view (kvs_put a v m) = (kvs_view m)(cstr a \<mapsto> v)" "kvs_inv (kvs_put a v m)"
    using write_key_spec [of m a v] by (auto simp: kvs_put_def)
qed (simp_all add: kvs_get_view remove_key_spec)

section \<open>Commands as operations on a map\<close>

lemma cmd_key_encode: "\<lbrakk>length k = KEY_SIZE; 0 \<in> set k\<rbrakk> \<Longrightarrow> kvs_cmd_key (x # k @ 0 # r) = Some k"
  by (simp add: kvs_cmd_key_def)

lemma cmd_value_encode: "\<lbrakk>length k = KEY_SIZE; length v < 2 ^ 16\<rbrakk> \<Longrightarrow>
    kvs_cmd_value (x # k @ 0 # le_enc 2 (length v) @ v) = Some v"
proof -
  assume k: "length k = KEY_SIZE" and v: "length v < 2 ^ 16"
  let ?c = "x # k @ 0 # le_enc 2 (length v) @ v"
  have nth: "?c ! 66 = of_nat (length v mod 256)" "?c ! 67 = of_nat (length v div 256 mod 256)"
    using k by (simp_all add: KEY_SIZE_def nth_append numeral_2_eq_2)
  have "kvs_cmd_len ?c = length v"
    unfolding kvs_cmd_len_def nth using v by (simp add: unat_of_nat_small)
  moreover have "drop 68 ?c = v" using k by (simp add: KEY_SIZE_def numeral_2_eq_2)
  ultimately show ?thesis using k by (simp add: kvs_cmd_value_def KEY_SIZE_def)
qed

lemma view_some: "kvs_inv t \<Longrightarrow> lookup_key t k = Some e \<Longrightarrow> \<exists>d. blob_data (kvs_blob e) = Some d \<and> kvs_view t (cstr k) = Some d"
proof -
  assume inv: "kvs_inv t" and e: "lookup_key t k = Some e"
  then have "entry_ok e" using kvs_inv_bucket [OF inv, of k] held_elem by (fastforce simp: lookup_held bucket_ok_def)
  then show ?thesis using e by (auto simp: lookup_held kvs_view_held entry_ok_def)
qed

lemma view_none: "lookup_key t k = None \<Longrightarrow> kvs_view t (cstr k) = None"
  by (simp add: lookup_held kvs_view_held)

lemma apply_cmd_refines: "\<lbrakk>kvs_inv t; cmd_ok c; abs_cmd c (kvs_view t) = (a, m)\<rbrakk> \<Longrightarrow>
    \<exists>t'. apply_kvs_cmd True True (kvs_encode c) t = Some (0, a, t') \<and> kvs_inv t' \<and> kvs_view t' = m"
proof (cases c)
  case (PutCmd k v)
  assume "kvs_inv t" "cmd_ok c" "abs_cmd c (kvs_view t) = (a, m)"
  then show ?thesis
    using PutCmd write_key_spec [of t k v]
    by (auto simp: apply_kvs_cmd_def cmd_key_encode cmd_value_encode kvs_ok_def)
next
  case (GetCmd k)
  assume "kvs_inv t" "cmd_ok c" "abs_cmd c (kvs_view t) = (a, m)"
  then show ?thesis
    using GetCmd view_some [of t k] view_none [of t k]
    by (cases "lookup_key t k") (auto simp: apply_kvs_cmd_def cmd_key_encode KVS_GET_def KVS_PUT_def)
next
  case (RmCmd k)
  assume "kvs_inv t" "cmd_ok c" "abs_cmd c (kvs_view t) = (a, m)"
  then show ?thesis
    using RmCmd remove_key_spec [of t k]
    by (auto simp: apply_kvs_cmd_def cmd_key_encode KVS_GET_def KVS_PUT_def KVS_RM_def)
qed

lemma kvs_inv_create: "kvs_inv (create_kvs_sm n)" "kvs_view (create_kvs_sm n) = Map.empty"
proof -
  let ?t = "create_kvs_sm n"
  have sz: "kvs_table_size ?t \<noteq> 0" "length (kvs_table ?t) = unat (kvs_table_size ?t)"
    by (auto simp: create_kvs_sm_def Let_def DEFAULT_KVS_SIZE_def)
  moreover have "\<forall>es \<in> set (kvs_table ?t). es = []" by (auto simp: create_kvs_sm_def Let_def)
  ultimately have "kvs_table ?t ! i = []" if "i < length (kvs_table ?t)" for i using that nth_mem by blast
  then show "kvs_inv ?t" "kvs_view ?t = Map.empty"
    using sz hash_bound [OF sz(1)]
    by (simp_all add: kvs_inv_def bucket_ok_def kvs_view_def bucket_def fun_eq_iff)
      (simp add: create_kvs_sm_def Let_def table_bytes_def sum_list_replicate)
qed

lemma kvs_run_refines_from: "\<lbrakk>kvs_inv t; list_all cmd_ok cs\<rbrakk> \<Longrightarrow>
    \<exists>t'. kvs_run (map kvs_encode cs) t = Some (fst (abs_cmds cs (kvs_view t)), t') \<and>
      kvs_inv t' \<and> kvs_view t' = snd (abs_cmds cs (kvs_view t))"
proof (induction cs arbitrary: t)
  case (Cons c cs)
  obtain a m where am: "abs_cmd c (kvs_view t) = (a, m)" by (cases "abs_cmd c (kvs_view t)")
  obtain t' where t': "apply_kvs_cmd True True (kvs_encode c) t = Some (0, a, t')" "kvs_inv t'" "kvs_view t' = m"
    using apply_cmd_refines [OF _ _ am] Cons.prems by auto
  then show ?case
    using Cons.IH [of t'] Cons.prems am by (auto simp: Let_def split: prod.splits)
qed simp

text \<open>Property C18: the hash table implements a map.  Any sequence of well-formed commands, applied to a
  new store in the order of the log, succeeds; every GET is answered with the value the last PUT of
  that key wrote (the empty value when there is none or it was removed), and the table ends with
  exactly the keys and values the commands leave, every entry in the slot of its key and the
  recorded size equal to the size of a snapshot.\<close>

theorem kvs_run_refines:
  assumes "list_all cmd_ok cs"
  shows "\<exists>t. kvs_run (map kvs_encode cs) (create_kvs_sm n) = Some (fst (abs_cmds cs Map.empty), t) \<and>
    kvs_inv t \<and> kvs_view t = snd (abs_cmds cs Map.empty)"
  using kvs_run_refines_from [OF kvs_inv_create(1) assms, of n] by (simp add: kvs_inv_create(2))

definition sample_key :: "u8 \<Rightarrow> u8 list" where
  "sample_key b = b # replicate 63 0"

theorem kvs_run_refines_witness:
  "\<exists>t. kvs_run (map kvs_encode [PutCmd (sample_key 7) [1, 2], GetCmd (sample_key 7)]) (create_kvs_sm 4) =
      Some ([None, Some [1, 2]], t)"
proof -
  let ?cs = "[PutCmd (sample_key 7) [1, 2], GetCmd (sample_key 7)]"
  have "list_all cmd_ok ?cs" by (simp add: kvs_ok_def sample_key_def KEY_SIZE_def)
  from kvs_run_refines [OF this, of 4] show ?thesis by auto
qed

text \<open>Property C19: overwriting an existing value with an empty one fails (\<open>realloc\<close> with size 0
  returns NULL): the command reports an error, and the old value is lost.\<close>

theorem kvs_put_empty_fails:
  assumes "kvs_inv t" "kvs_view t (cstr k) = Some d" "d \<noteq> []"
  shows "\<exists>t'. write_key True True k [] t = Some (1, t') \<and> kvs_view t' (cstr k) = None"
proof -
  obtain e where e: "held (bucket t k) (cstr k) = Some e" "blob_data (kvs_blob e) = Some d"
    using assms(2) by (auto simp: kvs_view_held split: bind_splits)
  then have "entry_ok e" using kvs_inv_bucket [OF assms(1), of k] held_elem by (auto simp: bucket_ok_def)
  then have "blob_len (kvs_blob e) \<noteq> 0" using e(2) assms(3) by (auto simp: entry_ok_def)
  moreover have "kvs_view (set_bucket k (update_first k b (bucket t k)) t) (cstr k) = blob_data b" for b
    using kvs_view_set_bucket [OF assms(1), of k "update_first k b (bucket t k)"] e(1) by (simp add: update_first_held)
  ultimately show ?thesis
    using e(1) by (auto simp: write_key_def lookup_held realloc_ok_def Let_def set_bucket_size)
qed

theorem kvs_put_empty_fails_witness:
  "\<exists>t t'. kvs_view t [7] = Some [1] \<and> write_key True True (sample_key 7) [] t = Some (1, t') \<and> kvs_view t' [7] = None"
proof -
  let ?t = "kvs_put (sample_key 7) [1] (create_kvs_sm 4)"
  have ok: "kvs_ok (sample_key 7) [1]" "cstr (sample_key 7) = [7]"
    by (simp_all add: kvs_ok_def sample_key_def KEY_SIZE_def cstr_def)
  have v: "kvs_view ?t [7] = Some [1]" "kvs_inv ?t"
    using kv.view_put [OF kvs_inv_create(1) ok(1)] kv.invar_put [OF kvs_inv_create(1) ok(1)] ok(2) by simp_all
  then show ?thesis using kvs_put_empty_fails [of ?t "sample_key 7" "[1]"] ok(2) by auto
qed

end
