(* ===== verification/Rbtree.thy ===== *)
theory Rbtree
  imports Main
begin

text \<open>
  The red-black tree library (utils/rbtree: rbtree.c, rbtree_augmented.h).  The C code moves a
  pointer \<open>node\<close> upwards through parent links and re-links subtrees on the way.  Here a position in
  a tree is the subtree at \<open>node\<close> together with its path, the list of the ancestors (parent first),
  each with its colour, its element and its other child; \<open>rb_zip\<close> rebuilds the tree.  A result \<open>None\<close>
  means that the C code dereferences a NULL pointer.
\<close>

section \<open>Trees, positions, colours\<close>

datatype color = RB_RED | RB_BLACK

datatype 'a rb = Null | Node color "'a rb" 'a "'a rb"

text \<open>An ancestor of a left child (with its right child), or of a right child.\<close>

datatype 'a frame = OnLeft color 'a "'a rb" | OnRight color "'a rb" 'a

fun rb_set_color :: "color \<Rightarrow> 'a rb \<Rightarrow> 'a rb" where
  "rb_set_color c Null = Null"
| "rb_set_color c (Node _ l x r) = Node c l x r"

abbreviation rb_set_black :: "'a rb \<Rightarrow> 'a rb" where
  "rb_set_black \<equiv> rb_set_color RB_BLACK"

text \<open>\<open>t && rb_is_red(t)\<close>\<close>

fun rb_is_red :: "'a rb \<Rightarrow> bool" where
  "rb_is_red Null = False"
| "rb_is_red (Node c _ _ _) = (c = RB_RED)"

fun frame_color :: "'a frame \<Rightarrow> color" where
  "frame_color (OnLeft c _ _) = c"
| "frame_color (OnRight c _ _) = c"

fun fill :: "'a rb \<Rightarrow> 'a frame \<Rightarrow> 'a rb" where
  "fill t (OnLeft c x r) = Node c t x r"
| "fill t (OnRight c l x) = Node c l x t"

fun rb_zip :: "'a rb \<Rightarrow> 'a frame list \<Rightarrow> 'a rb" where
  "rb_zip t [] = t"
| "rb_zip t (f # fs) = rb_zip (fill t f) fs"

section \<open>Insertion\<close>

text \<open>\<open>__rb_insert\<close>: the node at the position is red.  Case 1 flips colours and goes on at the
  grandparent; case 2 rotates at the parent and continues into case 3, the rotation at the
  grandparent, which gets the grandparent's colour.\<close>

fun rb_insert :: "'a rb \<Rightarrow> 'a frame list \<Rightarrow> 'a rb option" where
  "rb_insert node [] = Some (rb_set_black node)"
| "rb_insert node (p # path) =
    (if frame_color p = RB_BLACK then Some (rb_zip node (p # path))
     else case path of [] \<Rightarrow> None
     | OnLeft gc g uncle # up \<Rightarrow>
         if rb_is_red uncle
         then rb_insert (Node RB_RED (rb_set_black (fill node p)) g (rb_set_black uncle)) up
         else (case p of
             OnLeft _ x tmp \<Rightarrow> Some (rb_zip (Node gc node x (Node RB_RED (rb_set_black tmp) g uncle)) up)
           | OnRight _ l x \<Rightarrow> (case node of Null \<Rightarrow> None
               | Node _ nl n nr \<Rightarrow> Some (rb_zip (Node gc (Node RB_RED l x (rb_set_black nl)) n
                   (Node RB_RED (rb_set_black nr) g uncle)) up)))
     | OnRight gc uncle g # up \<Rightarrow>
         if rb_is_red uncle
         then rb_insert (Node RB_RED (rb_set_black uncle) g (rb_set_black (fill node p))) up
         else (case p of
             OnRight _ tmp x \<Rightarrow> Some (rb_zip (Node gc (Node RB_RED uncle g (rb_set_black tmp)) x node) up)
           | OnLeft _ x r \<Rightarrow> (case node of Null \<Rightarrow> None
               | Node _ nl n nr \<Rightarrow> Some (rb_zip (Node gc (Node RB_RED uncle g (rb_set_black nl)) n
                   (Node RB_RED (rb_set_black nr) x r)) up))))"

text \<open>\<open>rb_link_node\<close> at an empty position, then \<open>rb_insert_color\<close>.\<close>

definition rb_insert_color :: "'a \<Rightarrow> 'a frame list \<Rightarrow> 'a rb option" where
  "rb_insert_color x path = rb_insert (Node RB_RED Null x Null) path"

section \<open>Erasing\<close>

text \<open>Cases 2 to 4 of \<open>____rb_erase_color\<close> for a node that is a left child: \<open>pc\<close> and \<open>x\<close> are the
  colour and the element of the parent, \<open>up\<close> the path of the parent.  The first component of the
  result is the new tree, or the position to continue at.\<close>

definition erase_left :: "'a rb \<Rightarrow> color \<Rightarrow> 'a \<Rightarrow> 'a rb \<Rightarrow> 'a frame list \<Rightarrow> ('a rb + 'a rb \<times> 'a frame list) option" where
  "erase_left node pc x sibling up =
    (case sibling of Null \<Rightarrow> None
     | Node sc sl s sr \<Rightarrow>
        if \<not> rb_is_red sr
        then (if \<not> rb_is_red sl
              then (let t = (\<lambda>c. Node c node x (Node RB_RED sl s sr)) in
                    if pc = RB_RED then Some (Inl (rb_zip (t RB_BLACK) up))
                    else if up = [] then Some (Inl (t pc)) else Some (Inr (t pc, up)))
              else (case sl of Null \<Rightarrow> None
                    | Node _ sll m slr \<Rightarrow>
                        Some (Inl (rb_zip (Node pc (Node RB_BLACK node x sll) m (Node RB_BLACK (rb_set_black slr) s sr)) up))))
        else Some (Inl (rb_zip (Node pc (Node RB_BLACK node x sl) s (rb_set_black sr)) up)))"

definition erase_right :: "'a rb \<Rightarrow> color \<Rightarrow> 'a \<Rightarrow> 'a rb \<Rightarrow> 'a frame list \<Rightarrow> ('a rb + 'a rb \<times> 'a frame list) option" where
  "erase_right node pc x sibling up =
    (case sibling of Null \<Rightarrow> None
     | Node sc sl s sr \<Rightarrow>
        if \<not> rb_is_red sl
        then (if \<not> rb_is_red sr
              then (let t = (\<lambda>c. Node c (Node RB_RED sl s sr) x node) in
                    if pc = RB_RED then Some (Inl (rb_zip (t RB_BLACK) up))
                    else if up = [] then Some (Inl (t pc)) else Some (Inr (t pc, up)))
              else (case sr of Null \<Rightarrow> None
                    | Node _ srl m srr \<Rightarrow>
                        Some (Inl (rb_zip (Node pc (Node RB_BLACK sl s (rb_set_black srl)) m (Node RB_BLACK srr x node)) up))))
        else Some (Inl (rb_zip (Node pc (rb_set_black sl) s (Node RB_BLACK sr x node)) up)))"

text \<open>One iteration: case 1, a red sibling, rotates at the parent first; the sibling becomes an
  ancestor with the parent's colour, and the parent red.\<close>

fun erase_step :: "'a rb \<Rightarrow> 'a frame \<Rightarrow> 'a frame list \<Rightarrow> ('a rb + 'a rb \<times> 'a frame list) option" where
  "erase_step node (OnLeft pc x sibling) up =
    (case sibling of
       Node RB_RED sl s sr \<Rightarrow> erase_left node RB_RED x (rb_set_black sl) (OnLeft pc s sr # up)
     | _ \<Rightarrow> erase_left node pc x sibling up)"
| "erase_step node (OnRight pc sibling x) up =
    (case sibling of
       Node RB_RED sl s sr \<Rightarrow> erase_right node RB_RED x (rb_set_black sr) (OnRight pc sl s # up)
     | _ \<Rightarrow> erase_right node pc x sibling up)"

text \<open>The loop; a step that continues does so at the parent, so the length of the path bounds the
  number of iterations.\<close>

fun rb_erase_color :: "nat \<Rightarrow> 'a rb \<Rightarrow> 'a frame list \<Rightarrow> 'a rb option" where
  "rb_erase_color 0 node path = None"
| "rb_erase_color (Suc n) node [] = None"
| "rb_erase_color (Suc n) node (p # up) =
    (case erase_step node p up of None \<Rightarrow> None
     | Some (Inl t) \<Rightarrow> Some t
     | Some (Inr (node', path')) \<Rightarrow> rb_erase_color n node' path')"

text \<open>\<open>__rb_erase_augmented\<close> of the node at a position: with at most one child the child takes its
  place; otherwise the successor, the leftmost node below the right child, does.  \<open>successor\<close> is that
  node's colour, element and right child, with its path below the right child.\<close>

fun successor :: "color \<Rightarrow> 'a rb \<Rightarrow> 'a \<Rightarrow> 'a rb \<Rightarrow> 'a frame list \<Rightarrow> color \<times> 'a \<times> 'a rb \<times> 'a frame list" where
  "successor c Null x r path = (c, x, r, path)"
| "successor c (Node lc ll lx lr) x r path = successor lc ll lx lr (OnLeft c x r # path)"

definition rebalance :: "'a frame list \<Rightarrow> 'a rb option" where
  "rebalance path = (if path = [] then Some Null else rb_erase_color (length path) Null path)"

definition rb_erase :: "'a rb \<Rightarrow> 'a frame list \<Rightarrow> 'a rb option" where
  "rb_erase node path =
    (case node of Null \<Rightarrow> None
     | Node c l x r \<Rightarrow>
       (case (l, r) of
          (Null, Null) \<Rightarrow> if c = RB_BLACK then rebalance path else Some (rb_zip Null path)
        | (Null, child) \<Rightarrow> Some (rb_zip (rb_set_color c child) path)
        | (child, Null) \<Rightarrow> Some (rb_zip (rb_set_color c child) path)
        | (_, Node rc rl rx rr) \<Rightarrow>
           (let (sc, s, child2, below) = successor rc rl rx rr [];
                path' = below @ OnRight c l s # path
            in if child2 \<noteq> Null then Some (rb_zip (rb_set_black child2) path')
               else if sc = RB_BLACK then rebalance path' else Some (rb_zip Null path'))))"

section \<open>Iteration\<close>

text \<open>\<open>rb_first\<close>, \<open>rb_next\<close> as positions; \<open>None\<close> is the NULL pointer.\<close>

fun leftmost :: "'a rb \<Rightarrow> 'a frame list \<Rightarrow> ('a rb \<times> 'a frame list) option" where
  "leftmost Null path = None"
| "leftmost (Node c Null x r) path = Some (Node c Null x r, path)"
| "leftmost (Node c (Node lc ll lx lr) x r) path = leftmost (Node lc ll lx lr) (OnLeft c x r # path)"

definition rb_first :: "'a rb \<Rightarrow> ('a rb \<times> 'a frame list) option" where
  "rb_first root = leftmost root []"

fun next_up :: "'a rb \<Rightarrow> 'a frame list \<Rightarrow> ('a rb \<times> 'a frame list) option" where
  "next_up node [] = None"
| "next_up node (OnRight c l x # path) = next_up (fill node (OnRight c l x)) path"
| "next_up node (OnLeft c x r # path) = Some (fill node (OnLeft c x r), path)"

fun rb_next :: "'a rb \<times> 'a frame list \<Rightarrow> ('a rb \<times> 'a frame list) option" where
  "rb_next (Node c l x (Node rc rl rx rr), path) = leftmost (Node rc rl rx rr) (OnRight c l x # path)"
| "rb_next (node, path) = next_up node path"

text \<open>The loop \<open>for (node = rb_first(root); node; node = rb_next(node))\<close>: the elements it visits.\<close>

fun rb_visit :: "nat \<Rightarrow> ('a rb \<times> 'a frame list) option \<Rightarrow> 'a list" where
  "rb_visit 0 pos = []"
| "rb_visit (Suc n) (Some (Node c l x r, path)) = x # rb_visit n (rb_next (Node c l x r, path))"
| "rb_visit (Suc n) pos = []"

section \<open>Invariants\<close>

fun inorder :: "'a rb \<Rightarrow> 'a list" where
  "inorder Null = []"
| "inorder (Node _ l x r) = inorder l @ x # inorder r"

fun bheight :: "'a rb \<Rightarrow> nat" where
  "bheight Null = 0"
| "bheight (Node c l _ _) = (if c = RB_BLACK then Suc (bheight l) else bheight l)"

text \<open>Properties 4 and 5: no red node has a red child, and all paths have the same number of black
  nodes.\<close>

fun rb_ok :: "'a rb \<Rightarrow> bool" where
  "rb_ok Null = True"
| "rb_ok (Node c l _ r) = (rb_ok l \<and> rb_ok r \<and> bheight l = bheight r \<and>
     (c = RB_RED \<longrightarrow> \<not> rb_is_red l \<and> \<not> rb_is_red r))"

definition rb_tree :: "'a rb \<Rightarrow> bool" where
  "rb_tree t = (rb_ok t \<and> \<not> rb_is_red t)"

text \<open>A path into which a tree of black height \<open>n\<close> fits.\<close>

fun path_ok :: "nat \<Rightarrow> 'a frame list \<Rightarrow> bool" where
  "path_ok n [] = True"
| "path_ok n (OnLeft c x t # path) = (rb_ok t \<and> bheight t = n \<and>
     (if c = RB_BLACK then path_ok (Suc n) path
      else \<not> rb_is_red t \<and> path_ok n path \<and> path \<noteq> [] \<and> frame_color (hd path) = RB_BLACK))"
| "path_ok n (OnRight c t x # path) = (rb_ok t \<and> bheight t = n \<and>
     (if c = RB_BLACK then path_ok (Suc n) path
      else \<not> rb_is_red t \<and> path_ok n path \<and> path \<noteq> [] \<and> frame_color (hd path) = RB_BLACK))"

text \<open>The elements before and after a position.\<close>

fun before :: "'a frame list \<Rightarrow> 'a list" where
  "before [] = []"
| "before (OnLeft _ _ _ # path) = before path"
| "before (OnRight _ l x # path) = before path @ inorder l @ [x]"

fun after :: "'a frame list \<Rightarrow> 'a list" where
  "after [] = []"
| "after (OnLeft _ x r # path) = x # inorder r @ after path"
| "after (OnRight _ _ _ # path) = after path"

section \<open>Facts\<close>

lemma inorder_zip: "inorder (rb_zip t path) = before path @ inorder t @ after path"
  by (induction path arbitrary: t rule: before.induct) auto

lemma set_color_simps [simp]:
  "inorder (rb_set_color c t) = inorder t" "\<not> rb_is_red (rb_set_black t)"
  "rb_ok t \<Longrightarrow> rb_ok (rb_set_black t)"
  by (cases t; simp)+

lemma set_black_id [simp]: "\<not> rb_is_red t \<Longrightarrow> rb_set_black t = t"
  by (cases t) (auto intro: color.exhaust)

lemma not_black [simp]: "c \<noteq> RB_BLACK \<longleftrightarrow> c = RB_RED" "c \<noteq> RB_RED \<longleftrightarrow> c = RB_BLACK"
  by (cases c; simp)+

text \<open>A tree is a red-black tree exactly when the part at a position is one, fits into the path and,
  if it is red, has a black parent.\<close>

lemma zip_iff: "rb_tree (rb_zip t path) \<longleftrightarrow> rb_ok t \<and> path_ok (bheight t) path \<and>
    (rb_is_red t \<longrightarrow> path \<noteq> [] \<and> frame_color (hd path) = RB_BLACK)"
proof (induction path arbitrary: t)
  case Nil
  then show ?case by (auto simp: rb_tree_def)
next
  case (Cons f path)
  show ?case by (cases f; cases "frame_color f") (auto simp: Cons.IH)
qed

lemma zip_ok: "\<lbrakk>rb_ok t; path_ok (bheight t) path; rb_is_red t \<Longrightarrow> path \<noteq> [] \<and> frame_color (hd path) = RB_BLACK\<rbrakk>
    \<Longrightarrow> rb_tree (rb_zip t path)"
  by (simp add: zip_iff)

lemma path_ok_color: "\<lbrakk>path_ok n (p # path); frame_color p = RB_RED\<rbrakk> \<Longrightarrow>
    path \<noteq> [] \<and> frame_color (hd path) = RB_BLACK \<and> path_ok n path"
  by (cases p) auto

lemma bheight_set_black [simp]: "rb_is_red t \<Longrightarrow> bheight (rb_set_black t) = Suc (bheight t)"
  by (cases t) auto

lemma rb_tree_node: "rb_tree (Node c l x r) \<longleftrightarrow> rb_ok (Node c l x r) \<and> c = RB_BLACK"
  by (auto simp: rb_tree_def)

subsection \<open>Insertion\<close>

lemma flip_parent: "\<lbrakk>path_ok n (p # path); frame_color p = RB_RED; rb_ok t; bheight t = n\<rbrakk> \<Longrightarrow>
    rb_ok (rb_set_black (fill t p)) \<and> bheight (rb_set_black (fill t p)) = Suc n"
  by (cases p) auto

definition fixed :: "'a rb option \<Rightarrow> 'a rb \<Rightarrow> 'a frame list \<Rightarrow> bool" where
  "fixed res node path = (\<exists>t. res = Some t \<and> rb_tree t \<and> inorder t = inorder (rb_zip node path))"

lemma fixed_zip: "\<lbrakk>rb_ok t; path_ok (bheight t) up; \<not> rb_is_red t; inorder (rb_zip t up) = inorder (rb_zip node path)\<rbrakk> \<Longrightarrow>
    fixed (Some (rb_zip t up)) node path"
  by (auto simp: fixed_def intro: zip_ok)

text \<open>Cases 2 and 3: one or two rotations end the loop.\<close>

lemma rotate_ok: "\<lbrakk>rb_ok (Node RB_RED l x r); bheight l = n; path_ok n (p # g # up); frame_color p = RB_RED;
    \<not> rb_is_red (case g of OnLeft _ _ u \<Rightarrow> u | OnRight _ u _ \<Rightarrow> u)\<rbrakk> \<Longrightarrow>
    fixed (rb_insert (Node RB_RED l x r) (p # g # up)) (Node RB_RED l x r) (p # g # up)"
  by (cases g; cases p; auto intro!: fixed_zip simp: inorder_zip)

lemma rb_insert_ok: "\<lbrakk>rb_ok (Node RB_RED l x r); bheight l = n; path_ok n path\<rbrakk> \<Longrightarrow>
    fixed (rb_insert (Node RB_RED l x r) path) (Node RB_RED l x r) path"
proof (induction path arbitrary: l x r n rule: length_induct)
  case (1 path)
  note prems = 1(2-4) and IH = 1(1) [rule_format]
  let ?N = "Node RB_RED l x r"
  consider (root) "path = []" | (black) p path' where "path = p # path'" "frame_color p = RB_BLACK"
    | (red) p g up where "path = p # g # up" "frame_color p = RB_RED" "frame_color g = RB_BLACK" "path_ok n (g # up)"
  proof (cases path)
    case (Cons p path')
    then show thesis
      using black red path_ok_color [of n p path'] prems(3) by (cases "frame_color p"; cases path') simp_all
  qed (rule root)
  then show ?case
  proof cases
    case root
    then show ?thesis using prems by (simp add: rb_tree_def fixed_def)
  next
    case black
    then have "rb_tree (rb_zip ?N path)" using prems by (intro zip_ok) auto
    then show ?thesis using black by (simp add: fixed_def)
  next
    case red
    let ?u = "case g of OnLeft _ _ u \<Rightarrow> u | OnRight _ u _ \<Rightarrow> u"
    let ?y = "case g of OnLeft _ y _ \<Rightarrow> y | OnRight _ _ y \<Rightarrow> y"
    show ?thesis
    proof (cases "rb_is_red ?u")
      case True
      have u: "rb_ok ?u" "bheight ?u = n" "path_ok (Suc n) up" using red by (cases g; auto)+
      define A B where "A = rb_set_black (fill ?N p)" and "B = rb_set_black ?u"
      have ab: "rb_ok A" "bheight A = Suc n" "rb_ok B" "bheight B = Suc n" "\<not> rb_is_red A" "\<not> rb_is_red B"
        using flip_parent [of n p "g # up" ?N] bheight_set_black [OF True] red u prems by (simp_all add: A_def B_def)
      have "fixed (rb_insert (Node RB_RED A ?y B) up) (Node RB_RED A ?y B) up"
        "fixed (rb_insert (Node RB_RED B ?y A) up) (Node RB_RED B ?y A) up"
        using ab u red(1) by (intro IH [of up _ _ _ "Suc n"]; simp)+
      moreover have "inorder A = inorder (fill ?N p)" "inorder B = inorder ?u" by (simp_all add: A_def B_def)
      ultimately show ?thesis
        using True red(2) unfolding red(1) by (cases g) (simp_all add: fixed_def inorder_zip A_def B_def)
    next
      case False
      then show ?thesis using red prems unfolding red(1) by (intro rotate_ok) simp_all
    qed
  qed
qed

subsection \<open>Erasing\<close>

text \<open>The position a step continues at, one level up: again one black node is missing below it.\<close>

definition step_ok :: "('a rb + 'a rb \<times> 'a frame list) option \<Rightarrow> nat \<Rightarrow> 'a list \<Rightarrow> 'a frame list \<Rightarrow> bool" where
  "step_ok res n xs up = (case res of
     None \<Rightarrow> False
   | Some (Inl t) \<Rightarrow> rb_tree t \<and> inorder t = xs
   | Some (Inr (node, path)) \<Rightarrow> path = up \<and> up \<noteq> [] \<and> rb_ok node \<and> \<not> rb_is_red node \<and> bheight node = n \<and>
       path_ok (Suc n) up \<and> inorder (rb_zip node up) = xs)"

lemma erase_left_ok: "\<lbrakk>rb_ok node; \<not> rb_is_red node; bheight node = n; rb_ok sib; \<not> rb_is_red sib; bheight sib = Suc n;
    path_ok (Suc n) (OnLeft pc x sib # up)\<rbrakk> \<Longrightarrow>
    step_ok (erase_left node pc x sib up) (Suc n) (inorder (rb_zip node (OnLeft pc x sib # up))) up"
  by (cases sib; cases pc) (auto simp: erase_left_def step_ok_def Let_def inorder_zip rb_tree_node
    intro!: zip_ok split: rb.splits)

lemma erase_right_ok: "\<lbrakk>rb_ok node; \<not> rb_is_red node; bheight node = n; rb_ok sib; \<not> rb_is_red sib; bheight sib = Suc n;
    path_ok (Suc n) (OnRight pc sib x # up)\<rbrakk> \<Longrightarrow>
    step_ok (erase_right node pc x sib up) (Suc n) (inorder (rb_zip node (OnRight pc sib x # up))) up"
  by (cases sib; cases pc) (auto simp: erase_right_def step_ok_def Let_def inorder_zip rb_tree_node
    intro!: zip_ok split: rb.splits)

lemma erase_step_ok: "\<lbrakk>rb_ok node; \<not> rb_is_red node; bheight node = n; path_ok (Suc n) (p # up)\<rbrakk> \<Longrightarrow>
    step_ok (erase_step node p up) (Suc n) (inorder (rb_zip node (p # up))) up"
proof (cases p)
  case (OnLeft pc x sib)
  assume ok: "rb_ok node" "\<not> rb_is_red node" "bheight node = n" "path_ok (Suc n) (p # up)"
  show ?thesis
  proof (cases "rb_is_red sib")
    case True
    then obtain sl s sr where sib: "sib = Node RB_RED sl s sr" by (cases sib) auto
    then have "pc = RB_BLACK" using ok OnLeft by (cases pc) auto
    then show ?thesis
      using erase_left_ok [of node n sl RB_RED x "OnLeft pc s sr # up"] ok OnLeft sib
      by (auto simp: step_ok_def erase_left_def inorder_zip Let_def split: rb.splits if_splits)
  next
    case False
    then show ?thesis
      using erase_left_ok [of node n sib pc x up] ok OnLeft by (auto split: rb.splits color.splits)
  qed
next
  case (OnRight pc sib x)
  assume ok: "rb_ok node" "\<not> rb_is_red node" "bheight node = n" "path_ok (Suc n) (p # up)"
  show ?thesis
  proof (cases "rb_is_red sib")
    case True
    then obtain sl s sr where sib: "sib = Node RB_RED sl s sr" by (cases sib) auto
    then have "pc = RB_BLACK" using ok OnRight by (cases pc) auto
    then show ?thesis
      using erase_right_ok [of node n sr RB_RED x "OnRight pc sl s # up"] ok OnRight sib
      by (auto simp: step_ok_def erase_right_def inorder_zip Let_def split: rb.splits if_splits)
  next
    case False
    then show ?thesis
      using erase_right_ok [of node n sib pc x up] ok OnRight by (auto split: rb.splits color.splits)
  qed
qed

lemma rb_erase_color_ok: "\<lbrakk>rb_ok node; \<not> rb_is_red node; path_ok (Suc (bheight node)) path; path \<noteq> []; length path \<le> k\<rbrakk> \<Longrightarrow>
    fixed (rb_erase_color k node path) node path"
proof (induction k arbitrary: node path)
  case 0
  then show ?case by simp
next
  case (Suc k)
  then obtain p up where path: "path = p # up" by (cases path) auto
  have st: "step_ok (erase_step node p up) (Suc (bheight node)) (inorder (rb_zip node path)) up"
    using erase_step_ok [of node _ p up] Suc.prems path by simp
  then consider t where "erase_step node p up = Some (Inl t)"
    | node' where "erase_step node p up = Some (Inr (node', up))"
    by (auto simp: step_ok_def split: option.splits sum.splits)
  then show ?case
  proof cases
    case 1
    then show ?thesis using st path by (simp add: fixed_def step_ok_def)
  next
    case 2
    then have "fixed (rb_erase_color k node' up) node' up"
      using st Suc.prems path by (intro Suc.IH) (auto simp: step_ok_def)
    then show ?thesis using 2 st path by (simp add: fixed_def step_ok_def)
  qed
qed

lemma rebalance_ok: "path_ok (Suc 0) path \<Longrightarrow> fixed (rebalance path) Null path"
  using rb_erase_color_ok [of Null path "length path"] by (auto simp: rebalance_def fixed_def rb_tree_def)

text \<open>The successor's position below the right child, for any path above it.\<close>

lemma successor_append: "successor c l x r path = (sc, s, child, below) \<Longrightarrow>
    successor c l x r (path @ path') = (sc, s, child, below @ path')"
  by (induction c l x r path rule: successor.induct) auto

lemma successor_zip: "successor c l x r path = (sc, s, child, path') \<Longrightarrow>
    rb_zip (Node c l x r) path = rb_zip (Node sc Null s child) path' \<and>
    inorder (Node c l x r) @ after path = s # inorder child @ after path' \<and> before path' = before path"
  by (induction c l x r path rule: successor.induct) auto

text \<open>The element of an ancestor does not matter for the shape.\<close>

lemma path_ok_elem: "path_ok n (below @ OnRight c l s # path) = path_ok n (below @ OnRight c l x # path)"
proof (induction below arbitrary: n)
  case (Cons f below)
  have "frame_color (hd (below @ OnRight c l s # path)) = frame_color (hd (below @ OnRight c l x # path))"
    by (cases below) auto
  then show ?case by (cases f) (auto simp: Cons.IH)
qed simp

lemma before_after_append [simp]:
  "before (below @ path) = before path @ before below" "after (below @ path) = after below @ after path"
  by (induction below rule: before.induct) auto

text \<open>What erasing the node at a position must achieve.\<close>

definition erased :: "'a rb option \<Rightarrow> 'a list \<Rightarrow> bool" where
  "erased res xs = (\<exists>t. res = Some t \<and> rb_tree t \<and> inorder t = xs)"

lemma erased_zip: "\<lbrakk>rb_ok t; path_ok (bheight t) path; rb_is_red t \<Longrightarrow> path \<noteq> [] \<and> frame_color (hd path) = RB_BLACK;
    before path @ inorder t @ after path = xs\<rbrakk> \<Longrightarrow> erased (Some (rb_zip t path)) xs"
  by (auto simp: erased_def inorder_zip zip_ok)

lemma erased_rebalance: "\<lbrakk>path_ok (Suc 0) path; before path @ after path = xs\<rbrakk> \<Longrightarrow> erased (rebalance path) xs"
  using rebalance_ok [of path] by (auto simp: fixed_def erased_def inorder_zip)

text \<open>A child of height 0 is a red node without children.\<close>

lemma single_child: "\<lbrakk>rb_ok t; bheight t = 0\<rbrakk> \<Longrightarrow> t = Null \<or> (\<exists>x. t = Node RB_RED Null x Null)"
proof (cases t)
  case (Node c l x r)
  assume "rb_ok t" "bheight t = 0"
  then show ?thesis using Node by (cases l; cases r; auto split: if_splits)
qed simp

lemma rb_erase_two: "\<lbrakk>rb_tree (rb_zip (Node c l x r) path); l \<noteq> Null; r \<noteq> Null\<rbrakk> \<Longrightarrow>
    erased (rb_erase (Node c l x r) path) (before path @ inorder l @ inorder r @ after path)"
proof -
  assume ok: "rb_tree (rb_zip (Node c l x r) path)" and ne: "l \<noteq> Null" "r \<noteq> Null"
  obtain lc ll lx lr where l: "l = Node lc ll lx lr" using ne by (cases l) auto
  obtain rc rl rx rr where r: "r = Node rc rl rx rr" using ne by (cases r) auto
  obtain sc s ch below where suc: "successor rc rl rx rr [] = (sc, s, ch, below)" by (metis prod_cases4)
  note z = successor_zip [OF successor_append [OF suc, of "OnRight c l x # path"], simplified]
    and io = successor_zip [OF suc, simplified]
  have "rb_tree (rb_zip (Node sc Null s ch) (below @ OnRight c l x # path))" using ok z r by simp
  moreover define P where "P = below @ OnRight c l s # path"
  ultimately have ch: "rb_ok (Node sc Null s ch)" "path_ok (bheight (Node sc Null s ch)) P"
    by (auto simp: zip_iff path_ok_elem [of _ below c l s path x])
  have ord: "before P @ inorder ch @ after P = before path @ inorder l @ inorder r @ after path"
    using io r by (simp add: inorder_zip P_def)
  have res: "rb_erase (Node c l x r) path = (if ch \<noteq> Null then Some (rb_zip (rb_set_black ch) P)
      else if sc = RB_BLACK then rebalance P else Some (rb_zip Null P))"
    using suc l r by (simp add: rb_erase_def P_def Let_def)
  show ?thesis
  proof (cases "ch = Null")
    case True
    then show ?thesis using ch ord res by (auto intro!: erased_rebalance erased_zip)
  next
    case False
    then have "sc = RB_BLACK" "bheight (rb_set_black ch) = Suc 0" "rb_ok ch"
      using ch(1) by (cases ch; auto split: if_splits)+
    then show ?thesis using ch ord res False by (auto intro!: erased_zip)
  qed
qed

lemma rb_erase_ok: "rb_tree (rb_zip (Node c l x r) path) \<Longrightarrow>
    erased (rb_erase (Node c l x r) path) (before path @ inorder l @ inorder r @ after path)"
proof -
  assume ok: "rb_tree (rb_zip (Node c l x r) path)"
  have node: "rb_ok (Node c l x r)" "path_ok (bheight (Node c l x r)) path"
    "c = RB_RED \<Longrightarrow> path \<noteq> [] \<and> frame_color (hd path) = RB_BLACK"
    using ok by (auto simp: zip_iff)
  show ?thesis
  proof (cases "l = Null \<or> r = Null")
    case True
    have h: "rb_ok l" "rb_ok r" "bheight l = 0" "bheight r = 0" using True node(1) by auto
    consider "l = Null" "r = Null" | y where "l = Null" "r = Node RB_RED Null y Null"
      | y where "l = Node RB_RED Null y Null" "r = Null"
      using single_child [OF h(1,3)] single_child [OF h(2,4)] True by blast
    then show ?thesis
      using node by cases (auto simp: rb_erase_def intro!: erased_rebalance erased_zip)
  next
    case False
    then show ?thesis using rb_erase_two [OF ok] by simp
  qed
qed

subsection \<open>Iteration\<close>

lemma leftmost_spec: "t \<noteq> Null \<Longrightarrow> \<exists>c x r path'. leftmost t path = Some (Node c Null x r, path') \<and>
    x # inorder r @ after path' = inorder t @ after path"
  by (induction t path rule: leftmost.induct) auto

lemma next_up_none: "after path = [] \<Longrightarrow> next_up node path = None"
  by (induction node path rule: next_up.induct) auto

lemma next_up_some: "after path \<noteq> [] \<Longrightarrow> \<exists>c l x r path'. next_up node path = Some (Node c l x r, path') \<and>
    x # inorder r @ after path' = after path"
  by (induction node path rule: next_up.induct) auto

lemma rb_next_none: "after path = [] \<Longrightarrow> rb_next (Node c l x Null, path) = None"
  by (simp add: next_up_none)

lemma rb_next_some: "inorder r @ after path \<noteq> [] \<Longrightarrow>
    \<exists>c' l' x' r' path'. rb_next (Node c l x r, path) = Some (Node c' l' x' r', path') \<and>
      x' # inorder r' @ after path' = inorder r @ after path"
proof (cases r)
  case Null
  assume "inorder r @ after path \<noteq> []"
  then show ?thesis using next_up_some [of path "Node c l x Null"] Null by auto
next
  case (Node rc rl rx rr)
  then show ?thesis using leftmost_spec [of r "OnRight c l x # path"] by auto
qed

lemma length_inorder: "length (inorder t) = size t"
  by (induction t) simp_all

lemma rb_visit_from: "length (inorder r @ after path) < n \<Longrightarrow>
    rb_visit n (Some (Node c l x r, path)) = x # inorder r @ after path"
proof (induction n arbitrary: c l x r path)
  case (Suc n)
  show ?case
  proof (cases "inorder r @ after path = []")
    case True
    then have "r = Null" by (cases r) auto
    then show ?thesis using True rb_next_none [of path c l x] by (cases n) auto
  next
    case False
    then obtain c' l' x' r' path' where nx: "rb_next (Node c l x r, path) = Some (Node c' l' x' r', path')"
      "x' # inorder r' @ after path' = inorder r @ after path"
      using rb_next_some [of r path c l x] by blast
    moreover have "length (inorder r' @ after path') < n" using Suc.prems arg_cong [OF nx(2), of length] by simp
    ultimately show ?thesis using Suc.IH by simp
  qed
qed simp

lemma rb_visit_inorder: "length (inorder t) < n \<Longrightarrow> rb_visit n (rb_first t) = inorder t"
proof (cases "t = Null")
  case False
  assume n: "length (inorder t) < n"
  obtain c x r path' where fst: "rb_first t = Some (Node c Null x r, path')" "x # inorder r @ after path' = inorder t"
    using leftmost_spec [of t "[]"] False by (auto simp: rb_first_def)
  moreover have "length (inorder r @ after path') < n" using n unfolding fst(2) [symmetric] by simp
  ultimately show ?thesis using rb_visit_from [of r path' n c Null x] by simp
qed (cases n; simp add: rb_first_def)

section \<open>Height\<close>

fun rb_height :: "'a rb \<Rightarrow> nat" where
  "rb_height Null = 0"
| "rb_height (Node _ l _ r) = Suc (max (rb_height l) (rb_height r))"

lemma rb_height_le: "rb_ok t \<Longrightarrow> rb_height t \<le> 2 * bheight t + (if rb_is_red t then 1 else 0)"
proof (induction t)
  case (Node c l x r)
  then show ?case by (cases c) (auto split: if_splits)
qed simp

lemma size_ge_bheight: "rb_ok t \<Longrightarrow> 2 ^ bheight t \<le> Suc (size t)"
proof (induction t)
  case (Node c l x r)
  then have "2 ^ bheight l \<le> Suc (size l)" "2 ^ bheight l \<le> Suc (size r)" by auto
  then show ?case by auto
qed simp

section \<open>Properties\<close>

text \<open>Property C22: linking a new node below a leaf position of a red-black tree and calling
  \<open>rb_insert_color\<close> never follows a NULL pointer; the result is a red-black tree whose nodes, in order,
  are those before the position, the new one, and those after it.\<close>

theorem rb_insert_color_correct:
  assumes "rb_tree (rb_zip Null path)"
  shows "\<exists>t. rb_insert_color x path = Some t \<and> rb_tree t \<and> inorder t = before path @ x # after path"
  using rb_insert_ok [of Null x Null 0 path] assms
  by (auto simp: rb_insert_color_def fixed_def inorder_zip zip_iff)

theorem rb_insert_color_correct_witness:
  "rb_tree (rb_zip Null [OnRight RB_RED Null 5, OnRight RB_BLACK Null (3 :: nat)]) \<and>
   (\<exists>t. rb_insert_color 8 [OnRight RB_RED Null 5, OnRight RB_BLACK Null (3 :: nat)] = Some t \<and> rb_tree t \<and> inorder t = [3, 5, 8])"
  using rb_insert_color_correct [of "[OnRight RB_RED Null 5, OnRight RB_BLACK Null (3 :: nat)]" 8]
  by (simp add: rb_tree_def)

text \<open>Property C23: erasing a node of a red-black tree with \<open>rb_erase\<close>, wherever it stands, never follows a
  NULL pointer; the result is a red-black tree with the same nodes in the same order except that one.\<close>

theorem rb_erase_correct:
  assumes "rb_tree (rb_zip (Node c l x r) path)"
  shows "\<exists>t. rb_erase (Node c l x r) path = Some t \<and> rb_tree t \<and> inorder t = before path @ inorder l @ inorder r @ after path"
  using rb_erase_ok [OF assms] by (simp add: erased_def)

theorem rb_erase_correct_witness:
  "\<exists>t. rb_erase (Node RB_BLACK Null 3 Null) [OnLeft RB_BLACK 5 (Node RB_BLACK Null (8 :: nat) (Node RB_RED Null 9 Null))] = Some t \<and>
     rb_tree t \<and> inorder t = [5, 8, 9]"
  using rb_erase_correct [of RB_BLACK Null 3 Null "[OnLeft RB_BLACK 5 (Node RB_BLACK Null (8 :: nat) (Node RB_RED Null 9 Null))]"]
  by (simp add: rb_tree_def)

text \<open>Property C24: the loop \<open>for (node = rb_first(root); node; node = rb_next(node))\<close> ends, and visits
  every node of the tree exactly once, in order.\<close>

theorem rb_walk_complete: "rb_visit (Suc (size t) + n) (rb_first t) = inorder t"
  by (rule rb_visit_inorder) (simp add: length_inorder)

text \<open>A red-black tree is balanced: a search in a tree with n nodes makes at most
  2 log2 (n + 1) steps.\<close>

lemma rb_height_bound:
  assumes "rb_tree t"
  shows "2 ^ rb_height t \<le> (Suc (size t))\<^sup>2"
proof -
  have h: "rb_height t \<le> 2 * bheight t" and "2 ^ bheight t \<le> Suc (size t)"
    using assms rb_height_le [of t] size_ge_bheight [of t] by (auto simp: rb_tree_def)
  then have "(2 ^ bheight t)\<^sup>2 \<le> (Suc (size t))\<^sup>2" by (simp add: power_mono)
  moreover have "(2 :: nat) ^ rb_height t \<le> (2 ^ bheight t)\<^sup>2"
    using h by (simp add: power_mult [symmetric] mult.commute power_increasing)
  ultimately show ?thesis by (rule order_trans [rotated])
qed

end
