(* ===== verification/Ep_Db.thy ===== *)
theory Ep_Db
  imports Rbtree Dare_Prelude
begin

text \<open>
  The endpoint database (dare_ep_db.c): a red-black tree of client endpoints, ordered by their LID.
  The address handle of an endpoint belongs to the verbs library and is left out; \<open>None\<close> is a
  dereference of a NULL pointer inside the tree library.
\<close>

record dare_ep_t =
  ud_lid :: u16
  ud_gid :: "u8 list"
  ud_qpn :: u32
  last_read_request :: "u8 list"
  wait_for_idx :: u64
  last_req_id :: u64
  ep_cid_idx :: u64
  committed :: bool

type_synonym ep_db = "dare_ep_t rb"

fun ep_search :: "ep_db \<Rightarrow> u16 \<Rightarrow> dare_ep_t option" where
  "ep_search Null lid = None"
| "ep_search (Node _ l ep r) lid =
    (if lid < ud_lid ep then ep_search l lid else if lid > ud_lid ep then ep_search r lid else Some ep)"

text \<open>The descent of \<open>ep_insert\<close> and of the search in \<open>ep_erase\<close>: the position it ends at.\<close>

fun ep_descend :: "ep_db \<Rightarrow> u16 \<Rightarrow> dare_ep_t frame list \<Rightarrow> ep_db \<times> dare_ep_t frame list" where
  "ep_descend Null lid path = (Null, path)"
| "ep_descend (Node c l ep r) lid path =
    (if lid < ud_lid ep then ep_descend l lid (OnLeft c ep r # path)
     else if lid > ud_lid ep then ep_descend r lid (OnRight c l ep # path)
     else (Node c l ep r, path))"

text \<open>The fields \<open>malloc\<close> leaves uninitialised (the queue pair number and the request buffer) are
  arguments.\<close>

definition new_ep :: "u16 \<Rightarrow> u8 list \<Rightarrow> u32 \<Rightarrow> u8 list \<Rightarrow> dare_ep_t" where
  "new_ep lid gid qpn junk = \<lparr>ud_lid = lid, ud_gid = gid, ud_qpn = qpn, last_read_request = junk,
     wait_for_idx = 0, last_req_id = 0, ep_cid_idx = 0, committed = False\<rparr>"

definition ep_insert :: "ep_db \<Rightarrow> u16 \<Rightarrow> u8 list \<Rightarrow> u32 \<Rightarrow> u8 list \<Rightarrow> (dare_ep_t option \<times> ep_db) option" where
  "ep_insert root lid gid qpn junk =
    (case ep_descend root lid [] of
       (Null, path) \<Rightarrow> map_option (\<lambda>t. (Some (new_ep lid gid qpn junk), t)) (rb_insert_color (new_ep lid gid qpn junk) path)
     | _ \<Rightarrow> Some (None, root))"

definition ep_erase :: "ep_db \<Rightarrow> u16 \<Rightarrow> ep_db option" where
  "ep_erase root lid =
    (case ep_descend root lid [] of (Null, _) \<Rightarrow> Some root | (node, path) \<Rightarrow> rb_erase node path)"

text \<open>An assignment through the pointer a search returned.\<close>

definition ep_update :: "u16 \<Rightarrow> (dare_ep_t \<Rightarrow> dare_ep_t) \<Rightarrow> ep_db \<Rightarrow> ep_db" where
  "ep_update lid f root = map_rb (\<lambda>ep. if ud_lid ep = lid then f ep else ep) root"

definition ep_dp_reset_wait_idx :: "ep_db \<Rightarrow> ep_db" where
  "ep_dp_reset_wait_idx root = map_rb (\<lambda>ep. ep\<lparr>wait_for_idx := 0\<rparr>) root"

section \<open>The database as a map\<close>

definition lids :: "ep_db \<Rightarrow> u16 list" where
  "lids t = map ud_lid (inorder t)"

definition ep_inv :: "ep_db \<Rightarrow> bool" where
  "ep_inv t = (rb_tree t \<and> sorted_wrt (<) (lids t))"

definition ep_view :: "ep_db \<Rightarrow> u16 \<Rightarrow> dare_ep_t option" where
  "ep_view t lid = find (\<lambda>ep. ud_lid ep = lid) (inorder t)"

lemma find_append: "find P (xs @ ys) = (case find P xs of None \<Rightarrow> find P ys | Some x \<Rightarrow> Some x)"
  by (induction xs) auto

lemma find_drop: "\<not> P x \<Longrightarrow> find P (xs @ x # ys) = find P (xs @ ys)"
  by (induction xs) auto

lemma find_none_all: "(\<And>x. x \<in> set xs \<Longrightarrow> \<not> P x) \<Longrightarrow> find P xs = None"
  by (auto simp: find_None_iff)

lemma ep_search_view: "sorted_wrt (<) (lids t) \<Longrightarrow> ep_search t lid = ep_view t lid"
proof (induction t)
  case (Node c l ep r)
  then have "\<And>e. e \<in> set (inorder l) \<Longrightarrow> ud_lid e < ud_lid ep" "\<And>e. e \<in> set (inorder r) \<Longrightarrow> ud_lid ep < ud_lid e"
    "ep_search l lid = ep_view l lid" "ep_search r lid = ep_view r lid"
    by (auto simp: lids_def sorted_wrt_append)
  moreover have "find (\<lambda>e. ud_lid e = lid) (inorder l) = None" if "\<not> lid < ud_lid ep"
    using calculation(1) that by (intro find_none_all) auto
  moreover have "find (\<lambda>e. ud_lid e = lid) (inorder r) = None" if "\<not> ud_lid ep < lid"
    using calculation(2) that by (intro find_none_all) auto
  ultimately show ?case by (auto simp: ep_view_def find_append split: option.splits)
qed (simp add: ep_view_def)

text \<open>The position a descent ends at: the tree is the same, what comes before has smaller LIDs and what
  comes after larger ones.\<close>

definition around :: "u16 \<Rightarrow> dare_ep_t frame list \<Rightarrow> bool" where
  "around lid path = ((\<forall>e \<in> set (before path). ud_lid e < lid) \<and> (\<forall>e \<in> set (after path). lid < ud_lid e))"

lemma ep_descend_zip: "ep_descend t lid path = (n, path') \<Longrightarrow> rb_zip n path' = rb_zip t path"
  by (induction t lid path rule: ep_descend.induct) (auto split: if_splits)

lemma ep_descend_lid: "ep_descend t lid path = (Node c l ep r, path') \<Longrightarrow> ud_lid ep = lid"
  by (induction t lid path rule: ep_descend.induct) (auto split: if_splits)

lemma ep_descend_around: "\<lbrakk>ep_descend t lid path = (n, path'); around lid path; sorted_wrt (<) (lids t)\<rbrakk> \<Longrightarrow> around lid path'"
proof (induction t lid path rule: ep_descend.induct)
  case (2 c l ep r lid path)
  have srt: "sorted_wrt (<) (lids l)" "sorted_wrt (<) (lids r)"
    "\<And>e. e \<in> set (inorder l) \<Longrightarrow> ud_lid e < ud_lid ep" "\<And>e. e \<in> set (inorder r) \<Longrightarrow> ud_lid ep < ud_lid e"
    using 2(5) by (auto simp: lids_def sorted_wrt_append)
  consider "lid < ud_lid ep" | "ud_lid ep < lid" | "lid = ud_lid ep" by fastforce
  then show ?case
  proof cases
    case 1
    then have "around lid (OnLeft c ep r # path)"
      using 2(4) srt(4) order.strict_trans [OF 1] by (auto simp: around_def)
    then show ?thesis using 2(1,3) srt(1) 1 by simp
  next
    case 2
    then have "around lid (OnRight c l ep # path)"
      using \<open>around lid path\<close> srt(3) order.strict_trans [OF _ 2] by (auto simp: around_def)
    moreover have "\<not> lid < ud_lid ep" using 2 by simp
    ultimately show ?thesis using "2.IH"(2) "2.prems"(1) srt(2) 2 by simp
  qed (use 2 in simp)
qed simp

lemma lids_zip: "lids (rb_zip t path) = map ud_lid (before path) @ lids t @ map ud_lid (after path)"
  by (simp add: lids_def inorder_zip)

lemma view_around: "around lid path \<Longrightarrow> ep_view (rb_zip t path) lid = ep_view t lid"
proof -
  assume "around lid path"
  then have "find (\<lambda>e. ud_lid e = lid) (before path) = None" "find (\<lambda>e. ud_lid e = lid) (after path) = None"
    by (auto simp: around_def find_None_iff)
  then show ?thesis by (simp add: ep_view_def inorder_zip find_append split: option.splits)
qed

lemma ep_insert_new: "\<lbrakk>ep_inv t; ep_view t lid = None\<rbrakk> \<Longrightarrow>
    \<exists>t'. ep_insert t lid gid qpn junk = Some (Some (new_ep lid gid qpn junk), t') \<and> ep_inv t' \<and>
      ep_view t' = (ep_view t)(lid \<mapsto> new_ep lid gid qpn junk)"
proof -
  assume inv: "ep_inv t" and none: "ep_view t lid = None"
  obtain n path where d: "ep_descend t lid [] = (n, path)" by (cases "ep_descend t lid []")
  have z: "t = rb_zip n path" using ep_descend_zip [OF d] by simp
  have ar: "around lid path" using ep_descend_around [OF d] inv by (simp add: ep_inv_def around_def)
  have n: "n = Null"
  proof (cases n)
    case (Node c l ep r)
    then have "ud_lid ep = lid" using d ep_descend_lid by simp
    then have "ep_view n lid \<noteq> None" using Node by (auto simp: ep_view_def find_None_iff)
    then show ?thesis using view_around [OF ar, of n] z none by simp
  qed
  let ?e = "new_ep lid gid qpn junk"
  have "path_ok 0 path" using inv z n by (auto simp: ep_inv_def zip_iff)
  then obtain t' where t': "rb_insert_color ?e path = Some t'" "rb_tree t'" "inorder t' = before path @ ?e # after path"
    using rb_insert_ok [of Null ?e Null 0 path] by (auto simp: rb_insert_color_def fixed_def inorder_zip)
  have "sorted_wrt (<) (lids t')"
    using inv ar z n t'(3) by (auto simp: ep_inv_def lids_def inorder_zip sorted_wrt_append around_def new_ep_def)
  moreover have "ep_view t' u = ((ep_view t)(lid \<mapsto> ?e)) u" for u
  proof (cases "u = lid")
    case True
    have "find (\<lambda>e. ud_lid e = lid) (before path) = None" using ar by (intro find_none_all) (auto simp: around_def)
    then show ?thesis using True t'(3) by (simp add: ep_view_def find_append new_ep_def)
  next
    case False
    then show ?thesis
      using find_drop [of "\<lambda>e. ud_lid e = u" ?e "before path" "after path"] t'(3) z n
      by (simp add: ep_view_def inorder_zip new_ep_def)
  qed
  ultimately show ?thesis using d n t' by (auto simp: ep_insert_def ep_inv_def fun_eq_iff)
qed

lemma ep_insert_old: "\<lbrakk>ep_inv t; ep_view t lid = Some e\<rbrakk> \<Longrightarrow> ep_insert t lid gid qpn junk = Some (None, t)"
proof -
  assume inv: "ep_inv t" and some: "ep_view t lid = Some e"
  obtain n path where d: "ep_descend t lid [] = (n, path)" by (cases "ep_descend t lid []")
  have "around lid path" using ep_descend_around [OF d] inv by (simp add: ep_inv_def around_def)
  then have "ep_view n lid = Some e" using view_around [of lid path n] ep_descend_zip [OF d] some by simp
  then have "n \<noteq> Null" by (auto simp: ep_view_def)
  then show ?thesis using d by (auto simp: ep_insert_def split: rb.splits)
qed

lemma ep_erase_spec: "ep_inv t \<Longrightarrow> \<exists>t'. ep_erase t lid = Some t' \<and> ep_inv t' \<and> ep_view t' = (ep_view t)(lid := None)"
proof -
  assume inv: "ep_inv t"
  obtain n path where d: "ep_descend t lid [] = (n, path)" by (cases "ep_descend t lid []")
  have z: "t = rb_zip n path" using ep_descend_zip [OF d] by simp
  have ar: "around lid path" using ep_descend_around [OF d] inv by (simp add: ep_inv_def around_def)
  show ?thesis
  proof (cases n)
    case Null
    then have "ep_view t lid = None" using view_around [OF ar, of n] z by (simp add: ep_view_def)
    then show ?thesis using d Null inv by (auto simp: ep_erase_def fun_eq_iff)
  next
    case (Node c l ep r)
    have lid: "ud_lid ep = lid" using d Node ep_descend_lid by simp
    obtain t' where t': "rb_erase n path = Some t'" "rb_tree t'" "inorder t' = before path @ inorder l @ inorder r @ after path"
      using rb_erase_ok [of c l ep r path] inv z Node by (auto simp: ep_inv_def erased_def)
    have srt: "sorted_wrt (<) (map ud_lid (before path @ inorder l @ ep # inorder r @ after path))"
      using inv z Node by (simp add: ep_inv_def lids_def inorder_zip)
    then have "sorted_wrt (<) (lids t')" using t'(3) by (auto simp: lids_def sorted_wrt_append)
    moreover have "ep_view t' u = ((ep_view t)(lid := None)) u" for u
    proof (cases "u = lid")
      case True
      have "ud_lid e < ud_lid ep" if "e \<in> set (before path @ inorder l)" for e
        using srt that by (auto simp: sorted_wrt_append)
      moreover have "ud_lid ep < ud_lid e" if "e \<in> set (inorder r @ after path)" for e
        using srt that by (auto simp: sorted_wrt_append)
      ultimately have "ud_lid e \<noteq> lid" if "e \<in> set (inorder t')" for e
        using that unfolding t'(3) lid [symmetric] by fastforce
      then show ?thesis using True by (auto simp: ep_view_def find_None_iff)
    next
      case False
      then show ?thesis
        using find_drop [of "\<lambda>e. ud_lid e = u" ep "before path @ inorder l" "inorder r @ after path"] lid t'(3) z Node
        by (simp add: ep_view_def inorder_zip)
    qed
    ultimately show ?thesis using d Node t' by (auto simp: ep_erase_def ep_inv_def fun_eq_iff)
  qed
qed

section \<open>The contract of the database\<close>

text \<open>An insertion is allowed for an endpoint that is new and has the fields a new endpoint has.\<close>

definition ep_put :: "u16 \<Rightarrow> dare_ep_t \<Rightarrow> ep_db \<Rightarrow> ep_db" where
  "ep_put lid e t = snd (the (ep_insert t lid (ud_gid e) (ud_qpn e) (last_read_request e)))"

definition ep_ok :: "ep_db \<Rightarrow> u16 \<Rightarrow> dare_ep_t \<Rightarrow> bool" where
  "ep_ok t lid e = (e = new_ep lid (ud_gid e) (ud_qpn e) (last_read_request e) \<and> ep_search t lid = None)"

interpretation ep: map_impl "\<lambda>lid. lid" ep_search ep_put "\<lambda>lid t. the (ep_erase t lid)" ep_view ep_inv ep_ok
proof
  fix m :: ep_db and a v
  assume inv: "ep_inv m"
  show get: "ep_search m b = ep_view m b" for b using inv by (simp add: ep_inv_def ep_search_view)
  show "ep_view (the (ep_erase m a)) = (ep_view m)(a := None)" "ep_inv (the (ep_erase m a))"
    using ep_erase_spec [OF inv, of a] by auto
  assume ok: "ep_ok m a v"
  obtain t' where t': "ep_insert m a (ud_gid v) (ud_qpn v) (last_read_request v) = Some (Some v, t')"
      "ep_inv t'" "ep_view t' = (ep_view m)(a \<mapsto> v)"
    using ep_insert_new [OF inv, of a "ud_gid v" "ud_qpn v" "last_read_request v"] ok get [of a]
    unfolding ep_ok_def by metis
  show "ep_view (ep_put a v m) = (ep_view m)(a \<mapsto> v)" "ep_inv (ep_put a v m)" using t' by (simp_all add: ep_put_def)
qed

text \<open>Writing through the returned pointer keeps the order and the shape.\<close>

lemma inorder_map: "inorder (map_rb f t) = map f (inorder t)"
  by (induction t) auto

lemma shape_map [simp]: "rb_is_red (map_rb f t) = rb_is_red t" "bheight (map_rb f t) = bheight t" "rb_ok (map_rb f t) = rb_ok t"
proof -
  have red: "rb_is_red (map_rb f t) = rb_is_red t" for t by (cases t) auto
  have bh: "bheight (map_rb f t) = bheight t" for t by (induction t) auto
  show "rb_is_red (map_rb f t) = rb_is_red t" "bheight (map_rb f t) = bheight t" by (rule red, rule bh)
  show "rb_ok (map_rb f t) = rb_ok t" by (induction t) (simp_all add: red bh)
qed

lemma ep_inv_map: "(\<And>e. ud_lid (f e) = ud_lid e) \<Longrightarrow> ep_inv (map_rb f t) = ep_inv t"
  by (simp add: ep_inv_def rb_tree_def lids_def inorder_map comp_def)

lemma ep_inv_update: "(\<And>e. ud_lid (f e) = ud_lid e) \<Longrightarrow> ep_inv (ep_update lid f t) = ep_inv t"
  unfolding ep_update_def by (rule ep_inv_map) simp

lemma find_map: "find P (map f xs) = map_option f (find (P \<circ> f) xs)"
  by (induction xs) auto

lemma ep_view_update: "(\<And>e. ud_lid (f e) = ud_lid e) \<Longrightarrow>
    ep_view (ep_update lid f t) u = (if u = lid then map_option f (ep_view t u) else ep_view t u)"
proof -
  assume f: "\<And>e. ud_lid (f e) = ud_lid e"
  let ?g = "\<lambda>e. if ud_lid e = lid then f e else e"
  have "ep_view (ep_update lid f t) u = map_option ?g (ep_view t u)"
    by (simp add: ep_view_def ep_update_def inorder_map find_map comp_def f if_distrib [of ud_lid] cong: if_cong)
  moreover have "ud_lid e = u" if "ep_view t u = Some e" for e
    using that by (auto simp: ep_view_def find_Some_iff)
  ultimately show ?thesis by (cases "ep_view t u") auto
qed

lemma ep_inv_reset: "ep_inv (ep_dp_reset_wait_idx t) = ep_inv t"
  unfolding ep_dp_reset_wait_idx_def by (rule ep_inv_map) simp

text \<open>Property C20: inserting an endpoint.  In a well-formed database the insertion of a new LID
  succeeds, keeps the tree a red-black tree sorted by LID, and afterwards a search finds the new
  endpoint under its LID and every other endpoint as before; inserting a LID that is present returns
  NULL and changes nothing.\<close>

theorem ep_insert_correct:
  assumes "ep_inv t"
  shows "\<exists>e t'. ep_insert t lid gid qpn junk = Some (e, t') \<and> ep_inv t' \<and>
    (if ep_search t lid = None
     then e = Some (new_ep lid gid qpn junk) \<and>
       (\<forall>u. ep_search t' u = (if u = lid then Some (new_ep lid gid qpn junk) else ep_search t u))
     else e = None \<and> t' = t)"
proof (cases "ep_search t lid")
  case None
  then have n: "ep_view t lid = None" using ep.get_view [OF assms] by simp
  obtain t' where t': "ep_insert t lid gid qpn junk = Some (Some (new_ep lid gid qpn junk), t')" "ep_inv t'"
      "ep_view t' = (ep_view t)(lid \<mapsto> new_ep lid gid qpn junk)"
    using ep_insert_new [OF assms n] by blast
  then show ?thesis using None ep.get_view [OF assms] ep.get_view [OF t'(2)] by simp
next
  case (Some e)
  then have "ep_view t lid = Some e" using ep.get_view [OF assms] by simp
  then show ?thesis using Some assms ep_insert_old [OF assms] by simp
qed

theorem ep_insert_correct_witness:
  "\<exists>e t'. ep_insert (Node RB_BLACK Null (new_ep 4 [] 0 []) Null) 2 [] 7 [] = Some (e, t') \<and> ep_inv t' \<and>
     ep_search t' 2 = Some (new_ep 2 [] 7 []) \<and> ep_search t' 4 = Some (new_ep 4 [] 0 [])"
proof -
  let ?t = "Node RB_BLACK Null (new_ep 4 [] 0 []) Null"
  have "ep_inv ?t" by (simp add: ep_inv_def rb_tree_def lids_def)
  from ep_insert_correct [OF this, of 2 "[]" 7 "[]"] show ?thesis by (auto simp: new_ep_def)
qed

text \<open>Property C21: erasing a LID from a well-formed database succeeds, keeps it well-formed, and
  afterwards a search finds every endpoint except that one.\<close>

theorem ep_erase_correct:
  assumes "ep_inv t"
  shows "\<exists>t'. ep_erase t lid = Some t' \<and> ep_inv t' \<and> (\<forall>u. ep_search t' u = (if u = lid then None else ep_search t u))"
proof -
  obtain t' where t': "ep_erase t lid = Some t'" "ep_inv t'" "ep_view t' = (ep_view t)(lid := None)"
    using ep_erase_spec [OF assms] by blast
  then show ?thesis using ep.get_view [OF assms] ep.get_view [OF t'(2)] by simp
qed

theorem ep_erase_correct_witness:
  "\<exists>t'. ep_erase (Node RB_BLACK (Node RB_RED Null (new_ep 2 [] 0 []) Null) (new_ep 4 [] 0 []) (Node RB_RED Null (new_ep 9 [] 0 []) Null)) 4 = Some t' \<and>
     ep_inv t' \<and> ep_search t' 4 = None \<and> ep_search t' 9 = Some (new_ep 9 [] 0 [])"
proof -
  let ?t = "Node RB_BLACK (Node RB_RED Null (new_ep 2 [] 0 []) Null) (new_ep 4 [] 0 []) (Node RB_RED Null (new_ep 9 [] 0 []) Null)"
  have "ep_inv ?t" by (simp add: ep_inv_def rb_tree_def lids_def new_ep_def)
  from ep_erase_correct [OF this, of 4] show ?thesis by (auto simp: new_ep_def)
qed

end
