(* ===== verification/Ringbuf.thy ===== *)
theory Ringbuf
  imports Dare_Prelude
begin

text \<open>
  The byte ring buffer (utils/ringbuf/ringbuf.c): every operation with its assertions, the
  refinement to a byte queue, and the interface \<open>byte_queue\<close> that the packet buffers rely on.
  A pointer into the buffer is its distance from \<open>buf\<close>; a failed \<open>assert\<close> is the result
  \<open>Inl AssertFail\<close>, the return value 0 of a read of more bytes than there are is
  \<open>Inl NotEnough\<close> (the buffer is then unchanged).  The data that read(2) delivers to
  \<open>ringbuf_read\<close> and the number of bytes that write(2) accepts from \<open>ringbuf_write\<close> are arguments.
\<close>

datatype rb_error = AssertFail | NotEnough

record ringbuf_t =
  rb_buf :: memory
  rb_head :: nat
  rb_tail :: nat
  rb_size :: nat

section \<open>Operations\<close>

definition ringbuf_reset :: "ringbuf_t \<Rightarrow> ringbuf_t" where
  "ringbuf_reset rb = rb\<lparr>rb_head := 0, rb_tail := 0\<rparr>"

definition ringbuf_new :: "memory \<Rightarrow> nat \<Rightarrow> ringbuf_t" where
  "ringbuf_new heap capacity =
    ringbuf_reset \<lparr>rb_buf = heap, rb_head = 0, rb_tail = 0, rb_size = capacity + 1\<rparr>"

definition ringbuf_capacity :: "ringbuf_t \<Rightarrow> nat" where
  "ringbuf_capacity rb = rb_size rb - 1"

definition ringbuf_bytes_free :: "ringbuf_t \<Rightarrow> nat" where
  "ringbuf_bytes_free rb =
    (if rb_head rb \<ge> rb_tail rb then ringbuf_capacity rb - (rb_head rb - rb_tail rb)
     else rb_tail rb - rb_head rb - 1)"

definition ringbuf_bytes_used :: "ringbuf_t \<Rightarrow> nat" where
  "ringbuf_bytes_used rb = ringbuf_capacity rb - ringbuf_bytes_free rb"

definition ringbuf_is_full :: "ringbuf_t \<Rightarrow> bool" where
  "ringbuf_is_full rb = (ringbuf_bytes_free rb = 0)"

definition ringbuf_is_empty :: "ringbuf_t \<Rightarrow> bool" where
  "ringbuf_is_empty rb = (ringbuf_bytes_free rb = ringbuf_capacity rb)"

definition ringbuf_nextp :: "ringbuf_t \<Rightarrow> nat \<Rightarrow> nat option" where
  "ringbuf_nextp rb p = (if p < rb_size rb then Some ((p + 1) mod rb_size rb) else None)"

definition wrap_ptr :: "ringbuf_t \<Rightarrow> nat \<Rightarrow> nat" where
  "wrap_ptr rb p = (if p = rb_size rb then 0 else p)"

text \<open>The tail after a write that overwrote unread bytes.\<close>

definition fix_overflow :: "bool \<Rightarrow> ringbuf_t \<Rightarrow> rb_error + ringbuf_t" where
  "fix_overflow overflow rb =
    (if overflow
     then case ringbuf_nextp rb (rb_head rb) of
         None \<Rightarrow> Inl AssertFail
       | Some t \<Rightarrow> (let rb = rb\<lparr>rb_tail := t\<rparr> in if ringbuf_is_full rb then Inr rb else Inl AssertFail)
     else Inr rb)"

text \<open>The loop of \<open>ringbuf_memcpy_into\<close>, on the bytes still to copy.\<close>

function copy_in :: "ringbuf_t \<Rightarrow> u8 list \<Rightarrow> rb_error + ringbuf_t" where
  "copy_in rb src =
    (if src = [] then Inr rb
     else if \<not> rb_head rb < rb_size rb then Inl AssertFail
     else (let n = min (rb_size rb - rb_head rb) (length src) in
       copy_in (rb\<lparr>rb_buf := mem_write (rb_buf rb) (rb_head rb) (take n src),
                   rb_head := wrap_ptr rb (rb_head rb + n)\<rparr>) (drop n src)))"
  by pat_completeness auto
termination
  by (relation "measure (\<lambda>(rb, src). length src)") auto

definition ringbuf_memcpy_into :: "ringbuf_t \<Rightarrow> u8 list \<Rightarrow> rb_error + ringbuf_t" where
  "ringbuf_memcpy_into dst src =
    (let overflow = length src > ringbuf_bytes_free dst in
     case copy_in dst src of Inl e \<Rightarrow> Inl e | Inr rb \<Rightarrow> fix_overflow overflow rb)"

definition ringbuf_memset :: "ringbuf_t \<Rightarrow> u8 \<Rightarrow> nat \<Rightarrow> rb_error + (nat \<times> ringbuf_t)" where
  "ringbuf_memset dst c len =
    (let count = min len (rb_size dst);
         overflow = count > ringbuf_bytes_free dst in
     case copy_in dst (replicate count c) of Inl e \<Rightarrow> Inl e
     | Inr rb \<Rightarrow> (case fix_overflow overflow rb of Inl e \<Rightarrow> Inl e | Inr rb \<Rightarrow> Inr (count, rb)))"

function copy_out :: "ringbuf_t \<Rightarrow> nat \<Rightarrow> rb_error + (u8 list \<times> ringbuf_t)" where
  "copy_out rb count =
    (if count = 0 then Inr ([], rb)
     else if \<not> rb_tail rb < rb_size rb then Inl AssertFail
     else (let n = min (rb_size rb - rb_tail rb) count in
       case copy_out (rb\<lparr>rb_tail := wrap_ptr rb (rb_tail rb + n)\<rparr>) (count - n) of
         Inl e \<Rightarrow> Inl e
       | Inr (bs, rb') \<Rightarrow> Inr (mem_read (rb_buf rb) (rb_tail rb) n @ bs, rb')))"
  by pat_completeness auto
termination
  by (relation "measure snd") auto

definition ringbuf_memcpy_from :: "ringbuf_t \<Rightarrow> nat \<Rightarrow> rb_error + (u8 list \<times> ringbuf_t)" where
  "ringbuf_memcpy_from src count =
    (let bytes_used = ringbuf_bytes_used src in
     if count > bytes_used then Inl NotEnough
     else case copy_out src count of Inl e \<Rightarrow> Inl e
       | Inr (bs, rb) \<Rightarrow> if count + ringbuf_bytes_used rb = bytes_used then Inr (bs, rb) else Inl AssertFail)"

definition ringbuf_read :: "u8 list option \<Rightarrow> ringbuf_t \<Rightarrow> nat \<Rightarrow> rb_error + (int \<times> ringbuf_t)" where
  "ringbuf_read input rb count =
    (let nfree = ringbuf_bytes_free rb in
     if \<not> rb_head rb < rb_size rb then Inl AssertFail
     else case input of
       None \<Rightarrow> Inr (-1, rb)
     | Some bs \<Rightarrow>
        (let got = take (min (rb_size rb - rb_head rb) count) bs; n = length got in
         if n = 0 then Inr (0, rb)
         else (let rb = rb\<lparr>rb_buf := mem_write (rb_buf rb) (rb_head rb) got,
                          rb_head := wrap_ptr rb (rb_head rb + n)\<rparr> in
           case fix_overflow (n > nfree) rb of Inl e \<Rightarrow> Inl e | Inr rb \<Rightarrow> Inr (int n, rb))))"

definition ringbuf_write :: "nat option \<Rightarrow> ringbuf_t \<Rightarrow> nat \<Rightarrow> rb_error + (u8 list \<times> int \<times> ringbuf_t)" where
  "ringbuf_write accept rb count =
    (let bytes_used = ringbuf_bytes_used rb in
     if count > bytes_used then Inl NotEnough
     else if \<not> rb_head rb < rb_size rb then Inl AssertFail
     else case accept of
       None \<Rightarrow> Inr ([], -1, rb)
     | Some k \<Rightarrow>
        (let count = min (rb_size rb - rb_tail rb) count; n = min k count in
         if n = 0 then Inr ([], 0, rb)
         else (let rb' = rb\<lparr>rb_tail := wrap_ptr rb (rb_tail rb + n)\<rparr> in
           if n + ringbuf_bytes_used rb' = bytes_used
           then Inr (mem_read (rb_buf rb) (rb_tail rb) n, int n, rb') else Inl AssertFail)))"

function copy_ring :: "ringbuf_t \<Rightarrow> ringbuf_t \<Rightarrow> nat \<Rightarrow> rb_error + (ringbuf_t \<times> ringbuf_t)" where
  "copy_ring dst src count =
    (if count = 0 then Inr (dst, src)
     else if \<not> rb_tail src < rb_size src \<or> \<not> rb_head dst < rb_size dst then Inl AssertFail
     else (let n = min (rb_size dst - rb_head dst) (min (rb_size src - rb_tail src) count) in
       copy_ring
         (dst\<lparr>rb_buf := mem_write (rb_buf dst) (rb_head dst) (mem_read (rb_buf src) (rb_tail src) n),
              rb_head := wrap_ptr dst (rb_head dst + n)\<rparr>)
         (src\<lparr>rb_tail := wrap_ptr src (rb_tail src + n)\<rparr>) (count - n)))"
  by pat_completeness auto
termination
  by (relation "measure (\<lambda>(d, s, n). n)") auto

definition ringbuf_copy :: "ringbuf_t \<Rightarrow> ringbuf_t \<Rightarrow> nat \<Rightarrow> rb_error + (ringbuf_t \<times> ringbuf_t)" where
  "ringbuf_copy dst src count =
    (let src_bytes_used = ringbuf_bytes_used src in
     if count > src_bytes_used then Inl NotEnough
     else (let overflow = count > ringbuf_bytes_free dst in
       case copy_ring dst src count of Inl e \<Rightarrow> Inl e
       | Inr (dst, src) \<Rightarrow>
          if count + ringbuf_bytes_used src \<noteq> src_bytes_used then Inl AssertFail
          else (case fix_overflow overflow dst of Inl e \<Rightarrow> Inl e | Inr dst \<Rightarrow> Inr (dst, src))))"

text \<open>memchr on the bytes from \<open>start\<close>: the distance of the first match.\<close>

fun memchr :: "u8 list \<Rightarrow> u8 \<Rightarrow> nat option" where
  "memchr [] c = None"
| "memchr (b # bs) c = (if b = c then Some 0 else map_option Suc (memchr bs c))"

function ringbuf_findchr :: "ringbuf_t \<Rightarrow> u8 \<Rightarrow> nat \<Rightarrow> nat option" where
  "ringbuf_findchr rb c offset =
    (let bytes_used = ringbuf_bytes_used rb in
     if offset \<ge> bytes_used then Some bytes_used
     else (let start = (rb_tail rb + offset) mod rb_size rb in
       if \<not> start < rb_size rb then None
       else (let n = min (rb_size rb - start) (bytes_used - offset) in
         case memchr (mem_read (rb_buf rb) start n) c of
           Some found \<Rightarrow> Some (offset + found)
         | None \<Rightarrow> ringbuf_findchr rb c (offset + n))))"
  by pat_completeness auto
termination
  by (relation "measure (\<lambda>(rb, c, offset). ringbuf_bytes_used rb - offset)") auto

declare copy_in.simps [simp del] copy_out.simps [simp del] copy_ring.simps [simp del] ringbuf_findchr.simps [simp del]

section \<open>The byte queue a ring buffer stands for\<close>

definition rb_inv :: "ringbuf_t \<Rightarrow> bool" where
  "rb_inv rb = (rb_head rb < rb_size rb \<and> rb_tail rb < rb_size rb)"

definition rb_range :: "ringbuf_t \<Rightarrow> nat \<Rightarrow> nat \<Rightarrow> u8 list" where
  "rb_range rb a n = map (\<lambda>i. rb_buf rb ((a + i) mod rb_size rb)) [0..<n]"

definition rb_list :: "ringbuf_t \<Rightarrow> u8 list" where
  "rb_list rb = rb_range rb (rb_tail rb) (ringbuf_bytes_used rb)"

definition lastn :: "nat \<Rightarrow> 'a list \<Rightarrow> 'a list" where
  "lastn n xs = drop (length xs - n) xs"

lemma length_rb_range [simp]: "length (rb_range rb a n) = n"
  by (simp add: rb_range_def)

lemma length_rb_list [simp]: "length (rb_list rb) = ringbuf_bytes_used rb"
  by (simp add: rb_list_def)

lemma nth_rb_range: "i < n \<Longrightarrow> rb_range rb a n ! i = rb_buf rb ((a + i) mod rb_size rb)"
  by (simp add: rb_range_def)

lemma rb_range_append: "rb_range rb a (m + n) = rb_range rb a m @ rb_range rb ((a + m) mod rb_size rb) n"
  by (rule nth_equalityI) (auto simp: nth_append nth_rb_range mod_step')

lemma rb_range_take: "m \<le> n \<Longrightarrow> take m (rb_range rb a n) = rb_range rb a m"
  by (rule nth_equalityI) (auto simp: nth_rb_range)

lemma rb_range_drop: "m \<le> n \<Longrightarrow> drop m (rb_range rb a n) = rb_range rb ((a + m) mod rb_size rb) (n - m)"
  by (rule nth_equalityI) (auto simp: nth_rb_range mod_add_left_eq add.assoc)

lemma rb_range_contiguous: "a + n \<le> rb_size rb \<Longrightarrow> rb_range rb a n = mem_read (rb_buf rb) a n"
  by (rule nth_equalityI) (auto simp: nth_rb_range)

lemma bytes_used_alt: "rb_inv rb \<Longrightarrow>
    ringbuf_bytes_used rb = (if rb_tail rb \<le> rb_head rb then rb_head rb - rb_tail rb else rb_size rb - (rb_tail rb - rb_head rb))"
  by (auto simp: rb_inv_def ringbuf_bytes_used_def ringbuf_bytes_free_def ringbuf_capacity_def)

lemma bytes_used_free: "rb_inv rb \<Longrightarrow> ringbuf_bytes_used rb + ringbuf_bytes_free rb = ringbuf_capacity rb"
  by (auto simp: rb_inv_def ringbuf_bytes_used_def ringbuf_bytes_free_def ringbuf_capacity_def)

lemma head_eq_tail_used: "rb_inv rb \<Longrightarrow> rb_head rb = (rb_tail rb + ringbuf_bytes_used rb) mod rb_size rb"
  by (auto simp: bytes_used_alt rb_inv_def mod_if)

lemma bytes_used_eqI: "rb_inv rb \<Longrightarrow> u < rb_size rb \<Longrightarrow> rb_head rb = (rb_tail rb + u) mod rb_size rb \<Longrightarrow> ringbuf_bytes_used rb = u"
  by (auto simp: bytes_used_alt rb_inv_def mod_if split: if_splits)

lemma wrap_ptr_mod: "p \<le> rb_size rb \<Longrightarrow> 0 < rb_size rb \<Longrightarrow> wrap_ptr rb p = p mod rb_size rb"
  by (auto simp: wrap_ptr_def)

subsection \<open>Reading\<close>

lemma copy_out_eq: "rb_inv rb \<Longrightarrow>
    copy_out rb n = Inr (rb_range rb (rb_tail rb) n, rb\<lparr>rb_tail := (rb_tail rb + n) mod rb_size rb\<rparr>)"
proof (induction rb n rule: copy_out.induct)
  case (1 rb n)
  show ?case
  proof (cases "n = 0")
    case True
    then show ?thesis using 1(2) by (simp add: copy_out.simps [of rb] rb_range_def rb_inv_def)
  next
    case False
    let ?k = "min (rb_size rb - rb_tail rb) n"
    let ?rb = "rb\<lparr>rb_tail := wrap_ptr rb (rb_tail rb + ?k)\<rparr>"
    have t: "rb_tail rb < rb_size rb" using 1(2) by (simp add: rb_inv_def)
    have w: "wrap_ptr rb (rb_tail rb + ?k) = (rb_tail rb + ?k) mod rb_size rb"
      using t by (intro wrap_ptr_mod) auto
    have "rb_inv ?rb" using 1(2) by (simp add: rb_inv_def w)
    then have IH: "copy_out ?rb (n - ?k) =
        Inr (rb_range ?rb (rb_tail ?rb) (n - ?k), ?rb\<lparr>rb_tail := (rb_tail ?rb + (n - ?k)) mod rb_size ?rb\<rparr>)"
      using 1(1) [OF False] t by simp
    have "rb_range rb (rb_tail rb) n = mem_read (rb_buf rb) (rb_tail rb) ?k @ rb_range ?rb (rb_tail ?rb) (n - ?k)"
      using rb_range_append [of rb "rb_tail rb" ?k "n - ?k"] rb_range_contiguous [of "rb_tail rb" ?k rb] w t
      by (simp add: rb_range_def)
    then show ?thesis
      using False t IH w by (simp add: copy_out.simps [of rb] Let_def mod_step')
  qed
qed

lemma memcpy_from_eq:
  assumes inv: "rb_inv rb" and n: "n \<le> ringbuf_bytes_used rb"
  shows "\<exists>rb'. ringbuf_memcpy_from rb n = Inr (take n (rb_list rb), rb') \<and> rb_inv rb' \<and>
    rb_list rb' = drop n (rb_list rb) \<and> rb_size rb' = rb_size rb"
proof -
  let ?rb = "rb\<lparr>rb_tail := (rb_tail rb + n) mod rb_size rb\<rparr>"
  have inv': "rb_inv ?rb" using inv by (auto simp: rb_inv_def)
  have "ringbuf_bytes_used ?rb = ringbuf_bytes_used rb - n"
  proof (rule bytes_used_eqI [OF inv'])
    show "ringbuf_bytes_used rb - n < rb_size ?rb"
      using inv by (auto simp: bytes_used_alt rb_inv_def)
    show "rb_head ?rb = (rb_tail ?rb + (ringbuf_bytes_used rb - n)) mod rb_size ?rb"
      using head_eq_tail_used [OF inv] n by (simp add: mod_step')
  qed
  moreover have "rb_list ?rb = drop n (rb_list rb)" if "ringbuf_bytes_used ?rb = ringbuf_bytes_used rb - n"
    using that n rb_range_drop [OF n, of rb "rb_tail rb"] by (simp add: rb_list_def rb_range_def)
  ultimately show ?thesis
    using inv inv' n copy_out_eq [OF inv, of n] rb_range_take [OF n, of rb "rb_tail rb"]
    by (auto simp: ringbuf_memcpy_from_def Let_def rb_list_def)
qed

subsection \<open>Writing\<close>

definition put1 :: "ringbuf_t \<Rightarrow> u8 \<Rightarrow> ringbuf_t" where
  "put1 rb b = rb\<lparr>rb_buf := (rb_buf rb)(rb_head rb := b), rb_head := (rb_head rb + 1) mod rb_size rb\<rparr>"

lemma put1_sel [simp]: "rb_size (put1 rb b) = rb_size rb" "rb_tail (put1 rb b) = rb_tail rb"
  "rb_head (put1 rb b) = (rb_head rb + 1) mod rb_size rb"
  by (simp_all add: put1_def)

lemma foldl_put1_sel [simp]: "rb_size (foldl put1 rb bs) = rb_size rb" "rb_tail (foldl put1 rb bs) = rb_tail rb"
  by (induction bs arbitrary: rb) simp_all

lemma foldl_put1_head: "rb_head rb < rb_size rb \<Longrightarrow> rb_head (foldl put1 rb bs) = (rb_head rb + length bs) mod rb_size rb"
proof (induction bs arbitrary: rb)
  case (Cons b bs)
  then have "rb_head (put1 rb b) < rb_size (put1 rb b)" by simp
  from Cons.IH [OF this] show ?case by (simp add: mod_simps)
qed simp

lemma mem_write_Cons: "mem_write m a (b # bs) = mem_write (m(a := b)) (a + 1) bs"
  by (rule ext) (auto simp: mem_write_def nth_Cons' )

lemma foldl_put1_contiguous:
  "bs \<noteq> [] \<Longrightarrow> rb_head rb + length bs \<le> rb_size rb \<Longrightarrow>
    foldl put1 rb bs = rb\<lparr>rb_buf := mem_write (rb_buf rb) (rb_head rb) bs, rb_head := (rb_head rb + length bs) mod rb_size rb\<rparr>"
proof (induction bs arbitrary: rb)
  case (Cons b bs)
  show ?case
  proof (cases "bs = []")
    case True
    then show ?thesis by (simp add: put1_def mem_write_Cons fun_upd_def)
  next
    case False
    then have "rb_head (put1 rb b) = rb_head rb + 1" using Cons.prems by (cases bs) auto
    then show ?thesis
      using Cons.IH [OF False, of "put1 rb b"] Cons.prems by (simp add: put1_def mem_write_Cons fun_upd_def)
  qed
qed simp

lemma copy_in_eq: "rb_inv rb \<Longrightarrow> copy_in rb src = Inr (foldl put1 rb src)"
proof (induction rb src rule: copy_in.induct)
  case (1 rb src)
  show ?case
  proof (cases "src = []")
    case True
    then show ?thesis by (simp add: copy_in.simps)
  next
    case False
    let ?n = "min (rb_size rb - rb_head rb) (length src)"
    let ?rb = "rb\<lparr>rb_buf := mem_write (rb_buf rb) (rb_head rb) (take ?n src), rb_head := wrap_ptr rb (rb_head rb + ?n)\<rparr>"
    have h: "rb_head rb < rb_size rb" using 1(2) by (simp add: rb_inv_def)
    have w: "wrap_ptr rb (rb_head rb + ?n) = (rb_head rb + ?n) mod rb_size rb"
      using h by (intro wrap_ptr_mod) auto
    have rb: "?rb = foldl put1 rb (take ?n src)"
      using False h foldl_put1_contiguous [of "take ?n src" rb] w by (auto simp: min_def split: if_splits)
    have "rb_inv ?rb" using 1(2) by (simp add: rb_inv_def w)
    then have "copy_in ?rb (drop ?n src) = Inr (foldl put1 ?rb (drop ?n src))"
      using 1(1) [OF False] h by simp
    also have "foldl put1 ?rb (drop ?n src) = foldl put1 rb src"
      unfolding rb by (simp flip: foldl_append)
    finally show ?thesis
      using False h by (simp add: copy_in.simps [of rb] Let_def)
  qed
qed

text \<open>The k bytes written last, oldest first.\<close>

definition recent :: "ringbuf_t \<Rightarrow> nat \<Rightarrow> u8 list" where
  "recent rb k = rb_range rb ((rb_head rb + rb_size rb - k) mod rb_size rb) k"

lemma length_recent [simp]: "length (recent rb k) = k"
  by (simp add: recent_def)

lemma rb_list_recent: "rb_inv rb \<Longrightarrow> rb_list rb = recent rb (ringbuf_bytes_used rb)"
  unfolding rb_list_def recent_def
  by (rule arg_cong [where f="\<lambda>a. rb_range rb a _"]) (auto simp: bytes_used_alt rb_inv_def mod_if)

lemma nth_recent: "k \<le> rb_size rb \<Longrightarrow> i < k \<Longrightarrow>
    recent rb k ! i = rb_buf rb ((rb_head rb + rb_size rb - (k - i)) mod rb_size rb)"
  by (simp add: recent_def nth_rb_range mod_add_left_eq)

lemma mod_neq: "0 < j \<Longrightarrow> j < s \<Longrightarrow> h < s \<Longrightarrow> (h + s - j) mod s \<noteq> (h::nat)"
  by (auto simp: mod_if split: if_splits)

lemma recent_put1:
  assumes "rb_head rb < rb_size rb" "k < rb_size rb"
  shows "recent (put1 rb b) (Suc k) = recent rb k @ [b]"
proof (rule nth_equalityI)
  fix i assume "i < length (recent (put1 rb b) (Suc k))"
  then have i: "i \<le> k" by simp
  let ?s = "rb_size rb" and ?h = "rb_head rb"
  have "((?h + 1) mod ?s + ?s - (Suc k - i)) mod ?s = (?h + ?s - (k - i)) mod ?s"
    using assms i by (cases "?h + 1 = ?s") (auto simp: Suc_diff_le mod_if)
  then have "recent (put1 rb b) (Suc k) ! i = ((rb_buf rb)(?h := b)) ((?h + ?s - (k - i)) mod ?s)"
    using assms i by (subst nth_recent) (simp_all add: put1_def)
  moreover have "i < k \<Longrightarrow> (?h + ?s - (k - i)) mod ?s \<noteq> ?h"
    using mod_neq [of "k - i" ?s ?h] assms by auto
  ultimately show "recent (put1 rb b) (Suc k) ! i = (recent rb k @ [b]) ! i"
    using i assms by (cases "i = k") (auto simp: nth_append nth_recent)
qed simp

lemma recent_tl: "k < rb_size rb \<Longrightarrow> recent rb k = tl (recent rb (Suc k))"
  by (rule nth_equalityI) (auto simp: nth_tl nth_recent)

lemma lastn_tl: "xs \<noteq> [] \<Longrightarrow> j < length xs + length bs \<Longrightarrow> lastn j (tl xs @ bs) = lastn j (xs @ bs)"
  by (cases xs) (simp_all add: lastn_def Suc_diff_le)

lemma recent_foldl:
  "rb_head rb < rb_size rb \<Longrightarrow> k < rb_size rb \<Longrightarrow> j < rb_size rb \<Longrightarrow> j \<le> k + length bs \<Longrightarrow>
    recent (foldl put1 rb bs) j = lastn j (recent rb k @ bs)"
proof (induction bs arbitrary: rb k)
  case Nil
  then show ?case by (intro nth_equalityI) (auto simp: lastn_def nth_recent)
next
  case (Cons b bs)
  have h: "rb_head (put1 rb b) < rb_size (put1 rb b)" using Cons.prems by simp
  show ?case
  proof (cases "Suc k < rb_size rb")
    case True
    then show ?thesis
      using Cons.IH [OF h, of "Suc k"] recent_put1 [of rb k b] Cons.prems by simp
  next
    case False
    then have k: "Suc k = rb_size rb" using Cons.prems by simp
    have "recent (put1 rb b) k = tl (recent rb k @ [b])"
      using recent_tl [of k "put1 rb b"] recent_put1 [of rb k b] Cons.prems k by simp
    then have "recent (foldl put1 rb (b # bs)) j = lastn j (tl (recent rb k @ [b]) @ bs)"
      using Cons.IH [OF h, of k] Cons.prems k by simp
    also have "\<dots> = lastn j (recent rb k @ b # bs)"
      using Cons.prems k lastn_tl [of "recent rb k @ [b]" j bs] by simp
    finally show ?thesis .
  qed
qed

lemma recent_tail_upd [simp]: "recent (rb\<lparr>rb_tail := t\<rparr>) k = recent rb k"
  by (simp add: recent_def rb_range_def)

lemma memcpy_into_eq:
  assumes inv: "rb_inv rb"
  shows "\<exists>rb'. ringbuf_memcpy_into rb bs = Inr rb' \<and> rb_inv rb' \<and> rb_size rb' = rb_size rb \<and>
    rb_list rb' = lastn (ringbuf_capacity rb) (rb_list rb @ bs)"
proof -
  let ?rb = "foldl put1 rb bs" and ?s = "rb_size rb"
  have h: "rb_head rb < ?s" "rb_tail rb < ?s" using inv by (simp_all add: rb_inv_def)
  have head: "rb_head ?rb = (rb_head rb + length bs) mod ?s" using h by (simp add: foldl_put1_head)
  have inv1: "rb_inv ?rb" using h head by (simp add: rb_inv_def)
  have used: "ringbuf_bytes_used rb < ?s" using inv by (auto simp: bytes_used_alt rb_inv_def)
  note UF = bytes_used_free [OF inv]
  show ?thesis
  proof (cases "length bs > ringbuf_bytes_free rb")
    case True
    let ?t = "(rb_head ?rb + 1) mod ?s" let ?rb' = "?rb\<lparr>rb_tail := ?t\<rparr>"
    have inv': "rb_inv ?rb'" using inv1 h by (simp add: rb_inv_def)
    have free: "ringbuf_bytes_free ?rb' = 0"
      using inv1 h by (auto simp: rb_inv_def ringbuf_bytes_free_def ringbuf_capacity_def mod_if)
    have u: "ringbuf_bytes_used ?rb' = ringbuf_capacity rb"
      using bytes_used_free [OF inv'] free by (simp add: ringbuf_capacity_def)
    have "rb_list ?rb' = recent ?rb (ringbuf_capacity rb)"
      using rb_list_recent [OF inv'] u by simp
    also have "\<dots> = lastn (ringbuf_capacity rb) (recent rb (ringbuf_bytes_used rb) @ bs)"
      using True UF h used by (intro recent_foldl) (auto simp: ringbuf_capacity_def)
    finally show ?thesis
      using True inv1 inv' free rb_list_recent [OF inv] copy_in_eq [OF inv, of bs]
      by (intro exI [of _ ?rb']) (simp add: ringbuf_memcpy_into_def fix_overflow_def ringbuf_nextp_def ringbuf_is_full_def rb_inv_def Let_def)
  next
    case False
    have "ringbuf_bytes_used ?rb = ringbuf_bytes_used rb + length bs"
    proof (rule bytes_used_eqI [OF inv1])
      show "ringbuf_bytes_used rb + length bs < rb_size ?rb" using False UF h by (simp add: ringbuf_capacity_def)
      show "rb_head ?rb = (rb_tail ?rb + (ringbuf_bytes_used rb + length bs)) mod rb_size ?rb"
        using head head_eq_tail_used [OF inv] by (metis add.assoc foldl_put1_sel mod_add_left_eq)
    qed
    then have "rb_list ?rb = recent ?rb (ringbuf_bytes_used rb + length bs)"
      using rb_list_recent [OF inv1] by simp
    also have "\<dots> = lastn (ringbuf_bytes_used rb + length bs) (recent rb (ringbuf_bytes_used rb) @ bs)"
      using False UF h used by (intro recent_foldl) (auto simp: ringbuf_capacity_def)
    also have "\<dots> = lastn (ringbuf_capacity rb) (rb_list rb @ bs)"
      using False UF rb_list_recent [OF inv] by (simp add: lastn_def)
    finally show ?thesis
      using False inv1 copy_in_eq [OF inv, of bs]
      by (intro exI [of _ ?rb]) (simp add: ringbuf_memcpy_into_def fix_overflow_def Let_def)
  qed
qed

lemma memcpy_from_short: "n > ringbuf_bytes_used rb \<Longrightarrow> ringbuf_memcpy_from rb n = Inl NotEnough"
  by (simp add: ringbuf_memcpy_from_def)

subsection \<open>The interface of a bounded byte queue\<close>

text \<open>What the packet buffers rely on: bytes come out in the order they went in, as long as the
  writer keeps within the capacity.\<close>

locale byte_queue =
  fixes put :: "'q \<Rightarrow> u8 list \<Rightarrow> rb_error + 'q" and get :: "'q \<Rightarrow> nat \<Rightarrow> rb_error + (u8 list \<times> 'q)"
    and contents :: "'q \<Rightarrow> u8 list" and cap :: "'q \<Rightarrow> nat" and ok :: "'q \<Rightarrow> bool"
  assumes put_ok: "ok q \<Longrightarrow> length (contents q) + length bs \<le> cap q \<Longrightarrow>
      \<exists>q'. put q bs = Inr q' \<and> ok q' \<and> cap q' = cap q \<and> contents q' = contents q @ bs"
    and get_ok: "ok q \<Longrightarrow> n \<le> length (contents q) \<Longrightarrow>
      \<exists>q'. get q n = Inr (take n (contents q), q') \<and> ok q' \<and> cap q' = cap q \<and> contents q' = drop n (contents q)"
    and get_short: "ok q \<Longrightarrow> length (contents q) < n \<Longrightarrow> get q n = Inl NotEnough"
begin

lemma put_putE:
  assumes "ok q" "length (contents q) + length as + length bs \<le> cap q"
  obtains q1 q2 where "put q as = Inr q1" "put q1 bs = Inr q2" "ok q2" "cap q2 = cap q" "contents q2 = contents q @ as @ bs"
proof -
  obtain q1 where 1: "put q as = Inr q1" "ok q1" "cap q1 = cap q" "contents q1 = contents q @ as"
    using put_ok [OF assms(1), of as] assms(2) by auto
  obtain q2 where 2: "put q1 bs = Inr q2" "ok q2" "cap q2 = cap q1" "contents q2 = contents q1 @ bs"
    using put_ok [OF 1(2), of bs] assms(2) 1 by auto
  show ?thesis using that [OF 1(1) 2(1,2)] 1 2 by simp
qed

lemma get_prefixE:
  assumes "ok q" "contents q = as @ rest"
  obtains q1 where "get q (length as) = Inr (as, q1)" "ok q1" "cap q1 = cap q" "contents q1 = rest"
  using get_ok [OF assms(1), of "length as"] assms(2) by auto

end

interpretation rbq: byte_queue ringbuf_memcpy_into ringbuf_memcpy_from rb_list ringbuf_capacity rb_inv
proof
  fix q :: ringbuf_t and bs :: "u8 list"
  assume "rb_inv q" "length (rb_list q) + length bs \<le> ringbuf_capacity q"
  then show "\<exists>q'. ringbuf_memcpy_into q bs = Inr q' \<and> rb_inv q' \<and> ringbuf_capacity q' = ringbuf_capacity q \<and> rb_list q' = rb_list q @ bs"
    using memcpy_into_eq [of q bs] by (auto simp: lastn_def ringbuf_capacity_def)
next
  fix q :: ringbuf_t and n :: nat
  assume "rb_inv q" "n \<le> length (rb_list q)"
  then show "\<exists>q'. ringbuf_memcpy_from q n = Inr (take n (rb_list q), q') \<and> rb_inv q' \<and> ringbuf_capacity q' = ringbuf_capacity q \<and>
      rb_list q' = drop n (rb_list q)"
    using memcpy_from_eq [of q n] by (auto simp: ringbuf_capacity_def)
qed (simp add: memcpy_from_short)

subsection \<open>Copying between buffers and searching\<close>

lemma foldl_put1_take:
  assumes "rb_head dst < rb_size dst" "0 < n" "rb_head dst + n \<le> rb_size dst" "length bs = n"
  shows "dst\<lparr>rb_buf := mem_write (rb_buf dst) (rb_head dst) bs, rb_head := wrap_ptr dst (rb_head dst + n)\<rparr> = foldl put1 dst bs"
  using assms foldl_put1_contiguous [of bs dst] wrap_ptr_mod [of "rb_head dst + n" dst] by auto

lemma copy_ring_eq: "rb_inv dst \<Longrightarrow> rb_inv src \<Longrightarrow> copy_ring dst src n =
    Inr (foldl put1 dst (rb_range src (rb_tail src) n), src\<lparr>rb_tail := (rb_tail src + n) mod rb_size src\<rparr>)"
proof (induction dst src n rule: copy_ring.induct)
  case (1 dst src n)
  show ?case
  proof (cases "n = 0")
    case True
    then show ?thesis using 1(3) by (simp add: copy_ring.simps [of dst] rb_range_def rb_inv_def)
  next
    case False
    define k where "k = min (rb_size dst - rb_head dst) (min (rb_size src - rb_tail src) n)"
    let ?d = "dst\<lparr>rb_buf := mem_write (rb_buf dst) (rb_head dst) (mem_read (rb_buf src) (rb_tail src) k),
              rb_head := wrap_ptr dst (rb_head dst + k)\<rparr>"
    let ?s = "src\<lparr>rb_tail := wrap_ptr src (rb_tail src + k)\<rparr>"
    have t: "rb_tail src < rb_size src" "rb_head dst < rb_size dst" using 1(2,3) by (simp_all add: rb_inv_def)
    have k: "0 < k" "k \<le> n" "rb_tail src + k \<le> rb_size src" "rb_head dst + k \<le> rb_size dst"
      using t False by (auto simp: k_def)
    have w: "wrap_ptr src (rb_tail src + k) = (rb_tail src + k) mod rb_size src"
      using t k by (intro wrap_ptr_mod) auto
    have d: "?d = foldl put1 dst (rb_range src (rb_tail src) k)"
      using t k by (simp add: foldl_put1_take rb_range_contiguous)
    have inv: "rb_inv ?d" "rb_inv ?s"
      using 1(2,3) t k by (auto simp: rb_inv_def w wrap_ptr_def)
    have "copy_ring ?d ?s (n - k) =
        Inr (foldl put1 ?d (rb_range ?s (rb_tail ?s) (n - k)), ?s\<lparr>rb_tail := (rb_tail ?s + (n - k)) mod rb_size ?s\<rparr>)"
      using 1(1) [OF False _ k_def inv] t by simp
    moreover have "rb_range src (rb_tail src) n = rb_range src (rb_tail src) k @ rb_range ?s (rb_tail ?s) (n - k)"
      using rb_range_append [of src "rb_tail src" k "n - k"] w k by (simp add: rb_range_def)
    moreover have "((rb_tail src + k) mod rb_size src + n - k) mod rb_size src = (rb_tail src + n) mod rb_size src"
      using k by (simp add: mod_step')
    ultimately show ?thesis
      using False t w k d by (simp add: copy_ring.simps [of dst] Let_def flip: k_def)
  qed
qed

text \<open>Property C9: copying between two ring buffers is reading the bytes out of the source and writing
  them into the destination, overwriting behaviour and refusals included.\<close>

theorem ringbuf_copy_is_from_into:
  assumes "rb_inv dst" "rb_inv src"
  shows "ringbuf_copy dst src n =
    (case ringbuf_memcpy_from src n of Inl e \<Rightarrow> Inl e
     | Inr (bs, src') \<Rightarrow> (case ringbuf_memcpy_into dst bs of Inl e \<Rightarrow> Inl e | Inr dst' \<Rightarrow> Inr (dst', src')))"
  using assms copy_ring_eq [OF assms, of n] copy_out_eq [OF assms(2), of n]
    copy_in_eq [OF assms(1), of "rb_range src (rb_tail src) n"]
  by (auto simp: ringbuf_copy_def ringbuf_memcpy_from_def ringbuf_memcpy_into_def Let_def split: sum.splits)

theorem ringbuf_copy_is_from_into_witness:
  "ringbuf_copy (ringbuf_new (\<lambda>_. 0) 2) (ringbuf_new (\<lambda>_. 7) 3) 1 = Inl NotEnough"
  using ringbuf_copy_is_from_into [of "ringbuf_new (\<lambda>_. 0) 2" "ringbuf_new (\<lambda>_. 7) 3" 1]
  by (simp add: ringbuf_new_def ringbuf_reset_def rb_inv_def ringbuf_memcpy_from_def ringbuf_bytes_used_def
      ringbuf_bytes_free_def ringbuf_capacity_def)

text \<open>Property C8: writing any bytes into a ring buffer never fails an assertion, and reading the
  buffer out then returns, in order, the bytes that were in it followed by the new ones, of which
  the oldest are dropped exactly when they exceed the capacity.\<close>

theorem ringbuf_write_then_drain:
  assumes "rb_inv rb"
  shows "\<exists>rb' rb''. ringbuf_memcpy_into rb bs = Inr rb' \<and>
    ringbuf_memcpy_from rb' (ringbuf_bytes_used rb') = Inr (lastn (ringbuf_capacity rb) (rb_list rb @ bs), rb'') \<and>
    ringbuf_is_empty rb'' \<and> ringbuf_capacity rb'' = ringbuf_capacity rb"
proof -
  obtain rb' where 1: "ringbuf_memcpy_into rb bs = Inr rb'" "rb_inv rb'" "rb_size rb' = rb_size rb"
      "rb_list rb' = lastn (ringbuf_capacity rb) (rb_list rb @ bs)"
    using memcpy_into_eq [OF assms] by blast
  obtain rb'' where 2: "ringbuf_memcpy_from rb' (ringbuf_bytes_used rb') = Inr (take (ringbuf_bytes_used rb') (rb_list rb'), rb'')"
      "rb_inv rb''" "rb_list rb'' = drop (ringbuf_bytes_used rb') (rb_list rb')" "rb_size rb'' = rb_size rb'"
    using memcpy_from_eq [OF 1(2), of "ringbuf_bytes_used rb'"] by auto
  have "ringbuf_bytes_used rb'' = 0" "take (ringbuf_bytes_used rb') (rb_list rb') = rb_list rb'"
    using 2(3) length_rb_list [of rb''] by simp_all
  then show ?thesis
    using 1 2(1,2,4) bytes_used_free [OF 2(2)] by (auto simp: ringbuf_is_empty_def ringbuf_capacity_def)
qed

theorem ringbuf_write_then_drain_witness:
  "\<exists>rb' rb''. ringbuf_memcpy_into (ringbuf_new (\<lambda>_. 0) 3) [1, 2, 3, 4] = Inr rb' \<and>
    ringbuf_memcpy_from rb' (ringbuf_bytes_used rb') = Inr ([2, 3, 4], rb'') \<and>
    ringbuf_is_empty rb'' \<and> ringbuf_capacity rb'' = 3"
  using ringbuf_write_then_drain [of "ringbuf_new (\<lambda>_. 0) 3" "[1, 2, 3, 4]"]
  by (simp add: ringbuf_new_def ringbuf_reset_def rb_inv_def ringbuf_capacity_def lastn_def rb_list_def rb_range_def
      ringbuf_bytes_used_def ringbuf_bytes_free_def)

lemma memchr_append: "memchr (xs @ ys) c = (case memchr xs c of Some k \<Rightarrow> Some k | None \<Rightarrow> map_option (\<lambda>k. length xs + k) (memchr ys c))"
  by (cases "memchr ys c"; induction xs) (auto split: option.splits)

text \<open>\<open>ringbuf_findchr\<close> returns the position, in the unread bytes, of the first
  occurrence of the character at or after the offset, and the number of unread bytes when there
  is none; the wrap around the end of the buffer is invisible.\<close>

lemma ringbuf_findchr_correct:
  "rb_inv rb \<Longrightarrow> ringbuf_findchr rb c offset =
    Some (case memchr (drop offset (rb_list rb)) c of Some k \<Rightarrow> offset + k | None \<Rightarrow> ringbuf_bytes_used rb)"
proof (induction rb c offset rule: ringbuf_findchr.induct)
  case (1 rb c offset)
  let ?u = "ringbuf_bytes_used rb" and ?start = "(rb_tail rb + offset) mod rb_size rb"
  show ?case
  proof (cases "offset \<ge> ?u")
    case True
    then show ?thesis by (simp add: ringbuf_findchr.simps [of rb])
  next
    case False
    define n where "n = min (rb_size rb - ?start) (?u - offset)"
    have s: "?start < rb_size rb" using 1(2) by (auto simp: rb_inv_def)
    have n: "0 < n" "n \<le> ?u - offset" "?start + n \<le> rb_size rb" using s False by (auto simp: n_def)
    have "drop offset (rb_list rb) = rb_range rb ?start (?u - offset)"
      using False rb_range_drop [of offset ?u rb "rb_tail rb"] by (simp add: rb_list_def)
    also have "\<dots> = mem_read (rb_buf rb) ?start n @ drop (offset + n) (rb_list rb)"
      using n False rb_range_append [of rb ?start n "?u - offset - n"] rb_range_drop [of "offset + n" ?u rb "rb_tail rb"]
      by (simp add: rb_list_def rb_range_contiguous mod_add_left_eq add.assoc)
    finally have d: "drop offset (rb_list rb) = mem_read (rb_buf rb) ?start n @ drop (offset + n) (rb_list rb)" .
    show ?thesis
      using 1(1) [OF refl False refl _ n_def] 1(2) s False n d
      by (auto simp: ringbuf_findchr.simps [of rb] Let_def memchr_append simp flip: n_def split: option.splits)
  qed
qed

end
