(* ===== verification/Con_Manager.thy ===== *)
theory Con_Manager
  imports Dare_Prelude
begin

text \<open>
  The connection manager of the host (vpb/con-manager.c): the initial sequence numbers of the
  connections agreed on, the highest sequence number each guest connection has sent, the decision
  whether an incoming packet has to wait for the guest's own output, and the parsing of the guest's
  outgoing packets.  The uthash tables compare the raw bytes of struct con_id_type, so its two
  padding fields are part of the key; the padding of a local variable that the code does not clear
  is an argument (\<open>pad\<close>).  The mutex \<open>out_lock\<close> is not recursive: an operation that would lock it
  while its thread holds it (\<open>held\<close>) has no result (\<open>None\<close>).
\<close>

record con_id_type =
  src_ip :: u32
  src_port :: u16
  src_pad :: u16
  dst_ip :: u32
  dst_port :: u16
  dst_pad :: u16

record con_mgr =
  con_isn_list :: "con_id_type \<rightharpoonup> u32"
  con_out_seq_list :: "con_id_type \<rightharpoonup> u32"

definition con_manager_init :: con_mgr where
  "con_manager_init = \<lparr>con_isn_list = Map.empty, con_out_seq_list = Map.empty\<rparr>"

definition clear_pad :: "con_id_type \<Rightarrow> con_id_type" where
  "clear_pad con = con\<lparr>src_pad := 0, dst_pad := 0\<rparr>"

definition reverse_con :: "u16 \<times> u16 \<Rightarrow> con_id_type \<Rightarrow> con_id_type" where
  "reverse_con pad con = \<lparr>src_ip = dst_ip con, src_port = dst_port con, src_pad = fst pad,
    dst_ip = src_ip con, dst_port = src_port con, dst_pad = snd pad\<rparr>"

definition get_isn :: "con_mgr \<Rightarrow> con_id_type \<Rightarrow> u32 option" where
  "get_isn cm con = con_isn_list cm con"

definition flush_con_out_seq :: "con_mgr \<Rightarrow> con_id_type \<Rightarrow> con_mgr" where
  "flush_con_out_seq cm server_con =
    cm\<lparr>con_out_seq_list := (con_out_seq_list cm)(reverse_con (0, 0) server_con \<mapsto> 0)\<rparr>"

definition save_isn :: "con_mgr \<Rightarrow> u32 \<Rightarrow> con_id_type \<Rightarrow> con_mgr" where
  "save_isn cm isn con =
    (let cm = flush_con_out_seq cm con in cm\<lparr>con_isn_list := (con_isn_list cm)(con \<mapsto> isn)\<rparr>)"

definition get_con_out_seq :: "bool \<Rightarrow> con_mgr \<Rightarrow> con_id_type \<Rightarrow> (u32 \<times> int) option" where
  "get_con_out_seq held cm con_orig =
    (case con_out_seq_list cm (clear_pad con_orig) of
       Some seq \<Rightarrow> Some (seq, 0)
     | None \<Rightarrow> if held then None else Some (0, -1))"

definition update_con_out_seq :: "con_mgr \<Rightarrow> u32 \<Rightarrow> con_id_type \<Rightarrow> con_mgr" where
  "update_con_out_seq cm seq con_orig =
    (let con = clear_pad con_orig in
     case con_out_seq_list cm con of
       Some s \<Rightarrow> if s \<ge> seq then cm else cm\<lparr>con_out_seq_list := (con_out_seq_list cm)(con \<mapsto> seq)\<rparr>
     | None \<Rightarrow> cm\<lparr>con_out_seq_list := (con_out_seq_list cm)(con \<mapsto> seq)\<rparr>)"

definition check_block :: "bool \<Rightarrow> u16 \<times> u16 \<Rightarrow> con_mgr \<Rightarrow> u32 \<Rightarrow> con_id_type \<Rightarrow> int option" where
  "check_block held pad cm ack con =
    (case get_isn cm (reverse_con pad con) of
       None \<Rightarrow> Some 0
     | Some isn \<Rightarrow>
        (case get_con_out_seq held cm con of
           None \<Rightarrow> None
         | Some (out_seq, ret) \<Rightarrow> if out_seq + 1 < ack then Some 1 else Some 0))"

section \<open>The guest's outgoing packets\<close>

definition MSG_OFF :: nat where "MSG_OFF = 10"

definition be16 :: "memory \<Rightarrow> nat \<Rightarrow> u16" where
  "be16 m a = of_nat (le_dec (rev (mem_read m a 2)))"

definition be32 :: "memory \<Rightarrow> nat \<Rightarrow> u32" where
  "be32 m a = of_nat (le_dec (rev (mem_read m a 4)))"

text \<open>The header fields of a frame whose Ethernet header starts at \<open>MSG_OFF\<close>; \<open>iph\<close> is the offset
  of the IP header and \<open>tcph\<close> that of the TCP header.\<close>

definition eth_hdr_len :: nat where "eth_hdr_len = 14"

definition iph :: nat where "iph = MSG_OFF + eth_hdr_len"

definition ip_header_size :: "memory \<Rightarrow> nat" where
  "ip_header_size m = 4 * unat (m iph AND 0x0F)"

definition tcph :: "memory \<Rightarrow> nat" where
  "tcph m = iph + ip_header_size m"

definition tcp_header_size :: "memory \<Rightarrow> nat" where
  "tcp_header_size m = 4 * unat (drop_bit 4 (m (tcph m + 12)) AND 0x0F)"

text \<open>\<open>ip_len\<close> is a short: the length field read in network order, taken as a signed value.\<close>

definition payload_length :: "memory \<Rightarrow> int" where
  "payload_length m =
    (let p = sint (be16 m (iph + 2)) - int (ip_header_size m) - int (tcp_header_size m)
     in if p < 0 then 0 else p)"

definition watch_guest_out_step :: "con_mgr \<Rightarrow> memory \<Rightarrow> nat \<Rightarrow> con_mgr" where
  "watch_guest_out_step cm buf len =
    (if len > eth_hdr_len + MSG_OFF \<and> load16 buf (MSG_OFF + 12) = 0x0008 \<and> buf (iph + 9) = 0x06
     then (let con = \<lparr>src_ip = load32 buf (iph + 16), src_port = load16 buf (tcph buf + 2), src_pad = 0,
                      dst_ip = load32 buf (iph + 12), dst_port = load16 buf (tcph buf), dst_pad = 0\<rparr>;
               seq = be32 buf (tcph buf + 4) + of_int (payload_length buf)
           in update_con_out_seq cm seq con)
     else cm)"

text \<open>What is recorded of a connection.\<close>

record con_info_type =
  con_id :: con_id_type
  send_seq :: u32
  recv_seq :: u32
  has_timestamp :: u16
  timestamp :: u32
  mss_clamp :: u32
  snd_wscale :: u32
  rcv_wscale :: u32
  has_rcv_wscale :: u16
  con_type :: u16

section \<open>Properties\<close>

text \<open>Every connection with an ISN has an entry for the opposite direction.\<close>

definition con_inv :: "con_mgr \<Rightarrow> bool" where
  "con_inv cm = (\<forall>con. con_isn_list cm con \<noteq> None \<longrightarrow> con_out_seq_list cm (reverse_con (0, 0) con) \<noteq> None)"

datatype con_op = SaveIsn u32 con_id_type | UpdateSeq u32 con_id_type | Flush con_id_type | GuestOut memory nat

fun con_step :: "con_mgr \<Rightarrow> con_op \<Rightarrow> con_mgr" where
  "con_step cm (SaveIsn isn con) = save_isn cm isn con"
| "con_step cm (UpdateSeq seq con) = update_con_out_seq cm seq con"
| "con_step cm (Flush con) = flush_con_out_seq cm con"
| "con_step cm (GuestOut buf len) = watch_guest_out_step cm buf len"

lemma out_seq_dom_mono:
  "dom (con_out_seq_list cm) \<subseteq> dom (con_out_seq_list (update_con_out_seq cm seq con))"
  "dom (con_out_seq_list cm) \<subseteq> dom (con_out_seq_list (flush_con_out_seq cm con))"
  by (auto simp: update_con_out_seq_def flush_con_out_seq_def Let_def split: option.splits)

lemma update_isn [simp]: "con_isn_list (update_con_out_seq cm seq con) = con_isn_list cm"
  "con_isn_list (flush_con_out_seq cm con) = con_isn_list cm"
  by (auto simp: update_con_out_seq_def flush_con_out_seq_def Let_def split: option.splits)

lemma con_inv_init: "con_inv con_manager_init"
  by (simp add: con_inv_def con_manager_init_def)

lemma con_inv_update: "con_inv cm \<Longrightarrow> con_inv (update_con_out_seq cm seq con)"
  using out_seq_dom_mono(1) [of cm seq con] by (simp add: con_inv_def) blast

lemma con_inv_step: "con_inv cm \<Longrightarrow> con_inv (con_step cm op)"
proof (cases op)
  case (SaveIsn isn con)
  then show "con_inv cm \<Longrightarrow> ?thesis"
    by (auto simp: con_inv_def save_isn_def flush_con_out_seq_def Let_def)
next
  case (Flush con)
  then show "con_inv cm \<Longrightarrow> ?thesis"
    by (auto simp: con_inv_def flush_con_out_seq_def)
qed (auto simp: watch_guest_out_step_def Let_def intro: con_inv_update)

lemma con_inv_foldl: "con_inv cm \<Longrightarrow> con_inv (foldl con_step cm ops)"
  by (induction ops arbitrary: cm) (auto intro: con_inv_step)

lemma reverse_reverse: "reverse_con (0, 0) (reverse_con pad con) = clear_pad con"
  by (simp add: reverse_con_def clear_pad_def)

text \<open>Property C13: after any sequence of operations on the connection manager, \<open>check_block\<close> returns even
  though its caller holds out_lock: a connection that has an ISN has an entry for the opposite
  direction, so the branch of \<open>get_con_out_seq\<close> that locks again is never taken.\<close>

theorem check_block_never_relocks:
  "check_block True pad (foldl con_step con_manager_init ops) ack con \<noteq> None"
proof -
  let ?cm = "foldl con_step con_manager_init ops"
  have "con_inv ?cm" by (intro con_inv_foldl con_inv_init)
  then have "get_isn ?cm (reverse_con pad con) = None \<or> con_out_seq_list ?cm (clear_pad con) \<noteq> None"
    by (metis con_inv_def get_isn_def reverse_reverse)
  then show ?thesis
    by (auto simp: check_block_def get_con_out_seq_def split: option.splits)
qed

text \<open>Property C14: the sequence number recorded for a connection never decreases while the guest
  sends: it is the unsigned maximum of the numbers reported since the last flush.\<close>

theorem update_con_out_seq_max:
  "con_out_seq_list (foldl (\<lambda>cm seq. update_con_out_seq cm seq con) (flush_con_out_seq cm (reverse_con pad con)) seqs)
    (clear_pad con) = Some (foldl max 0 seqs)"
proof -
  have "con_out_seq_list cm (clear_pad con) = Some m \<Longrightarrow>
    con_out_seq_list (foldl (\<lambda>cm seq. update_con_out_seq cm seq con) cm seqs) (clear_pad con) = Some (foldl max m seqs)" for cm m
    by (induction seqs arbitrary: cm m) (auto simp: update_con_out_seq_def Let_def max_def)
  moreover have "con_out_seq_list (flush_con_out_seq cm (reverse_con pad con)) (clear_pad con) = Some 0"
    by (simp add: flush_con_out_seq_def reverse_reverse)
  ultimately show ?thesis by blast
qed



text \<open>Property C16: the decision depends on padding bytes the code never initialises: when the padding
  of the key on the stack of \<open>check_block\<close> differs from the one the ISN was saved with, a packet
  that acknowledges data not yet produced passes.\<close>

theorem check_block_padding_sensitive:
  assumes "pad \<noteq> pad'" "seq + 1 < ack"
  shows "check_block held pad (update_con_out_seq (save_isn con_manager_init isn (reverse_con pad con)) seq con) ack con = Some 1 \<and>
    check_block held pad' (update_con_out_seq (save_isn con_manager_init isn (reverse_con pad con)) seq con) ack con = Some 0"
proof -
  have "reverse_con pad con \<noteq> reverse_con pad' con"
    using assms(1) by (cases pad; cases pad') (simp add: reverse_con_def)
  then show ?thesis
    using assms(2)
    by (auto simp: check_block_def get_isn_def get_con_out_seq_def save_isn_def flush_con_out_seq_def
        con_manager_init_def update_con_out_seq_def reverse_reverse Let_def)
qed

theorem check_block_padding_sensitive_witness:
  "let con = \<lparr>src_ip = 1, src_port = 2, src_pad = 0, dst_ip = 3, dst_port = 4, dst_pad = 0\<rparr>;
       cm = update_con_out_seq (save_isn con_manager_init 7 (reverse_con (0, 0) con)) 500 con
   in check_block True (0, 0) cm 900 con = Some 1 \<and> check_block True (0xABCD, 0) cm 900 con = Some 0"
  using check_block_padding_sensitive [of "(0, 0)" "(0xABCD, 0)" 500 900 True 7
      "\<lparr>src_ip = 1, src_port = 2, src_pad = 0, dst_ip = 3, dst_port = 4, dst_pad = 0\<rparr>"]
  by simp

end
