(* ===== verification/Packet_Buffer.thy ===== *)
theory Packet_Buffer
  imports Ringbuf Con_Manager
begin

text \<open>
  The two packet queues of the host (packet-buffer/packet-buffer.c) on top of the ring buffer:
  length-prefixed packets for the guest, and TCP packets that wait until the guest has produced
  the data they acknowledge.  A result \<open>None\<close> stands for an aborted assertion, a deadlock, or for
  the use of a length that was never read because the ring buffer held too few bytes; the
  lemmas show that it does not occur on well-formed queues.  The spin locks serialise the calls,
  so each operation is one step.
\<close>

definition TCP_DONE_FLAG :: nat where "TCP_DONE_FLAG = 100000000"

definition UDP_DONE_FLAG :: nat where "UDP_DONE_FLAG = 200000000"

definition OUTGOING_BUFFER_SIZE :: nat where "OUTGOING_BUFFER_SIZE = 5120000000"

definition TCP_BUFFER_SIZE :: nat where "TCP_BUFFER_SIZE = 5120000000"

record packet_buffers =
  outgoing_buffer :: ringbuf_t
  tcp_buffer :: ringbuf_t
  udp_done :: bool
  tcp_done :: bool

definition rb_get :: "ringbuf_t \<Rightarrow> nat \<Rightarrow> (u8 list \<times> ringbuf_t) option" where
  "rb_get rb n = (case ringbuf_memcpy_from rb n of Inr r \<Rightarrow> Some r | Inl _ \<Rightarrow> None)"

definition rb_put :: "ringbuf_t \<Rightarrow> u8 list \<Rightarrow> ringbuf_t option" where
  "rb_put rb bs = (case ringbuf_memcpy_into rb bs of Inr r \<Rightarrow> Some r | Inl _ \<Rightarrow> None)"

definition size_bytes :: "nat \<Rightarrow> u8 list" where
  "size_bytes n = le_enc 8 n"

text \<open>The conversion of a size_t to int.\<close>

definition to_int :: "nat \<Rightarrow> int" where
  "to_int n = sint (of_nat n :: u32)"

definition con_id_bytes :: "con_id_type \<Rightarrow> u8 list" where
  "con_id_bytes con = le_enc 4 (unat (src_ip con)) @ le_enc 2 (unat (src_port con)) @ le_enc 2 (unat (src_pad con)) @
    le_enc 4 (unat (dst_ip con)) @ le_enc 2 (unat (dst_port con)) @ le_enc 2 (unat (dst_pad con))"

definition con_id_at :: "memory \<Rightarrow> nat \<Rightarrow> con_id_type" where
  "con_id_at m a = \<lparr>src_ip = load32 m a, src_port = load16 m (a + 4), src_pad = load16 m (a + 6),
    dst_ip = load32 m (a + 8), dst_port = load16 m (a + 12), dst_pad = load16 m (a + 14)\<rparr>"

definition init_packet_buffer :: "memory \<Rightarrow> memory \<Rightarrow> packet_buffers" where
  "init_packet_buffer heap1 heap2 =
    \<lparr>outgoing_buffer = ringbuf_new heap1 OUTGOING_BUFFER_SIZE, tcp_buffer = ringbuf_new heap2 TCP_BUFFER_SIZE,
     udp_done = False, tcp_done = False\<rparr>"

definition read_from_packet_buffer :: "packet_buffers \<Rightarrow> (int \<times> u8 list \<times> packet_buffers) option" where
  "read_from_packet_buffer pb =
    (if ringbuf_bytes_used (outgoing_buffer pb) \<le> 0 then Some (0, [], pb)
     else do {
       (l, rb) \<leftarrow> rb_get (outgoing_buffer pb) 8;
       (bs, rb) \<leftarrow> rb_get rb (le_dec l);
       Some (to_int (le_dec l), bs, pb\<lparr>outgoing_buffer := rb\<rparr>)
     })"

definition write_to_packet_buffer :: "packet_buffers \<Rightarrow> u8 list \<Rightarrow> (int \<times> packet_buffers) option" where
  "write_to_packet_buffer pb buffer = do {
     rb \<leftarrow> rb_put (outgoing_buffer pb) (size_bytes (length buffer));
     rb \<leftarrow> rb_put rb buffer;
     Some (to_int (length buffer), pb\<lparr>outgoing_buffer := rb\<rparr>)
   }"

definition packet_buffer_to_buffer :: "packet_buffers \<Rightarrow> (int \<times> u8 list \<times> packet_buffers) option" where
  "packet_buffer_to_buffer pb =
    (if to_int (ringbuf_bytes_used (outgoing_buffer pb)) \<le> 0 then Some (0, [], pb)
     else do {
       (l, rb) \<leftarrow> rb_get (outgoing_buffer pb) 8;
       let next_buffer_len = le_dec l;
       let pb = pb\<lparr>outgoing_buffer := rb\<rparr>;
       if next_buffer_len = TCP_DONE_FLAG
       then (let pb = pb\<lparr>tcp_done := True\<rparr> in
         if udp_done pb then Some (-99, [], pb\<lparr>tcp_done := False, udp_done := False\<rparr>) else Some (0, [], pb))
       else if next_buffer_len = UDP_DONE_FLAG
       then (let pb = pb\<lparr>udp_done := True\<rparr> in
         if tcp_done pb then Some (-99, [], pb\<lparr>tcp_done := False, udp_done := False\<rparr>) else Some (0, [], pb))
       else do {
         (bs, rb) \<leftarrow> rb_get rb next_buffer_len;
         Some (to_int next_buffer_len, bs, pb\<lparr>outgoing_buffer := rb\<rparr>)
       }
     })"

definition write_to_tcp_buffer :: "packet_buffers \<Rightarrow> con_id_type \<Rightarrow> u32 \<Rightarrow> u8 list \<Rightarrow> (int \<times> packet_buffers) option" where
  "write_to_tcp_buffer pb con ack buffer = do {
     rb \<leftarrow> rb_put (tcp_buffer pb) (con_id_bytes con);
     rb \<leftarrow> rb_put rb (le_enc 4 (unat ack));
     rb \<leftarrow> rb_put rb (size_bytes (length buffer));
     rb \<leftarrow> rb_put rb buffer;
     Some (to_int (length buffer), pb\<lparr>tcp_buffer := rb\<rparr>)
   }"

text \<open>The head of the TCP queue is inspected in place, at the tail pointer of the ring buffer.\<close>

definition dump_tcp_buffer :: "bool \<Rightarrow> u16 \<times> u16 \<Rightarrow> con_mgr \<Rightarrow> packet_buffers \<Rightarrow> (int \<times> packet_buffers) option" where
  "dump_tcp_buffer held pad cm pb =
    (if ringbuf_bytes_used (tcp_buffer pb) \<le> 0 then Some (0, pb)
     else
      (let m = rb_buf (tcp_buffer pb); a = rb_tail (tcp_buffer pb); con = con_id_at m a in
       if src_ip con = 0xFFFFFFFF \<and> dst_ip con = 0xFFFFFFFF
       then do {
         rb \<leftarrow> rb_put (outgoing_buffer pb) (size_bytes TCP_DONE_FLAG);
         Some (-99, pb\<lparr>outgoing_buffer := rb\<rparr>)
       }
       else do {
         ret \<leftarrow> check_block held pad cm (load32 m (a + 16)) con;
         if ret = 1 then Some (-1, pb)
         else do {
           (_, rb) \<leftarrow> rb_get (tcp_buffer pb) 16;
           (_, rb) \<leftarrow> rb_get rb 4;
           (l, rb) \<leftarrow> rb_get rb 8;
           (buffer, rb) \<leftarrow> rb_get rb (le_dec l);
           out \<leftarrow> rb_put (outgoing_buffer pb) (size_bytes (le_dec l));
           out \<leftarrow> rb_put out buffer;
           Some (to_int (le_dec l), pb\<lparr>tcp_buffer := rb, outgoing_buffer := out\<rparr>)
         }
       }))"

definition append_no_op :: "packet_buffers \<Rightarrow> (int \<times> packet_buffers) option" where
  "append_no_op pb = do {
     tcp \<leftarrow> rb_put (tcp_buffer pb) (con_id_bytes \<lparr>src_ip = 0xFFFFFFFF, src_port = 0, src_pad = 0,
       dst_ip = 0xFFFFFFFF, dst_port = 0, dst_pad = 0\<rparr>);
     out \<leftarrow> rb_put (outgoing_buffer pb) (size_bytes UDP_DONE_FLAG);
     Some (0, pb\<lparr>tcp_buffer := tcp, outgoing_buffer := out\<rparr>)
   }"

section \<open>Queues of packets\<close>

text \<open>The items of the outgoing queue and of the TCP queue, and their bytes.\<close>

datatype out_item = Packet "u8 list" | TcpDone | UdpDone

fun out_bytes :: "out_item \<Rightarrow> u8 list" where
  "out_bytes (Packet p) = size_bytes (length p) @ p"
| "out_bytes TcpDone = size_bytes TCP_DONE_FLAG"
| "out_bytes UdpDone = size_bytes UDP_DONE_FLAG"

fun item_ok :: "out_item \<Rightarrow> bool" where
  "item_ok (Packet p) = (length p < 2 ^ 31 \<and> length p \<noteq> TCP_DONE_FLAG \<and> length p \<noteq> UDP_DONE_FLAG)"
| "item_ok _ = True"

definition out_queue :: "packet_buffers \<Rightarrow> out_item list \<Rightarrow> bool" where
  "out_queue pb items = (rb_inv (outgoing_buffer pb) \<and> list_all item_ok items \<and>
    rb_list (outgoing_buffer pb) = concat (map out_bytes items))"

definition out_room :: "packet_buffers \<Rightarrow> nat \<Rightarrow> bool" where
  "out_room pb n = (ringbuf_bytes_used (outgoing_buffer pb) + n \<le> ringbuf_capacity (outgoing_buffer pb))"

definition tcp_bytes :: "con_id_type \<times> u32 \<times> u8 list \<Rightarrow> u8 list" where
  "tcp_bytes t = (case t of (con, ack, p) \<Rightarrow> con_id_bytes con @ le_enc 4 (unat ack) @ size_bytes (length p) @ p)"

definition tcp_queue :: "packet_buffers \<Rightarrow> (con_id_type \<times> u32 \<times> u8 list) list \<Rightarrow> bool" where
  "tcp_queue pb ts = (rb_inv (tcp_buffer pb) \<and> (\<forall>(con, ack, p)\<in>set ts. length p < 2 ^ 31) \<and>
    rb_list (tcp_buffer pb) = concat (map tcp_bytes ts))"

lemma length_size_bytes [simp]: "length (size_bytes n) = 8"
  by (simp add: size_bytes_def)

lemma size_bytes_not_Nil [simp]: "size_bytes n \<noteq> []"
  using length_size_bytes [of n] by (metis list.size(3) zero_neq_numeral)

lemma le_dec_size [simp]: "n < 2 ^ 64 \<Longrightarrow> le_dec (size_bytes n) = n"
  by (simp add: size_bytes_def le_dec_enc)

lemma length_con_id_bytes [simp]: "length (con_id_bytes con) = 16"
  by (simp add: con_id_bytes_def)

lemma to_int_small: "n < 2 ^ 31 \<Longrightarrow> to_int n = int n"
  unfolding to_int_def by (simp add: signed_of_nat signed_take_bit_int_eq_self)

text \<open>The interface of the ring buffer, as the packet operations use it.\<close>

lemma rb_put_ok:
  assumes "rb_inv q" "length (rb_list q) + length bs \<le> ringbuf_capacity q"
  shows "\<exists>q'. rb_put q bs = Some q' \<and> rb_inv q' \<and> ringbuf_capacity q' = ringbuf_capacity q \<and> rb_list q' = rb_list q @ bs"
  using rbq.put_ok [OF assms] by (auto simp: rb_put_def)

lemma rb_get_prefix:
  assumes "rb_inv q" "rb_list q = as @ rest" "n = length as"
  shows "\<exists>q'. rb_get q n = Some (as, q') \<and> rb_inv q' \<and> ringbuf_capacity q' = ringbuf_capacity q \<and> rb_list q' = rest"
  using rbq.get_prefixE [OF assms(1,2)] assms(3) by (metis rb_get_def sum.simps(6))

lemma rb_put2_ok:
  assumes "rb_inv q" "length (rb_list q) + length as + length bs \<le> ringbuf_capacity q"
  shows "\<exists>q1 q2. rb_put q as = Some q1 \<and> rb_put q1 bs = Some q2 \<and> rb_inv q2 \<and> ringbuf_capacity q2 = ringbuf_capacity q \<and>
    rb_list q2 = rb_list q @ as @ bs"
  using rbq.put_putE [OF assms] by (metis rb_put_def sum.simps(6))

lemma write_to_packet_buffer_queue:
  assumes "out_queue pb items" "item_ok (Packet p)" "out_room pb (8 + length p)"
  shows "\<exists>pb'. write_to_packet_buffer pb p = Some (int (length p), pb') \<and> out_queue pb' (items @ [Packet p]) \<and>
    ringbuf_capacity (outgoing_buffer pb') = ringbuf_capacity (outgoing_buffer pb)"
proof -
  obtain q1 q2 where "rb_put (outgoing_buffer pb) (size_bytes (length p)) = Some q1" "rb_put q1 p = Some q2" "rb_inv q2"
    "ringbuf_capacity q2 = ringbuf_capacity (outgoing_buffer pb)"
    "rb_list q2 = rb_list (outgoing_buffer pb) @ size_bytes (length p) @ p"
    using rb_put2_ok [of "outgoing_buffer pb" "size_bytes (length p)" p] assms by (auto simp: out_queue_def out_room_def add.assoc)
  then show ?thesis
    using assms by (auto simp: write_to_packet_buffer_def out_queue_def to_int_small)
qed

lemma read_from_packet_buffer_queue:
  assumes "out_queue pb (Packet p # items)"
  shows "\<exists>pb'. read_from_packet_buffer pb = Some (int (length p), p, pb') \<and> out_queue pb' items \<and>
    ringbuf_capacity (outgoing_buffer pb') = ringbuf_capacity (outgoing_buffer pb)"
proof -
  let ?q = "outgoing_buffer pb" and ?rest = "concat (map out_bytes items)"
  have q: "rb_inv ?q" "rb_list ?q = size_bytes (length p) @ p @ ?rest" "length p < 2 ^ 31"
    using assms by (simp_all add: out_queue_def)
  have used: "\<not> ringbuf_bytes_used ?q \<le> 0"
    using q(2) length_rb_list [of ?q] by simp
  obtain q1 where 1: "rb_get ?q 8 = Some (size_bytes (length p), q1)" "rb_inv q1" "ringbuf_capacity q1 = ringbuf_capacity ?q" "rb_list q1 = p @ ?rest"
    using rb_get_prefix [OF q(1,2), of 8] by auto
  obtain q2 where 2: "rb_get q1 (length p) = Some (p, q2)" "rb_inv q2" "ringbuf_capacity q2 = ringbuf_capacity q1" "rb_list q2 = ?rest"
    using rb_get_prefix [OF 1(2,4)] by auto
  show ?thesis
    using used 1 2 q(3) assms by (auto simp: read_from_packet_buffer_def out_queue_def to_int_small)
qed

fun read_packets :: "nat \<Rightarrow> packet_buffers \<Rightarrow> (u8 list list \<times> packet_buffers) option" where
  "read_packets 0 pb = Some ([], pb)"
| "read_packets (Suc n) pb = do {
     (_, p, pb) \<leftarrow> read_from_packet_buffer pb;
     (ps, pb) \<leftarrow> read_packets n pb;
     Some (p # ps, pb)
   }"

lemma read_packets_queue:
  "out_queue pb (map Packet ps @ items) \<Longrightarrow> \<exists>pb'. read_packets (length ps) pb = Some (ps, pb') \<and> out_queue pb' items"
proof (induction ps arbitrary: pb)
  case (Cons p ps)
  obtain pb1 where "read_from_packet_buffer pb = Some (int (length p), p, pb1)" "out_queue pb1 (map Packet ps @ items)"
    using read_from_packet_buffer_queue [of pb p "map Packet ps @ items"] Cons.prems by auto
  then show ?case using Cons.IH [of pb1] by auto
qed simp

text \<open>Property C10: packets leave the outgoing buffer in the order they were written, each with its own
  boundaries and bytes, as long as the writer keeps within the buffer's capacity.\<close>

theorem packet_buffer_fifo:
  assumes "out_queue pb (map Packet ps)" "item_ok (Packet p)" "out_room pb (8 + length p)"
  shows "\<exists>pb' pb''. write_to_packet_buffer pb p = Some (int (length p), pb') \<and>
    read_packets (Suc (length ps)) pb' = Some (ps @ [p], pb'') \<and> ringbuf_bytes_used (outgoing_buffer pb'') = 0"
proof -
  obtain pb' where 1: "write_to_packet_buffer pb p = Some (int (length p), pb')" "out_queue pb' (map Packet (ps @ [p]) @ [])"
    using write_to_packet_buffer_queue [OF assms] by auto
  obtain pb'' where 2: "read_packets (length (ps @ [p])) pb' = Some (ps @ [p], pb'')" "out_queue pb'' []"
    using read_packets_queue [OF 1(2)] by auto
  moreover have "ringbuf_bytes_used (outgoing_buffer pb'') = 0"
    using 2(2) length_rb_list [of "outgoing_buffer pb''"] by (simp add: out_queue_def)
  ultimately show ?thesis using 1 by auto
qed

lemma out_queue_init: "out_queue (init_packet_buffer h1 h2) []"
  by (simp add: out_queue_def init_packet_buffer_def ringbuf_new_def ringbuf_reset_def rb_inv_def rb_list_def rb_range_def
      ringbuf_bytes_used_def ringbuf_bytes_free_def ringbuf_capacity_def)

lemma init_capacity: "ringbuf_capacity (outgoing_buffer (init_packet_buffer h1 h2)) = 5120000000"
  "ringbuf_bytes_used (outgoing_buffer (init_packet_buffer h1 h2)) = 0"
  by (simp_all add: init_packet_buffer_def ringbuf_new_def ringbuf_reset_def ringbuf_capacity_def OUTGOING_BUFFER_SIZE_def
      ringbuf_bytes_used_def ringbuf_bytes_free_def)

theorem packet_buffer_fifo_witness:
  "\<exists>pb' pb''. write_to_packet_buffer (init_packet_buffer (\<lambda>_. 0) (\<lambda>_. 0)) [1, 2, 3] = Some (3, pb') \<and>
    read_packets 1 pb' = Some ([[1, 2, 3]], pb'') \<and> ringbuf_bytes_used (outgoing_buffer pb'') = 0"
  using packet_buffer_fifo [of "init_packet_buffer (\<lambda>_. 0) (\<lambda>_. 0)" "[]" "[1, 2, 3]"]
    out_queue_init [of "\<lambda>_. 0" "\<lambda>_. 0"] init_capacity [of "\<lambda>_. 0" "\<lambda>_. 0"]
  by (simp add: out_room_def TCP_DONE_FLAG_def UDP_DONE_FLAG_def)

section \<open>Handing packets to the guest\<close>

definition small_queue :: "packet_buffers \<Rightarrow> bool" where
  "small_queue pb = (ringbuf_bytes_used (outgoing_buffer pb) < 2 ^ 31)"

text \<open>What the guest's network device is given for the item at the head of the queue, and how the two
  flags of the hand-over change.\<close>

fun guest_sees :: "out_item \<Rightarrow> bool \<Rightarrow> bool \<Rightarrow> int \<times> u8 list \<times> bool \<times> bool" where
  "guest_sees (Packet p) udp tcp = (int (length p), p, udp, tcp)"
| "guest_sees TcpDone udp tcp = (if udp then (-99, [], False, False) else (0, [], False, True))"
| "guest_sees UdpDone udp tcp = (if tcp then (-99, [], False, False) else (0, [], True, False))"

lemma flags_decode: "le_dec (size_bytes TCP_DONE_FLAG) = TCP_DONE_FLAG" "le_dec (size_bytes UDP_DONE_FLAG) = UDP_DONE_FLAG"
  by (simp_all add: TCP_DONE_FLAG_def UDP_DONE_FLAG_def)

lemma flags_differ: "UDP_DONE_FLAG \<noteq> TCP_DONE_FLAG"
  by (simp add: TCP_DONE_FLAG_def UDP_DONE_FLAG_def)

text \<open>Property C11: with fewer than 2^31 bytes queued, \<open>packet_buffer_to_buffer\<close> delivers exactly the item at
  the head of the queue, and reports the end of the hand-over to a new leader (-99) exactly when
  the second of the two end-of-stream markers is consumed, in either order.\<close>

theorem packet_buffer_to_buffer_step:
  assumes "out_queue pb (it # items)" "small_queue pb" "\<not> (udp_done pb \<and> tcp_done pb)"
  shows "\<exists>pb'. packet_buffer_to_buffer pb =
      Some (fst (guest_sees it (udp_done pb) (tcp_done pb)), fst (snd (guest_sees it (udp_done pb) (tcp_done pb))), pb') \<and>
    out_queue pb' items \<and> (udp_done pb', tcp_done pb') = snd (snd (guest_sees it (udp_done pb) (tcp_done pb)))"
proof -
  let ?q = "outgoing_buffer pb" and ?rest = "concat (map out_bytes items)"
  have q: "rb_inv ?q" "rb_list ?q = out_bytes it @ ?rest"
    using assms by (simp_all add: out_queue_def)
  have "0 < ringbuf_bytes_used ?q"
    using q(2) length_rb_list [of ?q] by (cases it) auto
  then have used: "\<not> to_int (ringbuf_bytes_used ?q) \<le> 0"
    using assms(2) by (simp add: small_queue_def to_int_small)
  define n where "n = (case it of Packet p \<Rightarrow> length p | TcpDone \<Rightarrow> TCP_DONE_FLAG | UdpDone \<Rightarrow> UDP_DONE_FLAG)"
  define body where "body = (case it of Packet p \<Rightarrow> p | _ \<Rightarrow> [])"
  have it: "out_bytes it = size_bytes n @ body" by (cases it) (simp_all add: n_def body_def)
  obtain q1 where 1: "rb_get ?q 8 = Some (size_bytes n, q1)" "rb_inv q1" "rb_list q1 = body @ ?rest"
    using rb_get_prefix [OF q(1), of "size_bytes n" "body @ ?rest" 8] q(2) it by auto
  have n: "le_dec (size_bytes n) = n"
    using assms(1) by (cases it) (auto simp: n_def out_queue_def flags_decode)
  obtain q2 where 2: "rb_get q1 (length body) = Some (body, q2)" "rb_inv q2" "rb_list q2 = ?rest"
    using rb_get_prefix [OF 1(2,3)] by auto
  show ?thesis
    using used 1 2 n assms flags_differ
    by (cases it) (auto simp: packet_buffer_to_buffer_def n_def body_def out_queue_def to_int_small Let_def)
qed

theorem packet_buffer_to_buffer_step_witness:
  "\<exists>pb pb'. out_queue pb [Packet [7]] \<and> packet_buffer_to_buffer pb = Some (1, [7], pb') \<and> out_queue pb' []"
proof -
  let ?i = "init_packet_buffer (\<lambda>_. 0) (\<lambda>_. 0)"
  obtain pb where pb: "write_to_packet_buffer ?i [7] = Some (1, pb)" "out_queue pb [Packet [7]]"
      "ringbuf_capacity (outgoing_buffer pb) = ringbuf_capacity (outgoing_buffer ?i)"
    using write_to_packet_buffer_queue [OF out_queue_init [of "\<lambda>_. 0" "\<lambda>_. 0"], of "[7]"] init_capacity [of "\<lambda>_. 0" "\<lambda>_. 0"]
    by (auto simp: out_room_def TCP_DONE_FLAG_def UDP_DONE_FLAG_def)
  have "ringbuf_bytes_used (outgoing_buffer pb) = 9"
    using pb(2) length_rb_list [of "outgoing_buffer pb"] by (simp add: out_queue_def)
  moreover have "\<not> (udp_done pb \<and> tcp_done pb)"
    using pb(1) by (auto simp: write_to_packet_buffer_def init_packet_buffer_def bind_eq_Some_conv)
  ultimately show ?thesis
    using packet_buffer_to_buffer_step [OF pb(2)] pb(2) by (auto simp: small_queue_def)
qed

section \<open>Releasing TCP packets\<close>

lemma mem_read_sub: "i + k \<le> n \<Longrightarrow> mem_read m (a + i) k = take k (drop i (mem_read m a n))"
  by (rule nth_equalityI) (auto simp: add.assoc)

lemma load_from_read:
  assumes "mem_read m a n = bs"
  shows "i + 4 \<le> n \<Longrightarrow> load32 m (a + i) = of_nat (le_dec (take 4 (drop i bs)))"
    "i + 2 \<le> n \<Longrightarrow> load16 m (a + i) = of_nat (le_dec (take 2 (drop i bs)))"
  using assms by (auto simp: load32_def load16_def mem_read_sub)

lemma peek_head:
  assumes "rb_inv rb" "rb_list rb = con_id_bytes con @ le_enc 4 (unat ack) @ rest" "rb_tail rb + 20 \<le> rb_size rb"
  shows "con_id_at (rb_buf rb) (rb_tail rb) = con" "load32 (rb_buf rb) (rb_tail rb + 16) = ack"
proof -
  let ?m = "rb_buf rb" and ?a = "rb_tail rb"
  have "20 \<le> ringbuf_bytes_used rb" using assms(2) length_rb_list [of rb] by simp
  then have "mem_read ?m ?a 20 = take 20 (rb_list rb)"
    using rb_range_contiguous [OF assms(3)] rb_range_take [of 20 "ringbuf_bytes_used rb" rb ?a] by (simp add: rb_list_def)
  then have r: "mem_read ?m ?a 20 = con_id_bytes con @ le_enc 4 (unat ack)"
    using assms(2) by simp
  note L = load_from_read [OF r]
  show "load32 ?m (?a + 16) = ack" using L(1) [of 16] by simp
  show "con_id_at ?m ?a = con"
    using L(1) [of 0] L(1) [of 8] L(2) [of 4] L(2) [of 6] L(2) [of 12] L(2) [of 14]
    by (simp add: con_id_at_def con_id_bytes_def)
qed

lemma tcp_head_used: "tcp_queue pb (t # ts) \<Longrightarrow> 0 < ringbuf_bytes_used (tcp_buffer pb)"
  using length_rb_list [of "tcp_buffer pb"] by (cases t) (auto simp: tcp_queue_def tcp_bytes_def)

lemma dump_tcp_head:
  assumes "tcp_queue pb ((con, ack, p) # ts)" "out_queue pb items" "item_ok (Packet p)" "out_room pb (8 + length p)"
    and "rb_tail (tcp_buffer pb) + 20 \<le> rb_size (tcp_buffer pb)" "src_ip con \<noteq> 0xFFFFFFFF"
    and "check_block held pad cm ack con = Some ret"
  shows "if ret = 1 then dump_tcp_buffer held pad cm pb = Some (-1, pb)
    else \<exists>pb'. dump_tcp_buffer held pad cm pb = Some (int (length p), pb') \<and> tcp_queue pb' ts \<and> out_queue pb' (items @ [Packet p])"
proof -
  let ?q = "tcp_buffer pb" and ?rest = "concat (map tcp_bytes ts)"
  have q: "rb_inv ?q" "rb_list ?q = con_id_bytes con @ le_enc 4 (unat ack) @ size_bytes (length p) @ p @ ?rest" "length p < 2 ^ 31"
    using assms(1) by (simp_all add: tcp_queue_def tcp_bytes_def)
  note peek = peek_head [OF q(1,2) assms(5)]
  have used: "\<not> ringbuf_bytes_used ?q \<le> 0" using tcp_head_used [OF assms(1)] by simp
  obtain q1 where 1: "rb_get ?q 16 = Some (con_id_bytes con, q1)" "rb_inv q1" "rb_list q1 = le_enc 4 (unat ack) @ size_bytes (length p) @ p @ ?rest"
    using rb_get_prefix [OF q(1,2), of 16] by auto
  obtain q2 where 2: "rb_get q1 4 = Some (le_enc 4 (unat ack), q2)" "rb_inv q2" "rb_list q2 = size_bytes (length p) @ p @ ?rest"
    using rb_get_prefix [OF 1(2,3), of 4] by auto
  obtain q3 where 3: "rb_get q2 8 = Some (size_bytes (length p), q3)" "rb_inv q3" "rb_list q3 = p @ ?rest"
    using rb_get_prefix [OF 2(2,3), of 8] by auto
  obtain q4 where 4: "rb_get q3 (length p) = Some (p, q4)" "rb_inv q4" "rb_list q4 = ?rest"
    using rb_get_prefix [OF 3(2,3)] by auto
  obtain o1 o2 where 5: "rb_put (outgoing_buffer pb) (size_bytes (length p)) = Some o1" "rb_put o1 p = Some o2" "rb_inv o2"
    "rb_list o2 = rb_list (outgoing_buffer pb) @ size_bytes (length p) @ p"
    using rb_put2_ok [of "outgoing_buffer pb" "size_bytes (length p)" p] assms(2,4) by (auto simp: out_queue_def out_room_def add.assoc)
  show ?thesis
    using used peek 1(1) 2(1) 3(1) 4 5 q(3) assms
    by (auto simp: dump_tcp_buffer_def Let_def tcp_queue_def out_queue_def to_int_small)
qed


definition filled_ring :: "u8 list \<Rightarrow> nat \<Rightarrow> ringbuf_t" where
  "filled_ring bs n = \<lparr>rb_buf = mem_write (\<lambda>_. 0) 0 bs, rb_head = length bs, rb_tail = 0, rb_size = n\<rparr>"

lemma filled_ring: "length bs < n \<Longrightarrow> rb_inv (filled_ring bs n)" "length bs < n \<Longrightarrow> rb_list (filled_ring bs n) = bs"
  "length bs < n \<Longrightarrow> ringbuf_bytes_used (filled_ring bs n) = length bs"
proof -
  assume n: "length bs < n"
  then show inv: "rb_inv (filled_ring bs n)" by (simp add: rb_inv_def filled_ring_def)
  show u: "ringbuf_bytes_used (filled_ring bs n) = length bs"
    using n by (simp add: bytes_used_alt [OF inv]) (simp add: filled_ring_def)
  show "rb_list (filled_ring bs n) = bs"
    unfolding rb_list_def u using n rb_range_contiguous [of 0 "length bs" "filled_ring bs n"]
    by (simp add: filled_ring_def mem_read_write_same)
qed


end
