(* ===== verification/Dare_State.thy ===== *)
theory Dare_State
  imports Dare_Log Ep_Db Kvs
begin

text \<open>
  The state of one DARE server: its configuration (dare_config.h), the control data the other
  servers read and write over RDMA (dare_server.h), the endpoints of the reliable connections
  (dare_ibv.h) and the globals of dare_server.c and dare_ibv_rc.c.

  What the server takes from outside is part of the state.  \<open>env_rcs\<close> holds the results of the
  calls to come into the verbs library, the allocator and the proxy (return codes, addresses, sizes),
  in the order of the calls; the results after its end are \<open>0\<close>, which is success.  \<open>polls\<close> holds the results of the coming calls of ibv_poll_cq; a result
  carries the work completions and the writes other NICs made to the control data before it.  A
  poll on the empty list finds nothing, now and later, so a loop that waits for a completion
  then never ends; the operations that can wait return \<open>None\<close> in that case.

  What the server does to the outside is the list \<open>trace\<close>, oldest event first.  \<open>halted\<close> is set by
  dare_server_shutdown (which ends the thread) and by error_exit (which ends the process).
\<close>

section \<open>Constants\<close>

definition MAX_SERVER_COUNT :: nat where "MAX_SERVER_COUNT = 13"

definition PERMANENT_FAILURE :: u8 where "PERMANENT_FAILURE = 2"

definition LR_GET_WRITE :: u8 where "LR_GET_WRITE = 1"

definition LR_GET_NCE_LEN :: u8 where "LR_GET_NCE_LEN = 2"

definition LR_GET_NCE :: u8 where "LR_GET_NCE = 3"

definition LR_SET_END :: u8 where "LR_SET_END = 4"

definition LR_UPDATE_LOG :: u8 where "LR_UPDATE_LOG = 5"

definition LR_UPDATE_END :: u8 where "LR_UPDATE_END = 6"

definition RC_QP_ACTIVE :: u8 where "RC_QP_ACTIVE = 0"

definition RC_QP_BLOCKED :: u8 where "RC_QP_BLOCKED = 1"

definition RC_QP_ERROR :: u8 where "RC_QP_ERROR = 2"

text \<open>The bits of \<open>dare_state\<close>.\<close>

definition TERMINATE :: u64 where "TERMINATE = 0x1"

definition INIT :: u64 where "INIT = 0x2"

definition JOINED :: u64 where "JOINED = 0x4"

definition RC_ESTABLISHED :: u64 where "RC_ESTABLISHED = 0x8"

definition SM_RECOVERED :: u64 where "SM_RECOVERED = 0x10"

definition LOG_RECOVERED :: u64 where "LOG_RECOVERED = 0x20"

definition SNAPSHOT :: u64 where "SNAPSHOT = 0x40"

definition DIE_AF_COMMIT :: u64 where "DIE_AF_COMMIT = 0x80"

section \<open>Endpoints and configuration\<close>

datatype qp_id = CTRL_QP | LOG_QP

text \<open>A queue pair: \<open>qp_num\<close> is the number the verbs library gave the local one, \<open>remote_qpn\<close> the
  number of the one at the other side.\<close>

record rc_qp_t =
  qp_num :: u32
  remote_qpn :: u32
  signaled_wr_id :: u64
  qp_send_count :: u32
  qp_state :: u8

record rem_mem_t =
  rm_raddr :: u64
  rm_rkey :: u32

text \<open>\<open>server_t\<close> with the fields of its endpoint \<open>ep\<close> (\<open>dare_ib_ep_t\<close>); \<open>ep_ah\<close> says whether its
  address handle exists.\<close>

record server_t =
  next_wr_id :: u64
  cached_end_offset :: u64
  last_get_read_ssn :: u64
  fail_count :: u8
  next_lr_step :: u8
  send_flag :: bool
  send_count :: u8
  ep_lid :: u16
  ep_gid :: "u8 list"
  ep_ud_qpn :: u32
  ep_ah :: bool
  rmt_mr :: "qp_id \<Rightarrow> rem_mem_t"
  ep_mtu :: u32
  rc_qp :: "qp_id \<Rightarrow> rc_qp_t"
  rc_connected :: bool
  log_access :: bool

record server_config_t =
  cfg_cid :: dare_cid_t
  cfg_cid_offset :: u64
  cfg_cid_idx :: u64
  cfg_req_id :: u64
  cfg_servers :: "server_t list"
  cfg_clt_id :: u16
  cfg_idx :: u8
  cfg_len :: u8

section \<open>Control data\<close>

record vote_req_t =
  vr_sid :: u64
  vr_index :: u64
  vr_term :: u64
  vr_cid :: dare_cid_t

record log_offsets_t =
  lo_head :: u64
  lo_apply :: u64
  lo_commit :: u64
  lo_end :: u64

record sm_rep_t =
  sr_sid :: u64
  sr_raddr :: u64
  sr_rkey :: u32
  sr_len :: u32

record ctrl_data_t =
  c_sid :: u64
  c_vote_req :: "vote_req_t list"
  c_log_offsets :: "log_offsets_t list"
  c_sm_rep :: "sm_rep_t list"
  c_sm_req :: "u64 list"
  c_hb :: "u64 list"
  c_vote_ack :: "u64 list"
  c_rsid :: "u64 list"
  c_apply_offsets :: "u64 list"
  c_vote_sid :: "u64 list"

section \<open>The outside\<close>

datatype ibv_wc_status =
  IBV_WC_SUCCESS | IBV_WC_LOC_LEN_ERR | IBV_WC_LOC_QP_OP_ERR | IBV_WC_LOC_EEC_OP_ERR
| IBV_WC_LOC_PROT_ERR | IBV_WC_WR_FLUSH_ERR | IBV_WC_MW_BIND_ERR | IBV_WC_BAD_RESP_ERR
| IBV_WC_LOC_ACCESS_ERR | IBV_WC_REM_INV_REQ_ERR | IBV_WC_REM_ACCESS_ERR | IBV_WC_REM_OP_ERR
| IBV_WC_RETRY_EXC_ERR | IBV_WC_RNR_RETRY_EXC_ERR | IBV_WC_LOC_RDD_VIOL_ERR
| IBV_WC_REM_INV_RD_REQ_ERR | IBV_WC_REM_ABORT_ERR | IBV_WC_INV_EECN_ERR
| IBV_WC_INV_EEC_STATE_ERR | IBV_WC_FATAL_ERR | IBV_WC_RESP_TIMEOUT_ERR | IBV_WC_GENERAL_ERR

record ibv_wc =
  wc_wr_id :: u64
  wc_status :: ibv_wc_status

text \<open>A write to the control data (or to the NC-buffers) by an RDMA operation: a slot and its value.\<close>

datatype dma =
  DmaVoteReq u8 vote_req_t | DmaOffsets u8 log_offsets_t | DmaSmRep u8 sm_rep_t | DmaSmReq u8 u64
| DmaHb u8 u64 | DmaVoteAck u8 u64 | DmaRsid u8 u64 | DmaApply u8 u64 | DmaVoteSid u8 u64
| DmaNcLen u8 u64 | DmaNcBuf u8 "dare_log_entry_det_t list"

datatype poll = Poll "dma list" "ibv_wc list" | PollError

text \<open>What an RDMA operation reads or writes at the other side; a slot of a remote array is the
  one of this server's index.\<close>

datatype rdma_op =
  WriteHb u64 | WriteVoteReq vote_req_t | WriteVoteSid u64 | WriteVoteAck u64 | WriteSmReq u64
| WriteSmRep sm_rep_t | WriteEnd u64 | WriteCommit u64 | WriteLog u64 u64 u64
| ReadSid | ReadVoteSid | ReadOffsets | ReadCommit | ReadNcLen | ReadNcBuf u64 | ReadApply | ReadSnapshot | ReadLog

record wr_t =
  wr_to :: u8
  wr_qp :: qp_id
  wr_id :: u64
  wr_signaled :: bool
  wr_op :: rdma_op

datatype ibv_qp_state = IBV_QPS_RESET | IBV_QPS_INIT | IBV_QPS_RTR | IBV_QPS_RTS

text \<open>The datagrams of dare_ibv_ud.h.\<close>

record rc_syn_t =
  syn_id :: u64
  syn_slid :: u16
  syn_gid :: "u8 list"
  syn_log :: rem_mem_t
  syn_ctrl :: rem_mem_t
  syn_mtu :: u32
  syn_idx :: u8
  syn_size :: u8
  syn_qpns :: "(u32 \<times> u32) list"

record reconf_rep_t =
  rep_id :: u64
  rep_idx :: u8
  rep_cid :: dare_cid_t
  rep_cid_idx :: u64
  rep_head :: u64

datatype ud_msg =
  JoinMsg u64 u16 "u8 list" | RcSyn rc_syn_t | RcSynAck rc_syn_t | RcAck u64 u8
| CfgReply reconf_rep_t | CsmReply u64 "u8 list" | OtherMsg u8

text \<open>A poll of the receive queue of the datagrams: an error, a completion with a bad status, one that
  is not a receive, or a datagram with the LID and the queue pair it came from.\<close>

datatype ud_poll = UdError | UdBadStatus | UdOther u16 | UdRecv u16 u32 ud_msg

datatype event =
  Posted wr_t | QpModify u8 qp_id ibv_qp_state | AhDestroy u8 | AhCreate u8
| UdSend u16 u32 ud_msg | McastSend u32 ud_msg
| BecomeLeader | AppendNoOp
| StoreCmd u16 | DoAction u16 u8 "u8 list" | UpdateState | CreateSnapshot | ApplySnapshot

datatype hb_cb = HbReceive | HbSend

datatype timer_cb =
  InitNetwork | JoinCluster | ExchangeRcInfo | UpdateRcInfo | GetReplicatedVote | SendSmRequest | RecoverLog

text \<open>The entries the proxy thread queues for the log (message.h).\<close>

record tailq_entry_t =
  tq_type :: u8
  tq_connection_id :: u16
  tq_req_id :: u64
  tq_cmd :: sm_cmd_t

text \<open>The fields of \<open>IBDEV\<close> that do not change: the addresses and keys of the local memory regions,
  the MTU and the identity of the port.\<close>

record ib_device_t =
  dev_lid :: u16
  dev_slid :: u16
  dev_gid :: "u8 list"
  dev_mtu :: u32
  lcl_mr :: "qp_id \<Rightarrow> rem_mem_t"
  prereg_mr :: rem_mem_t

record snapshot_t =
  sn_last_entry :: dare_log_entry_det_t
  sn_len :: u32

section \<open>The server\<close>

record dare_server =
  config :: server_config_t
  ctrl :: ctrl_data_t
  slog :: dare_log_t
  dare_state :: u64
  prev_log_entry_head :: bool
  last_applied_entry :: dare_log_entry_det_t
  last_write_csm_idx :: u64
  last_cmt_write_csm_idx :: u64
  leader_failed :: bool
  hb_timeout_flag :: bool
  latest_hb_received :: u64
  hb_event :: hb_cb
  hb_armed :: bool
  prune_armed :: bool
  adjust_armed :: bool
  timer_event :: timer_cb
  timer_armed :: bool
  poll_armed :: bool
  total_count :: u64
  fp_count :: u64
  hb_timeout_tenths :: nat
  endpoints :: ep_db
  sm :: kvs_sm_t
  prereg_snapshot :: snapshot_t
  tailq :: "tailq_entry_t list"
  dev :: ib_device_t
  request_id :: u64
  ssn :: u64
  wa_flag :: bool
  rc_max_send_wr :: u32
  env_rcs :: "int list"
  polls :: "poll list"
  ud_in :: "ud_poll list"
  trace :: "event list"
  halted :: bool

abbreviation sid_of :: "dare_server \<Rightarrow> u64" where
  "sid_of s \<equiv> c_sid (ctrl s)"

abbreviation cid_of :: "dare_server \<Rightarrow> dare_cid_t" where
  "cid_of s \<equiv> cfg_cid (config s)"

abbreviation idx_of :: "dare_server \<Rightarrow> u8" where
  "idx_of s \<equiv> cfg_idx (config s)"

definition srv :: "dare_server \<Rightarrow> u8 \<Rightarrow> server_t" where
  "srv s i = cfg_servers (config s) ! unat i"

definition upd_srv :: "u8 \<Rightarrow> (server_t \<Rightarrow> server_t) \<Rightarrow> dare_server \<Rightarrow> dare_server" where
  "upd_srv i f s = s\<lparr>config := config s\<lparr>cfg_servers := (cfg_servers (config s))[unat i := f (srv s i)]\<rparr>\<rparr>"

definition set_cid :: "dare_cid_t \<Rightarrow> dare_server \<Rightarrow> dare_server" where
  "set_cid c s = s\<lparr>config := config s\<lparr>cfg_cid := c\<rparr>\<rparr>"

definition set_owner :: "u64 \<Rightarrow> u16 \<Rightarrow> dare_server \<Rightarrow> dare_server" where
  "set_owner r c s = s\<lparr>config := config s\<lparr>cfg_req_id := r, cfg_clt_id := c\<rparr>\<rparr>"

definition emit :: "event \<Rightarrow> dare_server \<Rightarrow> dare_server" where
  "emit e s = s\<lparr>trace := trace s @ [e]\<rparr>"

definition halt :: "dare_server \<Rightarrow> dare_server" where
  "halt s = s\<lparr>halted := True\<rparr>"

text \<open>The indices of \<open>for (i = 0; i < size; i++)\<close> over bytes.\<close>

definition upto8 :: "u8 \<Rightarrow> u8 list" where
  "upto8 n = map of_nat [0..<unat n]"

text \<open>The arrays of the control data have \<open>MAX_SERVER_COUNT\<close> slots.  The loops that take a SID from the slots
  of a larger group, or the heartbeat of the server its SID names, read outside of them otherwise; their
  result is then \<open>None\<close>.\<close>

definition fits_arrays :: "dare_server \<Rightarrow> bool" where
  "fits_arrays s = (unat (get_group_size (cid_of s)) \<le> MAX_SERVER_COUNT)"

definition leader_slot :: "dare_server \<Rightarrow> bool" where
  "leader_slot s = (unat (SID_GET_IDX (sid_of s)) < MAX_SERVER_COUNT)"

definition next_rc :: "dare_server \<Rightarrow> int \<times> dare_server" where
  "next_rc s = (case env_rcs s of [] \<Rightarrow> (0, s) | r # rs \<Rightarrow> (r, s\<lparr>env_rcs := rs\<rparr>))"

text \<open>An NC-buffer is the list of its valid entries; reading only its length leaves entries that are
  not read yet.\<close>

definition resize_nc :: "u64 \<Rightarrow> dare_log_entry_det_t list \<Rightarrow> dare_log_entry_det_t list" where
  "resize_nc n b = take (unat n) (b @ replicate (unat n) \<lparr>det_idx = 0, det_term = 0, det_offset = 0\<rparr>)"

fun do_dma :: "dma \<Rightarrow> dare_server \<Rightarrow> dare_server" where
  "do_dma (DmaVoteReq i v) s = s\<lparr>ctrl := ctrl s\<lparr>c_vote_req := (c_vote_req (ctrl s))[unat i := v]\<rparr>\<rparr>"
| "do_dma (DmaOffsets i v) s = s\<lparr>ctrl := ctrl s\<lparr>c_log_offsets := (c_log_offsets (ctrl s))[unat i := v]\<rparr>\<rparr>"
| "do_dma (DmaSmRep i v) s = s\<lparr>ctrl := ctrl s\<lparr>c_sm_rep := (c_sm_rep (ctrl s))[unat i := v]\<rparr>\<rparr>"
| "do_dma (DmaSmReq i v) s = s\<lparr>ctrl := ctrl s\<lparr>c_sm_req := (c_sm_req (ctrl s))[unat i := v]\<rparr>\<rparr>"
| "do_dma (DmaHb i v) s = s\<lparr>ctrl := ctrl s\<lparr>c_hb := (c_hb (ctrl s))[unat i := v]\<rparr>\<rparr>"
| "do_dma (DmaVoteAck i v) s = s\<lparr>ctrl := ctrl s\<lparr>c_vote_ack := (c_vote_ack (ctrl s))[unat i := v]\<rparr>\<rparr>"
| "do_dma (DmaRsid i v) s = s\<lparr>ctrl := ctrl s\<lparr>c_rsid := (c_rsid (ctrl s))[unat i := v]\<rparr>\<rparr>"
| "do_dma (DmaApply i v) s = s\<lparr>ctrl := ctrl s\<lparr>c_apply_offsets := (c_apply_offsets (ctrl s))[unat i := v]\<rparr>\<rparr>"
| "do_dma (DmaVoteSid i v) s = s\<lparr>ctrl := ctrl s\<lparr>c_vote_sid := (c_vote_sid (ctrl s))[unat i := v]\<rparr>\<rparr>"
| "do_dma (DmaNcLen i n) s = s\<lparr>slog := slog s\<lparr>log_nc_buf := (log_nc_buf (slog s))[unat i := resize_nc n (log_nc_buf (slog s) ! unat i)]\<rparr>\<rparr>"
| "do_dma (DmaNcBuf i v) s = s\<lparr>slog := slog s\<lparr>log_nc_buf := (log_nc_buf (slog s))[unat i := v]\<rparr>\<rparr>"

section \<open>Roles\<close>

definition IS_NONE :: "dare_server \<Rightarrow> bool" where
  "IS_NONE s = (SID_GET_IDX (sid_of s) = idx_of s \<and> \<not> SID_GET_L (sid_of s) \<and> SID_GET_TERM (sid_of s) = 0)"

definition IS_LEADER :: "dare_server \<Rightarrow> bool" where
  "IS_LEADER s = (\<not> IS_NONE s \<and> SID_GET_IDX (sid_of s) = idx_of s \<and> SID_GET_L (sid_of s))"

definition IS_CANDIDATE :: "dare_server \<Rightarrow> bool" where
  "IS_CANDIDATE s = (\<not> IS_NONE s \<and> SID_GET_IDX (sid_of s) = idx_of s \<and> \<not> SID_GET_L (sid_of s))"

definition IS_FOLLOWER :: "dare_server \<Rightarrow> bool" where
  "IS_FOLLOWER s = (\<not> IS_NONE s \<and> \<not> IS_LEADER s \<and> \<not> IS_CANDIDATE s)"

text \<open>\<open>server_update_sid\<close>: a compare-and-swap on the server's own SID; a failed swap ends the process.\<close>

definition server_update_sid :: "u64 \<Rightarrow> u64 \<Rightarrow> dare_server \<Rightarrow> dare_server" where
  "server_update_sid new_sid old_sid s =
    (if sid_of s = old_sid then s\<lparr>ctrl := ctrl s\<lparr>c_sid := new_sid\<rparr>\<rparr> else halt s)"

section \<open>Start-up\<close>

definition server_init :: server_t where
  "server_init = \<lparr>next_wr_id = 0, cached_end_offset = 0, last_get_read_ssn = 0, fail_count = 0,
    next_lr_step = LR_GET_WRITE, send_flag = True, send_count = 0, ep_lid = 0, ep_gid = [], ep_ud_qpn = 0, ep_ah = False,
    rmt_mr = (\<lambda>_. \<lparr>rm_raddr = 0, rm_rkey = 0\<rparr>), ep_mtu = 0,
    rc_qp = (\<lambda>_. \<lparr>qp_num = 0, remote_qpn = 0, signaled_wr_id = 0, qp_send_count = 0, qp_state = RC_QP_ACTIVE\<rparr>),
    rc_connected = False, log_access = False\<rparr>"

definition zero_cid :: dare_cid_t where
  "zero_cid = \<lparr>cid_epoch = 0, cid_size0 = 0, cid_size1 = 0, cid_state = 0, cid_bitmask = 0\<rparr>"

definition zero_det :: dare_log_entry_det_t where
  "zero_det = \<lparr>det_idx = 0, det_term = 0, det_offset = 0\<rparr>"

definition ctrl_init :: ctrl_data_t where
  "ctrl_init =
    \<lparr>c_sid = SID_NULL,
     c_vote_req = replicate MAX_SERVER_COUNT \<lparr>vr_sid = 0, vr_index = 0, vr_term = 0, vr_cid = zero_cid\<rparr>,
     c_log_offsets = replicate MAX_SERVER_COUNT \<lparr>lo_head = 0, lo_apply = 0, lo_commit = 0, lo_end = 0\<rparr>,
     c_sm_rep = replicate MAX_SERVER_COUNT \<lparr>sr_sid = 0, sr_raddr = 0, sr_rkey = 0, sr_len = 0\<rparr>,
     c_sm_req = replicate MAX_SERVER_COUNT 0, c_hb = replicate MAX_SERVER_COUNT 0,
     c_vote_ack = replicate MAX_SERVER_COUNT 0, c_rsid = replicate MAX_SERVER_COUNT 0,
     c_apply_offsets = replicate MAX_SERVER_COUNT 0, c_vote_sid = replicate MAX_SERVER_COUNT 0\<rparr>"

text \<open>The zero-initialised globals with the allocations of \<open>init_server_data\<close>, the first timer event and
  the initial timeout (two heartbeat periods) of \<open>dare_server_init\<close>.\<close>

definition new_server :: "ib_device_t \<Rightarrow> u32 \<Rightarrow> dare_server" where
  "new_server d max_send_wr =
    \<lparr>config = \<lparr>cfg_cid = zero_cid, cfg_cid_offset = 0, cfg_cid_idx = 0, cfg_req_id = 0,
       cfg_servers = replicate MAX_SERVER_COUNT server_init, cfg_clt_id = 0, cfg_idx = 0, cfg_len = of_nat MAX_SERVER_COUNT\<rparr>,
     ctrl = ctrl_init, slog = log_new, dare_state = 0, prev_log_entry_head = False,
     last_applied_entry = zero_det, last_write_csm_idx = 0, last_cmt_write_csm_idx = 0,
     leader_failed = False, hb_timeout_flag = False, latest_hb_received = 0, hb_event = HbReceive, hb_armed = False,
     prune_armed = False, adjust_armed = False, timer_event = InitNetwork, timer_armed = True, poll_armed = False,
     total_count = 0, fp_count = 0, hb_timeout_tenths = 20, endpoints = Null, sm = create_kvs_sm 0,
     prereg_snapshot = \<lparr>sn_last_entry = zero_det, sn_len = 0\<rparr>, tailq = [], dev = d, request_id = 0,
     ssn = 0, wa_flag = False, rc_max_send_wr = max_send_wr, env_rcs = [], polls = [], ud_in = [], trace = [], halted = False\<rparr>"

text \<open>\<open>init_server_data\<close> for the server with index \<open>server_idx\<close> in a group of \<open>group_size\<close>; \<open>None\<close> is
  the error return.\<close>

definition init_server_data :: "u8 \<Rightarrow> u8 \<Rightarrow> dare_server \<Rightarrow> dare_server option" where
  "init_server_data group_size server_idx s =
    (if MAX_SERVER_COUNT < unat group_size then None
     else (let cid = fold (\<lambda>i c. CID_SERVER_ADD c i) (upto8 group_size)
             (zero_cid\<lparr>cid_size0 := group_size, cid_state := CID_STABLE\<rparr>)
       in Some (s\<lparr>config := (config s)\<lparr>cfg_cid := cid, cfg_idx := server_idx\<rparr>\<rparr>)))"

section \<open>Basic facts\<close>

lemma upd_srv_sel [simp]:
  "ctrl (upd_srv i f s) = ctrl s" "slog (upd_srv i f s) = slog s" "cid_of (upd_srv i f s) = cid_of s"
  "idx_of (upd_srv i f s) = idx_of s" "polls (upd_srv i f s) = polls s" "trace (upd_srv i f s) = trace s"
  "halted (upd_srv i f s) = halted s" "ssn (upd_srv i f s) = ssn s"
  "length (cfg_servers (config (upd_srv i f s))) = length (cfg_servers (config s))"
  by (simp_all add: upd_srv_def)

lemma srv_upd_srv: "unat i < length (cfg_servers (config s)) \<Longrightarrow>
    srv (upd_srv i f s) j = (if j = i then f (srv s i) else srv s j)"
  by (auto simp: srv_def upd_srv_def nth_list_update word_unat_eq_iff)

lemma emit_sel [simp]:
  "ctrl (emit e s) = ctrl s" "slog (emit e s) = slog s" "config (emit e s) = config s"
  "halted (emit e s) = halted s" "polls (emit e s) = polls s" "ssn (emit e s) = ssn s"
  "trace (emit e s) = trace s @ [e]"
  by (simp_all add: emit_def)

lemma halt_sel [simp]:
  "ctrl (halt s) = ctrl s" "slog (halt s) = slog s" "config (halt s) = config s" "halted (halt s)"
  "trace (halt s) = trace s"
  by (simp_all add: halt_def)

lemma set_upto8 [simp]: "i \<in> set (upto8 n) \<longleftrightarrow> i < n"
proof
  assume "i \<in> set (upto8 n)"
  then obtain k where "i = of_nat k" "k < unat n" by (auto simp: upto8_def)
  then show "i < n" using unat_less_power [of n] by (simp add: word_less_nat_alt unat_of_nat_small)
next
  assume "i < n"
  then show "i \<in> set (upto8 n)"
    by (auto simp: upto8_def word_less_nat_alt image_iff intro!: bexI [of _ "unat i"])
qed

lemma distinct_upto8: "distinct (upto8 n)"
proof -
  have "inj_on (of_nat :: nat \<Rightarrow> u8) {0..<unat n}"
    using unat_less_power [of n] by (intro inj_on_inverseI [of _ unat]) (simp add: unat_of_nat_small)
  then show ?thesis by (simp add: upto8_def distinct_map)
qed

lemma length_upto8 [simp]: "length (upto8 n) = unat n"
  by (simp add: upto8_def)

lemma roles_exclusive: "\<not> (IS_LEADER s \<and> IS_CANDIDATE s)" "\<not> (IS_LEADER s \<and> IS_FOLLOWER s)"
  "IS_NONE s \<or> IS_LEADER s \<or> IS_CANDIDATE s \<or> IS_FOLLOWER s"
  by (auto simp: IS_LEADER_def IS_CANDIDATE_def IS_FOLLOWER_def)

end
