(* ===== verification/Dare_Rc.thy ===== *)
theory Dare_Rc
  imports Dare_State
begin

text \<open>
  Work requests and work completions of the reliable connections (dare_ibv_rc.c): the queue pairs'
  states, posting a send with the overflow protection of the send queue, emptying the completion
  queue, waiting for a majority or for one completion, and log access.

  \<open>posted_sends\<close> is the array of the number of outstanding sends per server (negative: failed),
  \<open>None\<close> when the C code passes NULL.
\<close>

datatype wc_rc = WC_SUCCESS | WC_ERROR | WC_FAILURE | WC_SOFTWARE_BUG

datatype rc_result = RC_ERROR | RC_SUCCESS | RC_INSUCCESS

section \<open>Queue pair states\<close>

definition upd_qp :: "u8 \<Rightarrow> qp_id \<Rightarrow> (rc_qp_t \<Rightarrow> rc_qp_t) \<Rightarrow> dare_server \<Rightarrow> dare_server" where
  "upd_qp i qp f s = upd_srv i (\<lambda>v. v\<lparr>rc_qp := (rc_qp v)(qp := f (rc_qp v qp))\<rparr>) s"

definition modify_qp :: "u8 \<Rightarrow> qp_id \<Rightarrow> ibv_qp_state \<Rightarrow> dare_server \<Rightarrow> int \<times> dare_server" where
  "modify_qp i qp st s =
    (let (rc, s) = next_rc s in if rc \<noteq> 0 then (1, s) else (0, emit (QpModify i qp st) s))"

definition rc_qp_reset :: "u8 \<Rightarrow> qp_id \<Rightarrow> dare_server \<Rightarrow> int \<times> dare_server" where
  "rc_qp_reset i qp s = modify_qp i qp IBV_QPS_RESET s"

definition rc_qp_reset_to_init :: "u8 \<Rightarrow> qp_id \<Rightarrow> dare_server \<Rightarrow> int \<times> dare_server" where
  "rc_qp_reset_to_init i qp s =
    modify_qp i qp IBV_QPS_INIT
      (upd_qp i qp (\<lambda>q. q\<lparr>signaled_wr_id := 0, qp_send_count := 0, qp_state := RC_QP_ACTIVE\<rparr>) s)"

definition rc_qp_init_to_rtr :: "u8 \<Rightarrow> qp_id \<Rightarrow> dare_server \<Rightarrow> int \<times> dare_server" where
  "rc_qp_init_to_rtr i qp s = modify_qp i qp IBV_QPS_RTR s"

definition rc_qp_rtr_to_rts :: "u8 \<Rightarrow> qp_id \<Rightarrow> dare_server \<Rightarrow> int \<times> dare_server" where
  "rc_qp_rtr_to_rts i qp s = modify_qp i qp IBV_QPS_RTS s"

definition rc_qp_restart :: "u8 \<Rightarrow> qp_id \<Rightarrow> dare_server \<Rightarrow> int \<times> dare_server" where
  "rc_qp_restart i qp s =
    (let (rc, s) = rc_qp_reset i qp s in
     if rc \<noteq> 0 then (1, s) else
     let (rc, s) = rc_qp_reset_to_init i qp s in
     if rc \<noteq> 0 then (1, s) else
     let (rc, s) = rc_qp_init_to_rtr i qp s in
     if rc \<noteq> 0 then (1, s) else
     let (rc, s) = rc_qp_rtr_to_rts i qp s in
     if rc \<noteq> 0 then (1, s) else (0, s))"

text \<open>\<open>rc_qp_reset_to_rts\<close> has no return statement on success; the value its caller sees is one
  more value of the environment.\<close>

definition rc_qp_reset_to_rts :: "u8 \<Rightarrow> qp_id \<Rightarrow> dare_server \<Rightarrow> int \<times> dare_server" where
  "rc_qp_reset_to_rts i qp s =
    (let (rc, s) = rc_qp_restart i qp s in if rc \<noteq> 0 then (1, s) else next_rc s)"

definition rc_disconnect_server :: "u8 \<Rightarrow> dare_server \<Rightarrow> int \<times> dare_server" where
  "rc_disconnect_server i s =
    (if \<not> rc_connected (srv s i) then (0, s)
     else let s = emit (AhDestroy i) (upd_srv i (\<lambda>v. v\<lparr>ep_lid := 0, rc_connected := False, ep_ah := False\<rparr>) s);
              (rc, s) = rc_qp_reset i LOG_QP s
          in if rc \<noteq> 0 then (1, s) else
             let (rc, s) = rc_qp_reset i CTRL_QP s in if rc \<noteq> 0 then (1, s) else (0, s))"

text \<open>\<open>dare_ib_disconnect_server\<close> only reports the error.\<close>

definition dare_ib_disconnect_server :: "u8 \<Rightarrow> dare_server \<Rightarrow> dare_server" where
  "dare_ib_disconnect_server i s = snd (rc_disconnect_server i s)"

fun revoke_loop :: "u8 list \<Rightarrow> dare_server \<Rightarrow> int \<times> dare_server" where
  "revoke_loop [] s = (0, s)"
| "revoke_loop (i # is) s =
    (if i = idx_of s \<or> \<not> CID_IS_SERVER_ON (cid_of s) i \<or> \<not> rc_connected (srv s i) \<or> \<not> log_access (srv s i)
     then revoke_loop is s
     else let (rc, s) = rc_qp_reset i LOG_QP s in
       if rc \<noteq> 0 then (1, s) else revoke_loop is (upd_srv i (\<lambda>v. v\<lparr>log_access := False\<rparr>) s))"

definition rc_revoke_log_access :: "dare_server \<Rightarrow> int \<times> dare_server" where
  "rc_revoke_log_access s = revoke_loop (upto8 (get_extended_group_size (cid_of s))) s"

fun restore_loop :: "u8 list \<Rightarrow> dare_server \<Rightarrow> int \<times> dare_server" where
  "restore_loop [] s = (0, s)"
| "restore_loop (i # is) s =
    (if i = idx_of s \<or> \<not> CID_IS_SERVER_ON (cid_of s) i \<or> \<not> rc_connected (srv s i) \<or> log_access (srv s i)
     then restore_loop is s
     else let (rc, s) = rc_qp_reset_to_rts i LOG_QP s in
       if rc \<noteq> 0 then (1, s) else restore_loop is (upd_srv i (\<lambda>v. v\<lparr>log_access := True\<rparr>) s))"

definition rc_restore_log_access :: "dare_server \<Rightarrow> int \<times> dare_server" where
  "rc_restore_log_access s =
    (let leader = SID_GET_IDX (sid_of s) in
     if leader \<noteq> idx_of s then
       (if \<not> CID_IS_SERVER_ON (cid_of s) leader then (1, s)
        else if \<not> rc_connected (srv s leader) then (1, s)
        else if log_access (srv s leader) then (0, s)
        else let (rc, s) = rc_qp_reset_to_rts leader LOG_QP s in
          if rc \<noteq> 0 then (1, s) else (0, upd_srv leader (\<lambda>v. v\<lparr>log_access := True\<rparr>) s))
     else if SID_GET_L (sid_of s) then restore_loop (upto8 (get_extended_group_size (cid_of s))) s
     else (0, s))"

section \<open>Work completions\<close>

definition handle_work_completion :: "ibv_wc_status \<Rightarrow> wc_rc" where
  "handle_work_completion st = (case st of
     IBV_WC_SUCCESS \<Rightarrow> WC_SUCCESS
   | IBV_WC_LOC_LEN_ERR \<Rightarrow> WC_SOFTWARE_BUG | IBV_WC_LOC_QP_OP_ERR \<Rightarrow> WC_SOFTWARE_BUG
   | IBV_WC_LOC_EEC_OP_ERR \<Rightarrow> WC_SOFTWARE_BUG | IBV_WC_LOC_PROT_ERR \<Rightarrow> WC_SOFTWARE_BUG
   | IBV_WC_MW_BIND_ERR \<Rightarrow> WC_SOFTWARE_BUG | IBV_WC_LOC_ACCESS_ERR \<Rightarrow> WC_SOFTWARE_BUG
   | IBV_WC_REM_ACCESS_ERR \<Rightarrow> WC_SOFTWARE_BUG | IBV_WC_RNR_RETRY_EXC_ERR \<Rightarrow> WC_SOFTWARE_BUG
   | IBV_WC_LOC_RDD_VIOL_ERR \<Rightarrow> WC_SOFTWARE_BUG | IBV_WC_REM_INV_RD_REQ_ERR \<Rightarrow> WC_SOFTWARE_BUG
   | IBV_WC_REM_ABORT_ERR \<Rightarrow> WC_SOFTWARE_BUG | IBV_WC_INV_EECN_ERR \<Rightarrow> WC_SOFTWARE_BUG
   | IBV_WC_INV_EEC_STATE_ERR \<Rightarrow> WC_SOFTWARE_BUG
   | IBV_WC_WR_FLUSH_ERR \<Rightarrow> WC_FAILURE
   | IBV_WC_BAD_RESP_ERR \<Rightarrow> WC_ERROR | IBV_WC_REM_INV_REQ_ERR \<Rightarrow> WC_ERROR | IBV_WC_REM_OP_ERR \<Rightarrow> WC_ERROR
   | IBV_WC_RETRY_EXC_ERR \<Rightarrow> WC_FAILURE
   | IBV_WC_FATAL_ERR \<Rightarrow> WC_ERROR | IBV_WC_RESP_TIMEOUT_ERR \<Rightarrow> WC_ERROR | IBV_WC_GENERAL_ERR \<Rightarrow> WC_ERROR)"

text \<open>The next step of the log replication towards a server, when the work request it waits for
  completes.\<close>

definition lr_advance :: "wc_rc \<Rightarrow> server_t \<Rightarrow> server_t" where
  "lr_advance rc v =
    (if rc = WC_SUCCESS then
       (if next_lr_step v = LR_UPDATE_LOG then
          (if send_count v = 0 then v\<lparr>send_flag := True\<rparr>
           else if send_count v = 1 then v\<lparr>next_lr_step := LR_UPDATE_END, send_flag := True\<rparr>
           else if send_count v = 2 then v\<lparr>send_count := send_count v - 1\<rparr>
           else v)
        else if next_lr_step v \<noteq> LR_UPDATE_END then v\<lparr>next_lr_step := next_lr_step v + 1, send_flag := True\<rparr>
        else v\<lparr>next_lr_step := LR_UPDATE_LOG, send_flag := True\<rparr>)
     else
       (if next_lr_step v = LR_UPDATE_LOG then
          (if send_count v = 0 \<or> send_count v = 1 then v\<lparr>send_flag := True\<rparr>
           else if send_count v = 2 then v\<lparr>send_count := 0\<rparr>
           else v)
        else v\<lparr>send_flag := True\<rparr>))"

definition handle_lr_work_completion :: "u64 \<Rightarrow> wc_rc \<Rightarrow> dare_server \<Rightarrow> dare_server" where
  "handle_lr_work_completion wrid rc s =
    (let w = WRID_UNSET_WA (WRID_UNSET_TAG wrid); i = WRID_GET_CONN w in
     if w = next_wr_id (srv s i) then upd_srv i (lr_advance rc) s else s)"

text \<open>What the three loops over work completions do first: forget the last read of a log QP, and
  look for the special signaled work request.  The first component of the result says whether the
  QP may be restarted, the second whether the signaled request was found.\<close>

definition note_read_ssn :: "qp_id \<Rightarrow> u64 \<Rightarrow> server_t \<Rightarrow> server_t" where
  "note_read_ssn qp wrid v =
    (if qp = LOG_QP \<and> WRID_GET_SSN wrid \<ge> last_get_read_ssn v then v\<lparr>last_get_read_ssn := 0\<rparr> else v)"

definition check_signaled :: "qp_id \<Rightarrow> u64 \<Rightarrow> server_t \<Rightarrow> bool \<times> bool \<times> server_t" where
  "check_signaled qp wrid v =
    (let q = rc_qp v qp in
     if signaled_wr_id q \<noteq> 0 then
       (if wrid = signaled_wr_id q
        then (True, True, v\<lparr>rc_qp := (rc_qp v)(qp := q\<lparr>signaled_wr_id := WRID_UNSET_TAG wrid,
               qp_state := if qp_state q = RC_QP_BLOCKED then RC_QP_ERROR else qp_state q\<rparr>)\<rparr>)
        else (False, False, v))
     else (True, False, v))"

text \<open>A failed work request moves the QP into the error state, or blocks it while a signaled work
  request is outstanding, and counts as a failure of the server on the control QP.\<close>

definition fail_send :: "qp_id \<Rightarrow> bool \<Rightarrow> server_t \<Rightarrow> server_t" where
  "fail_send qp can_restart v =
    (let q = rc_qp v qp;
         v = (if can_restart then v\<lparr>rc_qp := (rc_qp v)(qp := q\<lparr>qp_state := RC_QP_ERROR\<rparr>)\<rparr>
              else if qp_state q \<noteq> RC_QP_ERROR then v\<lparr>rc_qp := (rc_qp v)(qp := q\<lparr>qp_state := RC_QP_BLOCKED\<rparr>)\<rparr>
              else v)
     in if qp = CTRL_QP then v\<lparr>fail_count := fail_count v + 1\<rparr> else v)"

definition upd_posted :: "u8 \<Rightarrow> (int \<Rightarrow> int) \<Rightarrow> int list \<Rightarrow> int list" where
  "upd_posted i f p = p[unat i := f (p ! unat i)]"

section \<open>Emptying the completion queue\<close>

definition ecq_wc :: "u8 \<Rightarrow> qp_id \<Rightarrow> ibv_wc \<Rightarrow> bool \<times> int list option \<times> dare_server \<Rightarrow> bool \<times> int list option \<times> dare_server" where
  "ecq_wc server_id qp wc = (\<lambda>(wait, posted, s).
    (let wrid = wc_wr_id wc; conn = WRID_GET_CONN wrid;
         (can_restart, found, v) = check_signaled qp wrid (note_read_ssn qp wrid (srv s conn));
         wait = (if found \<and> conn = server_id then False else wait);
         rc = handle_work_completion (wc_status wc);
         s = handle_lr_work_completion wrid rc (upd_srv conn (\<lambda>_. v) s)
     in case rc of
          WC_SUCCESS \<Rightarrow> (wait, if WRID_GET_SSN wrid = ssn s then map_option (upd_posted conn (\<lambda>n. n - 1)) posted else posted,
                        upd_srv conn (\<lambda>v. v\<lparr>fail_count := 0\<rparr>) s)
        | WC_FAILURE \<Rightarrow> (wait, if WRID_GET_SSN wrid = ssn s then map_option (upd_posted conn (\<lambda>_. -1)) posted else posted,
                        upd_srv conn (fail_send qp can_restart) s)
        | _ \<Rightarrow> (wait, posted, s)))"

fun ecq_loop :: "poll list \<Rightarrow> u8 \<Rightarrow> qp_id \<Rightarrow> bool \<times> int list option \<times> dare_server \<Rightarrow> (int \<times> int list option \<times> dare_server) option" where
  "ecq_loop [] server_id qp (wait, posted, s) = (if wait then None else Some (0, posted, s\<lparr>polls := []\<rparr>))"
| "ecq_loop (PollError # ps) server_id qp (wait, posted, s) = Some (1, posted, s\<lparr>polls := ps\<rparr>)"
| "ecq_loop (Poll ds wcs # ps) server_id qp (wait, posted, s) =
    (if wcs = []
     then (if wait then ecq_loop ps server_id qp (wait, posted, fold do_dma ds s)
           else Some (0, posted, (fold do_dma ds s)\<lparr>polls := ps\<rparr>))
     else ecq_loop ps server_id qp (fold (ecq_wc server_id qp) wcs (wait, posted, fold do_dma ds s)))"

definition empty_completion_queue ::
  "u8 \<Rightarrow> qp_id \<Rightarrow> bool \<Rightarrow> int list option \<Rightarrow> dare_server \<Rightarrow> (int \<times> int list option \<times> dare_server) option" where
  "empty_completion_queue server_id qp wait posted s = ecq_loop (polls s) server_id qp (wait, posted, s)"

section \<open>Posting a send\<close>

text \<open>The identifier of a work request, and the special signaled request that keeps the send queue
  from overflowing: the result is the work request's identifier, whether it must be signaled, and
  whether the caller has to wait for the outstanding signaled request.\<close>

definition make_wr_id :: "u64 \<Rightarrow> u8 \<Rightarrow> bool \<Rightarrow> u64" where
  "make_wr_id n server_id wa =
    (let w = WRID_SET_CONN (WRID_SET_SSN 0 n) server_id in if wa then WRID_SET_WA w else w)"

definition guard_send_queue :: "u32 \<Rightarrow> u64 \<Rightarrow> rc_qp_t \<Rightarrow> u64 \<times> bool \<times> bool \<times> rc_qp_t" where
  "guard_send_queue max_wr wrid q =
    (let q = (if signaled_wr_id q \<noteq> 0 \<and> \<not> WRID_GET_TAG (signaled_wr_id q) then q\<lparr>signaled_wr_id := 0\<rparr> else q) in
     if qp_send_count q = drop_bit 2 max_wr \<and> signaled_wr_id q = 0
     then (let wrid = WRID_SET_TAG wrid in (wrid, True, False, q\<lparr>signaled_wr_id := wrid, qp_send_count := 0\<rparr>))
     else if qp_send_count q = drop_bit 2 (3 * max_wr) \<and> signaled_wr_id q \<noteq> 0 then (wrid, False, True, q)
     else (wrid, False, False, q))"

definition post_send ::
  "u8 \<Rightarrow> qp_id \<Rightarrow> rdma_op \<Rightarrow> bool \<Rightarrow> int list option \<Rightarrow> dare_server \<Rightarrow> (int \<times> int list option \<times> dare_server) option" where
  "post_send server_id qp oper signaled posted s =
    do {
      (rc, s) \<leftarrow> (if qp_state (rc_qp (srv s server_id) qp) = RC_QP_BLOCKED
        then map_option (\<lambda>(rc, _, s). (rc, s)) (empty_completion_queue server_id qp True None s)
        else Some (0, s));
      if rc \<noteq> 0 then Some (1, posted, s)
      else
        let s = (if qp_state (rc_qp (srv s server_id) qp) = RC_QP_ERROR
                 then upd_qp server_id qp (\<lambda>q. q\<lparr>qp_state := RC_QP_ACTIVE, qp_send_count := 0\<rparr>)
                   (snd (rc_qp_restart server_id qp s))
                 else s);
            s = upd_qp server_id qp (\<lambda>q. q\<lparr>qp_send_count := qp_send_count q + 1\<rparr>) s;
            wrid = make_wr_id (ssn s) server_id (wa_flag s);
            (wrid, tagged, wait, q) = guard_send_queue (rc_max_send_wr s) wrid (rc_qp (srv s server_id) qp);
            s = (upd_qp server_id qp (\<lambda>_. q) s)\<lparr>wa_flag := False\<rparr>;
            (rc, s) = next_rc s
        in if rc \<noteq> 0 then Some (1, posted, s)
           else do {
             (rc, posted, s) \<leftarrow> empty_completion_queue server_id qp wait posted
               (emit (Posted \<lparr>wr_to = server_id, wr_qp = qp, wr_id = wrid, wr_signaled = tagged \<or> signaled, wr_op = oper\<rparr>) s);
             Some (if rc \<noteq> 0 then 1 else 0, posted, s)
           }
    }"

section \<open>Waiting for completions\<close>

text \<open>One work completion of \<open>wait_for_majority\<close>.  The status that is evaluated is the one of the
  first element of the array (\<open>rc_wc_array[0]\<close>), whatever the element at hand.\<close>

definition wfm_wc ::
  "u8 \<Rightarrow> qp_id \<Rightarrow> ibv_wc_status \<Rightarrow> ibv_wc \<Rightarrow> u8 \<times> u8 \<times> int list \<times> dare_server \<Rightarrow> u8 \<times> u8 \<times> int list \<times> dare_server" where
  "wfm_wc sz qp st0 wc = (\<lambda>(success_count, posted_send_count, posted, s).
    (let wrid = wc_wr_id wc; conn = WRID_GET_CONN wrid;
         (can_restart, _, v) = check_signaled qp wrid (note_read_ssn qp wrid (srv s conn));
         s = upd_srv conn (\<lambda>_. v) s;
         posted_send_count = (if WRID_GET_SSN wrid = ssn s then posted_send_count - 1 else posted_send_count)
     in if \<not> rc_connected v then (success_count, posted_send_count, posted, s)
        else
         (let rc = handle_work_completion st0;
              s = handle_lr_work_completion wrid rc s
          in case rc of
               WC_SUCCESS \<Rightarrow>
                (let s = upd_srv conn (\<lambda>v. v\<lparr>fail_count := 0\<rparr>) s in
                 if ssn s > WRID_GET_SSN wrid then (success_count, posted_send_count, posted, s)
                 else let posted = upd_posted conn (\<lambda>n. n - 1) posted in
                   (if posted ! unat conn \<noteq> 0 then success_count else if conn < sz then success_count + 1 else success_count,
                    posted_send_count, posted, s))
             | WC_FAILURE \<Rightarrow> (success_count, posted_send_count, posted, upd_srv conn (fail_send qp can_restart) s)
             | _ \<Rightarrow> (success_count, posted_send_count, posted, s))))"

fun wfm_loop ::
  "poll list \<Rightarrow> u8 \<Rightarrow> qp_id \<Rightarrow> u8 \<times> u8 \<times> int list \<times> dare_server \<Rightarrow> (rc_result \<times> u8 \<times> u8 \<times> int list \<times> dare_server) option" where
  "wfm_loop ps sz qp (success_count, posted_send_count, posted, s) =
    (if success_count \<le> sz div 2 \<and> posted_send_count \<noteq> 0
     then (case ps of
             [] \<Rightarrow> None
           | PollError # ps \<Rightarrow> Some (RC_ERROR, success_count, posted_send_count, posted, s\<lparr>polls := ps\<rparr>)
           | Poll ds wcs # ps \<Rightarrow>
              (let n = length wcs mod 256 in
               wfm_loop ps sz qp (fold (wfm_wc sz qp (wc_status (hd wcs))) (take n wcs)
                 (success_count, posted_send_count, posted, fold do_dma ds s))))
     else Some (RC_SUCCESS, success_count, posted_send_count, posted, s\<lparr>polls := ps\<rparr>))"

declare wfm_loop.simps [simp del]

definition count_success :: "u8 \<Rightarrow> int list \<Rightarrow> u8" where
  "count_success sz posted = of_nat (length (filter (\<lambda>i. posted ! unat i = 0) (upto8 sz)))"

definition count_posted :: "u8 \<Rightarrow> int list \<Rightarrow> u8" where
  "count_posted sz posted = sum_list (map (\<lambda>i. if posted ! unat i < 0 then 0 else of_int (posted ! unat i)) (upto8 sz))"

definition majority_result :: "u8 \<Rightarrow> u8 \<Rightarrow> rc_result" where
  "majority_result success_count sz = (if success_count > sz div 2 then RC_SUCCESS else RC_INSUCCESS)"

definition wait_for_majority :: "int list \<Rightarrow> qp_id \<Rightarrow> dare_server \<Rightarrow> (rc_result \<times> int list \<times> dare_server) option" where
  "wait_for_majority posted qp s =
    (let cnt = count_posted (get_group_size (cid_of s)) posted; sz = cid_size0 (cid_of s) in
     do {
       (rc, success_count, cnt, posted, s) \<leftarrow> wfm_loop (polls s) sz qp (count_success sz posted, cnt, posted, s);
       if rc = RC_ERROR then Some (RC_ERROR, posted, s)
       else if cid_state (cid_of s) = CID_STABLE then Some (majority_result success_count sz, posted, s)
       else
         let sz = cid_size1 (cid_of s) in
         do {
           (rc, success_count, cnt, posted, s) \<leftarrow> wfm_loop (polls s) sz qp (count_success sz posted, cnt, posted, s);
           if rc = RC_ERROR then Some (RC_ERROR, posted, s)
           else Some (majority_result success_count sz, posted, s)
         }
     })"

text \<open>\<open>wait_for_one\<close> counts completions of the current round, whatever the server.\<close>

definition wfo_wc ::
  "qp_id \<Rightarrow> ibv_wc_status \<Rightarrow> ibv_wc \<Rightarrow> u8 \<times> u8 \<times> int list \<times> dare_server \<Rightarrow> u8 \<times> u8 \<times> int list \<times> dare_server" where
  "wfo_wc qp st0 wc = (\<lambda>(success_count, posted_send_count, posted, s).
    (let wrid = wc_wr_id wc; conn = WRID_GET_CONN wrid;
         (can_restart, _, v) = check_signaled qp wrid (note_read_ssn qp wrid (srv s conn));
         s = upd_srv conn (\<lambda>_. v) s;
         posted_send_count = (if WRID_GET_SSN wrid = ssn s then posted_send_count - 1 else posted_send_count)
     in if \<not> rc_connected v then (success_count, posted_send_count, posted, s)
        else
         (let rc = handle_work_completion st0;
              s = handle_lr_work_completion wrid rc s
          in case rc of
               WC_SUCCESS \<Rightarrow>
                (let s = upd_srv conn (\<lambda>v. v\<lparr>fail_count := 0\<rparr>) s in
                 if WRID_GET_SSN wrid = ssn s
                 then (success_count + 1, posted_send_count, upd_posted conn (\<lambda>n. n - 1) posted, s)
                 else (success_count, posted_send_count, posted, s))
             | WC_FAILURE \<Rightarrow> (success_count, posted_send_count, posted, upd_srv conn (fail_send qp can_restart) s)
             | _ \<Rightarrow> (success_count, posted_send_count, posted, s))))"

fun wfo_loop ::
  "poll list \<Rightarrow> qp_id \<Rightarrow> u8 \<times> u8 \<times> int list \<times> dare_server \<Rightarrow> (rc_result \<times> u8 \<times> int list \<times> dare_server) option" where
  "wfo_loop ps qp (success_count, posted_send_count, posted, s) =
    (if success_count = 0 \<and> posted_send_count \<noteq> 0
     then (case ps of
             [] \<Rightarrow> None
           | PollError # ps \<Rightarrow> Some (RC_ERROR, success_count, posted, s\<lparr>polls := ps\<rparr>)
           | Poll ds wcs # ps \<Rightarrow>
              (let n = length wcs mod 256 in
               wfo_loop ps qp (fold (wfo_wc qp (wc_status (hd wcs))) (take n wcs)
                 (success_count, posted_send_count, posted, fold do_dma ds s))))
     else Some (RC_SUCCESS, success_count, posted, s\<lparr>polls := ps\<rparr>))"

declare wfo_loop.simps [simp del]

definition wait_for_one :: "int list \<Rightarrow> qp_id \<Rightarrow> dare_server \<Rightarrow> (rc_result \<times> int list \<times> dare_server) option" where
  "wait_for_one posted qp s =
    (let sz = get_group_size (cid_of s) in
     do {
       (rc, success_count, posted, s) \<leftarrow> wfo_loop (polls s) qp (count_success sz posted, count_posted sz posted, posted, s);
       if rc = RC_ERROR then Some (RC_ERROR, posted, s)
       else Some (if success_count \<noteq> 0 then RC_SUCCESS else RC_INSUCCESS, posted, s)
     })"

end
