(* ===== verification/Dare_Rc_Ops.thy ===== *)
theory Dare_Rc_Ops
  imports Dare_Rc
begin

text \<open>
  The messages a server sends through the control QP (dare_ibv_rc.c): heartbeats and heartbeat
  replies, vote requests, the replicated vote, the vote acknowledgement and the check that no other
  server has a better leader.  A result \<open>None\<close> means that the operation waits for ever for a
  completion, or reads through a NULL entry pointer.
\<close>

section \<open>Posting to the group\<close>

text \<open>The loop over the servers that are on, connected and not this one; the others count as failed
  sends (this server as successful).\<close>

fun post_all ::
  "qp_id \<Rightarrow> bool \<Rightarrow> rdma_op \<Rightarrow> u8 list \<Rightarrow> int list option \<Rightarrow> dare_server \<Rightarrow> (int \<times> int list option \<times> dare_server) option" where
  "post_all qp signaled oper [] posted s = Some (0, posted, s)"
| "post_all qp signaled oper (i # is) posted s =
    (if i = idx_of s then post_all qp signaled oper is posted s
     else if \<not> CID_IS_SERVER_ON (cid_of s) i \<or> \<not> rc_connected (srv s i)
     then post_all qp signaled oper is (map_option (upd_posted i (\<lambda>_. -1)) posted) s
     else do {
       (rc, posted, s) \<leftarrow> post_send i qp oper signaled (map_option (upd_posted i (\<lambda>_. 1)) posted) s;
       if rc \<noteq> 0 then Some (1, posted, s) else post_all qp signaled oper is posted s
     })"

abbreviation group_of :: "dare_server \<Rightarrow> u8 list" where
  "group_of s \<equiv> upto8 (get_group_size (cid_of s))"

definition next_ssn :: "dare_server \<Rightarrow> dare_server" where
  "next_ssn s = s\<lparr>ssn := ssn s + 1\<rparr>"

definition no_sends :: "int list" where
  "no_sends = replicate MAX_SERVER_COUNT 0"

section \<open>Heartbeats\<close>

definition rc_send_hb :: "dare_server \<Rightarrow> (int \<times> dare_server) option" where
  "rc_send_hb s =
    do { (rc, _, s) \<leftarrow> post_all CTRL_QP False (WriteHb (sid_of s)) (group_of s) None (next_ssn s); Some (rc, s) }"

definition rc_send_hb_reply :: "u8 \<Rightarrow> dare_server \<Rightarrow> (int \<times> dare_server) option" where
  "rc_send_hb_reply i s =
    (if i \<ge> get_group_size (cid_of s) then Some (1, s)
     else let s = next_ssn s in
       if \<not> CID_IS_SERVER_ON (cid_of s) i \<or> \<not> rc_connected (srv s i) then Some (0, s)
       else do {
         (rc, _, s) \<leftarrow> post_send i CTRL_QP (WriteHb (sid_of s)) False None s;
         Some (if rc \<noteq> 0 then 1 else 0, s)
       })"

section \<open>Votes\<close>

text \<open>The index and the term of the last entry of the log, (0, 0) for the empty log.\<close>

definition last_entry_of :: "dare_log_t \<Rightarrow> (u64 \<times> u64) option" where
  "last_entry_of l =
    (if is_log_empty l then Some (0, 0)
     else do {
       tail \<leftarrow> log_get_tail (scan_fuel l) l;
       e \<leftarrow> log_get_entry l tail;
       Some (entry_idx (log_entries l) e, entry_term (log_entries l) e)
     })"

definition rc_send_vote_request :: "dare_server \<Rightarrow> (int \<times> dare_server) option" where
  "rc_send_vote_request s =
    do {
      (index, term) \<leftarrow> last_entry_of (slog s);
      let request = \<lparr>vr_sid = sid_of s, vr_index = index, vr_term = term, vr_cid = cid_of s\<rparr>;
      let s = s\<lparr>ctrl := ctrl s\<lparr>c_vote_req := (c_vote_req (ctrl s))[unat (idx_of s) := request]\<rparr>\<rparr>;
      (rc, _, s) \<leftarrow> post_all CTRL_QP False (WriteVoteReq request) (group_of s) None (next_ssn s);
      Some (rc, s)
    }"

definition rc_replicate_vote :: "dare_server \<Rightarrow> (int \<times> dare_server) option" where
  "rc_replicate_vote s =
    do {
      let s = s\<lparr>ctrl := ctrl s\<lparr>c_vote_sid := (c_vote_sid (ctrl s))[unat (idx_of s) := sid_of s]\<rparr>\<rparr>;
      (rc, posted, s) \<leftarrow> post_all CTRL_QP True (WriteVoteSid (sid_of s)) (group_of s) (Some no_sends) (next_ssn s);
      if rc \<noteq> 0 then Some (1, s)
      else do {
        (rc, _, s) \<leftarrow> wait_for_majority (case posted of Some p \<Rightarrow> p | None \<Rightarrow> []) CTRL_QP s;
        Some (if rc = RC_ERROR then 1 else 0, s)
      }
    }"

definition rc_send_vote_ack :: "dare_server \<Rightarrow> (int \<times> dare_server) option" where
  "rc_send_vote_ack s =
    (let candidate = SID_GET_IDX (sid_of s) in
     if \<not> CID_IS_SERVER_ON (cid_of s) candidate \<or> \<not> rc_connected (srv s candidate) then Some (0, s)
     else do {
       (rc, posted, s) \<leftarrow> post_send candidate CTRL_QP (WriteVoteAck (log_commit (slog s))) True
         (Some ((replicate MAX_SERVER_COUNT (-1))[unat candidate := 1])) (next_ssn s);
       if rc \<noteq> 0 then Some (1, s)
       else do {
         (rc, _, s) \<leftarrow> wait_for_one (case posted of Some p \<Rightarrow> p | None \<Rightarrow> []) CTRL_QP s;
         Some (if rc = RC_ERROR then 1 else if rc \<noteq> RC_SUCCESS then -1 else 0, s)
       }
     })"

section \<open>Verifying the leadership\<close>

text \<open>The best SID with a known leader among the ones read, starting with the server's own.\<close>

definition better_sid :: "u8 \<Rightarrow> int list \<Rightarrow> u64 list \<Rightarrow> u8 \<Rightarrow> u64 \<Rightarrow> u64" where
  "better_sid me posted rsid i new_sid =
    (if i = me \<or> posted ! unat i \<noteq> 0 then new_sid
     else if rsid ! unat i > new_sid \<and> SID_GET_L (rsid ! unat i) then rsid ! unat i
     else new_sid)"

text \<open>The reads of the remote SIDs and the decision; \<open>Inr leader\<close> is the flag the C function returns,
  \<open>Inl new_sid\<close> the better SID it moves to before it becomes a follower.\<close>

definition read_remote_sids :: "dare_server \<Rightarrow> (int \<times> (u64 + bool) \<times> dare_server) option" where
  "read_remote_sids s =
    do {
      (rc, posted, s) \<leftarrow> post_all CTRL_QP True ReadSid (group_of s) (Some no_sends) (next_ssn s);
      if rc \<noteq> 0 then Some (1, Inr False, s)
      else do {
        (rc, posted, s) \<leftarrow> wait_for_majority (case posted of Some p \<Rightarrow> p | None \<Rightarrow> []) CTRL_QP s;
        if rc = RC_ERROR then Some (1, Inr False, s)
        else if \<not> fits_arrays s then None
        else
          let new_sid = fold (better_sid (idx_of s) posted (c_rsid (ctrl s))) (group_of s) (sid_of s)
          in Some (0, if new_sid \<noteq> sid_of s then Inl new_sid else Inr True, s)
      }
    }"

end
