(* ===== verification/Dare_Follow.thy ===== *)
theory Dare_Follow
  imports Dare_Rc_Ops
begin

text \<open>
  How a server leaves its role: it starts an election or follows the leader it learned of
  (dare_server.c), and a leader that verifies its leadership may find a better one (dare_ibv_rc.c).
\<close>

section \<open>Becoming a candidate or a follower\<close>

definition start_election :: "dare_server \<Rightarrow> dare_server option" where
  "start_election s =
    (let new_sid = SID_SET_IDX (SID_UNSET_L (SID_SET_TERM 0 (SID_GET_TERM (sid_of s) + 1))) (idx_of s);
         s = server_update_sid new_sid (sid_of s) s;
         (rc, s) = rc_revoke_log_access s
     in if rc \<noteq> 0 then Some (halt s)
        else
          let s = fold (\<lambda>i s. upd_srv i (\<lambda>v. v\<lparr>next_lr_step := LR_GET_WRITE, send_flag := True\<rparr>)
                (s\<lparr>ctrl := (ctrl s)\<lparr>c_vote_ack := (c_vote_ack (ctrl s))[unat i := log_len (slog s)]\<rparr>\<rparr>)) (group_of s) s;
              s = s\<lparr>hb_event := HbReceive, hb_armed := True\<rparr>
          in do {
            (rc, s) \<leftarrow> rc_send_vote_request s;
            Some (if rc \<noteq> 0 then halt s else s)
          })"

definition stop_leading :: "dare_server \<Rightarrow> dare_server" where
  "stop_leading s =
    (let s = s\<lparr>prune_armed := False, leader_failed := False\<rparr>
     in if \<not> hb_timeout_flag s then s\<lparr>adjust_armed := True\<rparr> else s)"

text \<open>The end of \<open>server_to_follower\<close> and of \<open>poll_vote_requests\<close>: a failed acknowledgement means
  that the candidate is gone, so this server starts an election of its own.\<close>

definition ack_and_wait :: "dare_server \<Rightarrow> dare_server option" where
  "ack_and_wait s =
    do {
      (rc, s) \<leftarrow> rc_send_vote_ack s;
      if rc < 0 then start_election s
      else if rc \<noteq> 0 then Some (halt s)
      else Some (s\<lparr>hb_event := HbReceive, hb_armed := True\<rparr>)
    }"

definition set_own_nc :: "dare_log_entry_det_t list \<Rightarrow> dare_server \<Rightarrow> dare_server" where
  "set_own_nc nc s = s\<lparr>slog := (slog s)\<lparr>log_nc_buf := (log_nc_buf (slog s))[unat (idx_of s) := nc]\<rparr>\<rparr>"

definition server_to_follower :: "dare_server \<Rightarrow> dare_server option" where
  "server_to_follower s =
    (let s = stop_leading (s\<lparr>hb_armed := False\<rparr>);
         s = snd (rc_revoke_log_access s)
     in do {
       nc \<leftarrow> log_entries_to_nc_buf (scan_fuel (slog s)) (slog s);
       let s = snd (rc_restore_log_access (set_own_nc nc s));
       if SID_GET_L (sid_of s) then ack_and_wait s
       else Some (s\<lparr>hb_event := HbReceive, hb_armed := True\<rparr>)
     })"

text \<open>\<open>rc_verify_leadership\<close> (dare_ibv_rc.c), with the value of the flag \<open>leader\<close>.\<close>

definition rc_verify_leadership :: "dare_server \<Rightarrow> (int \<times> bool \<times> dare_server) option" where
  "rc_verify_leadership s =
    do {
      (rc, r, s) \<leftarrow> read_remote_sids s;
      if rc \<noteq> 0 then Some (1, False, s)
      else case r of
          Inr leader \<Rightarrow> Some (0, leader, s)
        | Inl new_sid \<Rightarrow> do { s \<leftarrow> server_to_follower (server_update_sid new_sid (sid_of s) s); Some (0, False, s) }
    }"

end
