(* ===== verification/Dare_Client.thy ===== *)
theory Dare_Client
  imports Dare_Follow
begin

text \<open>
  Datagrams and the answers to clients (dare_ibv_ud.c, dare_ep_db.c).  A datagram is one event of the
  trace with the LID it goes to and the number of bytes sent.  The call that posts it and its
  completion take one value each from the environment; the loop that polls for the completion is taken
  to end.  A result \<open>None\<close> is a dereference of a NULL pointer.
\<close>

section \<open>Sending datagrams\<close>

text \<open>The sizes of the messages of dare_ibv_ud.h, with the padding of x86-64.\<close>

definition sizeof_ud_hdr :: u32 where "sizeof_ud_hdr = 40"

definition sizeof_client_rep :: u32 where "sizeof_client_rep = 48"

definition sizeof_reconf_rep :: u32 where "sizeof_reconf_rep = 80"

definition sizeof_rc_syn :: u32 where "sizeof_rc_syn = 80"

definition sizeof_rc_ack :: u32 where "sizeof_rc_ack = 48"

text \<open>The values of \<open>enum ibv_mtu\<close> are 1 to 5.\<close>

definition mtu_value :: "u32 \<Rightarrow> u32" where
  "mtu_value mtu = (if mtu = 1 then 256 else if mtu = 2 then 512 else if mtu = 3 then 1024
     else if mtu = 4 then 2048 else if mtu = 5 then 4096 else 0)"

definition clip_len :: "u32 \<Rightarrow> dare_server \<Rightarrow> u32" where
  "clip_len len s = (let m = mtu_value (dev_mtu (dev s)) in if len > m then m else len)"

text \<open>Posting one datagram and waiting for its completion.\<close>

definition send_dgram :: "event \<Rightarrow> dare_server \<Rightarrow> int \<times> dare_server" where
  "send_dgram ev s =
    (let (rc, s) = next_rc s in
     if rc \<noteq> 0 then (1, s)
     else let (rc, s) = next_rc (emit ev s) in (if rc \<noteq> 0 then 1 else 0, s))"

definition ud_send_message :: "u16 \<Rightarrow> u32 \<Rightarrow> ud_msg \<Rightarrow> dare_server \<Rightarrow> int \<times> dare_server" where
  "ud_send_message lid len msg s = send_dgram (UdSend lid (clip_len len s) msg) s"

definition mcast_send_message :: "u32 \<Rightarrow> ud_msg \<Rightarrow> dare_server \<Rightarrow> int \<times> dare_server" where
  "mcast_send_message len msg s = send_dgram (McastSend (clip_len len s) msg) s"

section \<open>Answers\<close>

text \<open>The read request kept in an endpoint (\<open>client_req_t\<close>): the identifier in the first eight bytes, the
  command from byte 42 on.  The allocations of a PUT take their outcome from the environment.\<close>

definition request_id_of :: "u8 list \<Rightarrow> u64" where
  "request_id_of b = of_nat (le_dec (take 8 b))"

definition request_cmd :: "u8 list \<Rightarrow> u8 list" where
  "request_cmd b = drop 42 b"

definition ud_clt_answer_read_request :: "dare_ep_t \<Rightarrow> dare_server \<Rightarrow> dare_server option" where
  "ud_clt_answer_read_request ep s =
    (let s = s\<lparr>endpoints := ep_update (ud_lid ep) (\<lambda>e. e\<lparr>wait_for_idx := 0\<rparr>) (endpoints s)\<rparr>;
         (rc1, s) = next_rc s; (rc2, s) = next_rc s
     in do {
       (_, answer, t) \<leftarrow> apply_kvs_cmd (rc1 = 0) (rc2 = 0) (request_cmd (last_read_request ep)) (sm s);
       let d = (case answer of None \<Rightarrow> [] | Some d \<Rightarrow> d);
       Some (snd (ud_send_message (ud_lid ep) (sizeof_client_rep + of_nat (length d))
         (CsmReply (request_id_of (last_read_request ep)) d) (s\<lparr>sm := t\<rparr>)))
     })"

text \<open>The index of the first server with the LID, the size of the group if there is none.\<close>

definition lid_index :: "u16 \<Rightarrow> dare_server \<Rightarrow> u8" where
  "lid_index lid s =
    (let sz = get_extended_group_size (cid_of s) in
     case find (\<lambda>i. ep_lid (srv s i) = lid) (upto8 sz) of None \<Rightarrow> sz | Some i \<Rightarrow> i)"

text \<open>The reply to a reconfiguration request.  For another type the C code sends an uninitialised
  length; it is only called with \<open>CONFIG\<close>.\<close>

definition ud_send_clt_reply :: "u16 \<Rightarrow> u64 \<Rightarrow> u8 \<Rightarrow> dare_server \<Rightarrow> (int \<times> dare_server) option" where
  "ud_send_clt_reply lid req_id type s =
    do {
      ep \<leftarrow> ep_search (endpoints s) lid;
      let s = s\<lparr>endpoints := ep_update lid (\<lambda>e. e\<lparr>last_req_id := req_id, committed := True\<rparr>) (endpoints s)\<rparr>;
      if type \<noteq> CONFIG then None
      else Some (ud_send_message lid sizeof_reconf_rep
        (CfgReply \<lparr>rep_id = req_id, rep_idx = lid_index lid s, rep_cid = cid_of s, rep_cid_idx = ep_cid_idx ep,
           rep_head = log_head (slog s)\<rparr>) s)
    }"

text \<open>The walk over the database.  Nothing the loop calls changes an endpoint that is still to come, so
  the endpoints are those of the start.\<close>

fun reply_loop :: "dare_ep_t list \<Rightarrow> u64 \<Rightarrow> bool \<Rightarrow> dare_server \<Rightarrow> dare_server option" where
  "reply_loop [] idx verified s = Some s"
| "reply_loop (ep # eps) idx verified s =
    (if wait_for_idx ep = 0 then reply_loop eps idx verified s
     else do {
       (leader, s) \<leftarrow> (if verified then Some (True, s)
         else do { (_, leader, s) \<leftarrow> rc_verify_leadership s; Some (leader, s) });
       if \<not> leader then Some (s\<lparr>endpoints := ep_dp_reset_wait_idx (endpoints s)\<rparr>)
       else do {
         s \<leftarrow> (if wait_for_idx ep < idx then ud_clt_answer_read_request ep s else Some s);
         reply_loop eps idx True s
       }
     })"

definition all_eps :: "ep_db \<Rightarrow> dare_ep_t list" where
  "all_eps root = rb_visit (Suc (size root)) (rb_first root)"

definition ep_dp_reply_read_req :: "u64 \<Rightarrow> dare_server \<Rightarrow> dare_server option" where
  "ep_dp_reply_read_req idx s = reply_loop (all_eps (endpoints s)) idx False s"

end
