(* ===== verification/Dare_Reconf.thy ===== *)
theory Dare_Reconf
  imports Dare_Client
begin

text \<open>
  Reconfiguration, applying committed entries and log pruning (dare_server.c).  The loops over the
  log take fuel; a result \<open>None\<close> means that the fuel ran out, that a scan reads through a NULL entry
  pointer, or that a send waits for ever.  After \<open>halted\<close> is set nothing more happens.
\<close>

section \<open>Appending\<close>

definition append_entry :: "u64 \<Rightarrow> u16 \<Rightarrow> u8 \<Rightarrow> log_data \<Rightarrow> dare_server \<Rightarrow> (u64 \<times> dare_server) option" where
  "append_entry req_id clt_id type data s =
    do {
      (idx, l, prev) \<leftarrow> log_append_entry (scan_fuel (slog s)) (slog s) (prev_log_entry_head s)
        (SID_GET_TERM (sid_of s)) req_id clt_id type data;
      Some (idx, s\<lparr>slog := l, prev_log_entry_head := prev\<rparr>)
    }"

section \<open>Configurations\<close>

fun update_cid_loop :: "dare_cid_t \<Rightarrow> u8 list \<Rightarrow> dare_server \<Rightarrow> dare_server" where
  "update_cid_loop cid [] s = s"
| "update_cid_loop cid (i # is) s =
    (if \<not> CID_IS_SERVER_ON cid i \<and> CID_IS_SERVER_ON (cid_of s) i
     then if i = idx_of s then halt s else update_cid_loop cid is (dare_ib_disconnect_server i s)
     else update_cid_loop cid is s)"

definition update_cid :: "dare_cid_t \<Rightarrow> dare_server \<Rightarrow> int \<times> dare_server" where
  "update_cid cid s =
    (if equal_cid (cid_of s) cid then (1, s)
     else let sz = (if cid_size1 cid > cid_size0 cid then cid_size1 cid else cid_size0 cid);
              s = update_cid_loop cid (upto8 sz) s
          in if halted s then (0, s) else (0, set_cid cid s))"

text \<open>One CONFIG or HEAD entry met by \<open>poll_config_entries\<close>; the second component is the head offset
  found so far.\<close>

definition poll_config_entry :: "u64 \<Rightarrow> u64 \<Rightarrow> u64 \<Rightarrow> dare_server \<Rightarrow> u64 \<times> dare_server" where
  "poll_config_entry commit e head_offset s =
    (let m = log_entries (slog s) in
     if entry_type m e = CONFIG then
       (if entry_idx m e > cfg_cid_idx (config s) then
         (let (rc, s) = update_cid (entry_cid m e) s in
          (head_offset, if rc = 0 \<and> \<not> halted s then set_owner (entry_req_id m e) (entry_clt_id m e) s else s))
        else (head_offset, s))
     else if entry_type m e = HEAD then
       (if \<not> log_is_offset_larger (slog s) e commit
        then (entry_head m e, s\<lparr>dare_state := dare_state s AND NOT SNAPSHOT\<rparr>)
        else (head_offset, s))
     else (head_offset, s))"

fun poll_config_loop :: "nat \<Rightarrow> u64 \<Rightarrow> u64 \<Rightarrow> u64 \<Rightarrow> dare_server \<Rightarrow> (u64 \<times> u64 \<times> dare_server) option" where
  "poll_config_loop fuel commit offset head_offset s =
    (if halted s \<or> log_offset_end_distance (slog s) offset = 0 then Some (offset, head_offset, s)
     else case fuel of 0 \<Rightarrow> None | Suc f \<Rightarrow>
       (case log_get_entry (slog s) offset of None \<Rightarrow> None | Some e \<Rightarrow>
         if \<not> log_fit_entry (slog s) e e then poll_config_loop f commit 0 head_offset s
         else
          (let (h, s) = poll_config_entry commit e head_offset s
           in poll_config_loop f commit (e + ucast (log_entry_len (log_entries (slog s)) e)) h s)))"

declare poll_config_loop.simps [simp del]

definition scan_fuel2 :: "dare_log_t \<Rightarrow> nat" where
  "scan_fuel2 l = 2 * scan_fuel l"

definition poll_config_entries :: "dare_server \<Rightarrow> dare_server option" where
  "poll_config_entries s =
    (let commit = log_commit (slog s) in
     do {
       (offset, head_offset, s) \<leftarrow>
         poll_config_loop (scan_fuel2 (slog s)) commit (cfg_cid_offset (config s)) (log_head (slog s)) s;
       if halted s then Some s
       else
         let s = s\<lparr>config := (config s)\<lparr>cfg_cid_offset := if log_is_offset_larger (slog s) offset commit then commit else offset\<rparr>\<rparr>
         in Some (if log_is_offset_larger (slog s) head_offset (log_head (slog s))
                  then s\<lparr>slog := (slog s)\<lparr>log_head := head_offset\<rparr>\<rparr> else s)
     })"

text \<open>The servers with an index from \<open>size[1]\<close> to \<open>size[0]\<close> leave when a transitional configuration
  becomes stable; the leader itself only after the new configuration is committed.\<close>

fun remove_servers :: "u8 list \<Rightarrow> dare_server \<Rightarrow> dare_server" where
  "remove_servers [] s = s"
| "remove_servers (i # is) s =
    (if i = idx_of s
     then remove_servers is (set_cid (CID_SERVER_RM (cid_of s) i) (s\<lparr>dare_state := dare_state s OR DIE_AF_COMMIT\<rparr>))
     else if \<not> CID_IS_SERVER_ON (cid_of s) i then remove_servers is s
     else remove_servers is (dare_ib_disconnect_server i (set_cid (CID_SERVER_RM (cid_of s) i) s)))"

definition set_state :: "u8 \<Rightarrow> dare_server \<Rightarrow> dare_server" where
  "set_state st s = set_cid ((cid_of s)\<lparr>cid_state := st\<rparr>) s"

definition drop_old_size :: "dare_server \<Rightarrow> dare_server" where
  "drop_old_size s = set_cid ((cid_of s)\<lparr>cid_size0 := cid_size1 (cid_of s), cid_size1 := 0\<rparr>) s"

definition range8 :: "u8 \<Rightarrow> u8 \<Rightarrow> u8 list" where
  "range8 a b = map of_nat [unat a..<unat b]"

section \<open>Applying committed entries\<close>

definition apply_cmd :: "u64 \<Rightarrow> dare_server \<Rightarrow> dare_server" where
  "apply_cmd e s =
    (let m = log_entries (slog s) in
     if entry_type m e \<noteq> CONFIG \<and> entry_type m e \<noteq> NOOP \<and> entry_type m e \<noteq> HEAD
     then
      (let s = emit (StoreCmd (entry_clt_id m e)) s;
           s = (if \<not> IS_LEADER s then emit (DoAction (entry_clt_id m e) (entry_type m e) (entry_cmd m e)) s
                else emit UpdateState s)
       in s\<lparr>last_applied_entry := \<lparr>det_idx = entry_idx m e, det_term = entry_term m e,
              det_offset = log_apply (slog s) + ucast (log_entry_len m e)\<rparr>,
            last_cmt_write_csm_idx := entry_idx m e\<rparr>)
     else s)"

text \<open>The leader at an unstable CONFIG entry: the next configuration is appended to the log.\<close>

definition next_configuration :: "u64 \<Rightarrow> dare_server \<Rightarrow> dare_server option" where
  "next_configuration e s =
    (let m = log_entries (slog s); req_id = entry_req_id m e; clt_id = entry_clt_id m e;
         st = cid_state (entry_cid m e)
     in do {
       (req_id, clt_id, s) \<leftarrow>
         (if st = CID_EXTENDED then
            (let s = set_state CID_TRANSIT s in
             if req_id \<noteq> 0 then do { (_, s) \<leftarrow> ud_send_clt_reply clt_id req_id CONFIG s; Some (0, 0, s) }
             else Some (req_id, clt_id, s))
          else if st = CID_TRANSIT then
            (let s = set_state CID_STABLE s;
                 s = remove_servers (range8 (cid_size1 (cid_of s)) (cid_size0 (cid_of s))) s
             in Some (req_id, clt_id, drop_old_size s))
          else Some (req_id, clt_id, s));
       let s = set_owner req_id clt_id s;
       map_option snd (append_entry req_id clt_id CONFIG (DCid (cid_of s)) s)
     })"

definition leader_entry :: "u64 \<Rightarrow> dare_server \<Rightarrow> dare_server option" where
  "leader_entry e s =
    (let m = log_entries (slog s); type = entry_type m e in
     if type = NOOP \<or> type = HEAD then Some s
     else if type \<noteq> CONFIG then Some (apply_cmd e s)
     else if cid_state (entry_cid m e) = CID_STABLE then
       (if entry_req_id m e \<noteq> 0 then
          do {
            (_, s) \<leftarrow> ud_send_clt_reply (entry_clt_id m e) (entry_req_id m e) CONFIG s;
            Some (if dare_state s AND DIE_AF_COMMIT \<noteq> 0 then halt s else s)
          }
        else Some s)
     else if cid_epoch (cid_of s) > cid_epoch (entry_cid m e) then Some s
     else next_configuration e s)"

fun apply_loop :: "nat \<Rightarrow> dare_server \<Rightarrow> dare_server option" where
  "apply_loop fuel s =
    (if \<not> log_is_offset_larger (slog s) (log_commit (slog s)) (log_apply (slog s)) then Some s
     else case fuel of 0 \<Rightarrow> None | Suc f \<Rightarrow>
       (case log_get_entry (slog s) (log_apply (slog s)) of None \<Rightarrow> None | Some e \<Rightarrow>
         let s = s\<lparr>slog := (slog s)\<lparr>log_apply := e\<rparr>\<rparr> in
         if \<not> log_fit_entry (slog s) e e then apply_loop f (s\<lparr>slog := (slog s)\<lparr>log_apply := 0\<rparr>\<rparr>)
         else do {
           s \<leftarrow> (if IS_LEADER s then leader_entry e s else Some (apply_cmd e s));
           if halted s then Some s
           else apply_loop f (s\<lparr>slog := (slog s)\<lparr>log_apply :=
             log_apply (slog s) + ucast (log_entry_len (log_entries (slog s)) e)\<rparr>\<rparr>)
         }))"

declare apply_loop.simps [simp del]

definition apply_committed_entries :: "dare_server \<Rightarrow> dare_server option" where
  "apply_committed_entries s =
    (let old_apply = log_apply (slog s) in
     do {
       s \<leftarrow> apply_loop (scan_fuel2 (slog s)) s;
       if \<not> halted s \<and> old_apply \<noteq> log_apply (slog s) \<and> IS_LEADER s
       then ep_dp_reply_read_req (last_cmt_write_csm_idx s) s
       else Some s
     })"

section \<open>Failure detection\<close>

fun failure_loop :: "u8 list \<Rightarrow> dare_cid_t \<Rightarrow> u8 \<Rightarrow> dare_server \<Rightarrow> dare_cid_t \<times> u8 \<times> dare_server" where
  "failure_loop [] cid connections s = (cid, connections, s)"
| "failure_loop (i # is) cid connections s =
    (if \<not> CID_IS_SERVER_ON cid i then failure_loop is cid connections s
     else if fail_count (srv s i) \<ge> PERMANENT_FAILURE then
       (if IS_LEADER s \<and> cid_state (cid_of s) = CID_STABLE
        then failure_loop is (CID_SERVER_RM cid i) connections (dare_ib_disconnect_server i s)
        else failure_loop is cid connections s)
     else failure_loop is cid (connections + 1) s)"

definition check_failure_count :: "dare_server \<Rightarrow> dare_server option" where
  "check_failure_count s =
    (let sz = get_group_size (cid_of s);
         (cid, connections, s) = failure_loop (upto8 sz) (cid_of s) 0 s
     in if connections \<le> sz div 2 then Some (halt s)
        else if IS_LEADER s \<and> \<not> equal_cid cid (cid_of s)
        then map_option snd (append_entry 0 0 CONFIG (DCid cid) (set_owner 0 0 (set_cid cid s)))
        else Some s)"

section \<open>Pruning\<close>

fun get_apply_loop :: "u8 list \<Rightarrow> bool \<Rightarrow> dare_server \<Rightarrow> (int \<times> dare_server) option" where
  "get_apply_loop [] init s = Some (0, s)"
| "get_apply_loop (i # is) init s =
    (if i = idx_of s \<or> \<not> CID_IS_SERVER_ON (cid_of s) i
     then get_apply_loop is init
       (s\<lparr>ctrl := (ctrl s)\<lparr>c_apply_offsets := (c_apply_offsets (ctrl s))[unat i := log_apply (slog s)]\<rparr>\<rparr>)
     else if fail_count (srv s i) \<ge> PERMANENT_FAILURE \<or> \<not> rc_connected (srv s i) \<or>
       log_len (slog s) = c_vote_ack (ctrl s) ! unat i \<or> last_get_read_ssn (srv s i) \<noteq> 0
     then get_apply_loop is init s
     else
       let s = (if init then s else next_ssn s);
           s = upd_srv i (\<lambda>v. v\<lparr>last_get_read_ssn := ssn s\<rparr>) s
       in do {
         (rc, _, s) \<leftarrow> post_send i LOG_QP ReadApply False None s;
         if rc \<noteq> 0 then Some (1, s) else get_apply_loop is True s
       })"

definition rc_get_remote_apply_offsets :: "dare_server \<Rightarrow> (int \<times> dare_server) option" where
  "rc_get_remote_apply_offsets s = get_apply_loop (upto8 (get_extended_group_size (cid_of s))) False s"

definition min_apply_step :: "u8 \<Rightarrow> u64 \<times> dare_server \<Rightarrow> u64 \<times> dare_server" where
  "min_apply_step i = (\<lambda>(min_offset, s).
    (let s = (if \<not> CID_IS_SERVER_ON (cid_of s) i
              then s\<lparr>ctrl := (ctrl s)\<lparr>c_apply_offsets := (c_apply_offsets (ctrl s))[unat i := log_apply (slog s)]\<rparr>\<rparr>
              else s);
         a = c_apply_offsets (ctrl s) ! unat i
     in (if log_is_offset_larger (slog s) min_offset a then a else min_offset, s)))"

definition log_pruning :: "dare_server \<Rightarrow> (int \<times> dare_server) option" where
  "log_pruning s =
    (if \<not> IS_LEADER s then Some (0, s)
     else let (min_offset, s) = fold min_apply_step (upto8 (get_extended_group_size (cid_of s))) (log_apply (slog s), s) in
       do {
         min_offset \<leftarrow> (if log_offset_end_distance (slog s) min_offset = 0 then log_get_tail (scan_fuel (slog s)) (slog s)
           else Some min_offset);
         s \<leftarrow> (if log_is_offset_larger (slog s) min_offset (log_head (slog s)) \<and> \<not> prev_log_entry_head s
           then do {
             (_, s) \<leftarrow> append_entry 0 0 HEAD (DHead min_offset)
               (s\<lparr>slog := (slog s)\<lparr>log_head := min_offset\<rparr>, dare_state := dare_state s AND NOT SNAPSHOT\<rparr>);
             Some (s\<lparr>prev_log_entry_head := True\<rparr>)
           }
           else Some s);
         (rc, s) \<leftarrow> rc_get_remote_apply_offsets s;
         Some (if rc \<noteq> 0 then 1 else 0, s)
       })"

definition prune_log_cb :: "dare_server \<Rightarrow> dare_server option" where
  "prune_log_cb s =
    do {
      (rc, s) \<leftarrow> log_pruning s;
      Some (if rc \<noteq> 0 then halt (s\<lparr>prune_armed := False\<rparr>) else s\<lparr>prune_armed := True\<rparr>)
    }"

text \<open>The server that is furthest behind, with its apply offset.\<close>

definition slowest_step :: "dare_server \<Rightarrow> u8 \<Rightarrow> u64 \<times> u8 \<Rightarrow> u64 \<times> u8" where
  "slowest_step s i = (\<lambda>(min_offset, target).
    (let a = c_apply_offsets (ctrl s) ! unat i in
     if log_is_offset_larger (slog s) min_offset a then (a, i) else (min_offset, target)))"

text \<open>\<open>log_size < 0.75 * len\<close> on doubles, exact for sizes below 2^51.  The apply offset that is
  updated for the removed server is the one at index \<open>size\<close>, the value of the loop variable after the loop.\<close>

definition force_log_pruning :: "dare_server \<Rightarrow> dare_server option" where
  "force_log_pruning s =
    (let log_size = log_offset_end_distance (slog s) (log_head (slog s)) in
     if 4 * unat log_size < 3 * unat (log_len (slog s)) then Some s
     else
       let sz = get_extended_group_size (cid_of s);
           (min_offset, target) = fold (slowest_step s) (upto8 sz) (log_apply (slog s), idx_of s)
       in if target \<noteq> idx_of s then
            (if \<not> CID_IS_SERVER_ON (cid_of s) target then map_option snd (log_pruning s)
             else
               let s = dare_ib_disconnect_server target (set_cid (CID_SERVER_RM (cid_of s) target) s);
                   s = set_owner 0 0 s
               in do {
                 (_, s) \<leftarrow> append_entry 0 0 CONFIG (DCid (cid_of s)) s;
                 let s = s\<lparr>ctrl := (ctrl s)\<lparr>c_apply_offsets := (c_apply_offsets (ctrl s))[unat sz := log_apply (slog s)]\<rparr>\<rparr>;
                 map_option snd (log_pruning s)
               })
          else map_option snd (log_pruning s))"

end
