(* ===== verification/Dare_Repl.thy ===== *)
theory Dare_Repl
  imports Dare_Reconf
begin

text \<open>
  Log replication by the leader (dare_ibv_rc.c): adjusting the end of the remote logs, writing the
  missing entries, and advancing the commit offset to what a majority of the servers holds.
\<close>

section \<open>Adjusting remote logs\<close>

definition upd_offsets :: "u8 \<Rightarrow> (log_offsets_t \<Rightarrow> log_offsets_t) \<Rightarrow> dare_server \<Rightarrow> dare_server" where
  "upd_offsets i f s = s\<lparr>ctrl := (ctrl s)\<lparr>c_log_offsets :=
     (c_log_offsets (ctrl s))[unat i := f (c_log_offsets (ctrl s) ! unat i)]\<rparr>\<rparr>"

definition offsets_of :: "dare_server \<Rightarrow> u8 \<Rightarrow> log_offsets_t" where
  "offsets_of s i = c_log_offsets (ctrl s) ! unat i"

definition set_commit :: "u64 \<Rightarrow> dare_server \<Rightarrow> dare_server" where
  "set_commit c s = s\<lparr>slog := (slog s)\<lparr>log_commit := c\<rparr>\<rparr>"

definition advance_commit :: "u64 \<Rightarrow> dare_server \<Rightarrow> dare_server" where
  "advance_commit c s = (if log_is_offset_larger (slog s) c (log_commit (slog s)) then set_commit c s else s)"

text \<open>The servers the leader does not write to.\<close>

definition skip_server :: "u8 \<Rightarrow> dare_server \<Rightarrow> bool" where
  "skip_server i s = (i = idx_of s \<or> \<not> CID_IS_SERVER_ON (cid_of s) i \<or>
     fail_count (srv s i) \<ge> PERMANENT_FAILURE \<or> \<not> send_flag (srv s i) \<or> \<not> rc_connected (srv s i))"

text \<open>The operation of one adjustment step, \<open>None\<close> for the steps that post nothing, with the state
  the step leaves.  The outer \<open>None\<close> is the uninitialised end offset of \<open>log_find_remote_end_offset\<close>.\<close>

definition adjust_step :: "u8 \<Rightarrow> dare_server \<Rightarrow> (rdma_op option \<times> dare_server) option" where
  "adjust_step i s =
    (let remote_commit = c_vote_ack (ctrl s) ! unat i; st = next_lr_step (srv s i);
         s = (if st = LR_GET_WRITE
              then upd_srv i (\<lambda>v. v\<lparr>next_lr_step := LR_GET_NCE_LEN\<rparr>) (upd_offsets i (\<lambda>o'. o'\<lparr>lo_commit := remote_commit\<rparr>) s)
              else s)
     in if st = LR_GET_WRITE \<or> st = LR_GET_NCE_LEN then Some (Some ReadNcLen, advance_commit remote_commit s)
        else if st = LR_GET_NCE then
          (let n = length (log_nc_buf (slog s) ! unat i) in
           if n = 0
           then Some (None, upd_srv i (\<lambda>v. v\<lparr>next_lr_step := LR_UPDATE_LOG\<rparr>)
             (upd_offsets i (\<lambda>o'. o'\<lparr>lo_end := lo_commit o'\<rparr>) s))
           else Some (Some (ReadNcBuf (of_nat n)), s))
        else if st = LR_SET_END then
          do {
            remote_end \<leftarrow> log_find_remote_end_offset (slog s) (log_nc_buf (slog s) ! unat i) None;
            Some (Some (WriteEnd remote_end), upd_offsets i (\<lambda>o'. o'\<lparr>lo_end := remote_end\<rparr>) s)
          }
        else Some (None, s))"

text \<open>The work request the leader waits for before it posts again for this server.\<close>

definition expect_wr :: "u8 \<Rightarrow> dare_server \<Rightarrow> dare_server" where
  "expect_wr i s = upd_srv i (\<lambda>v. v\<lparr>send_flag := False,
     next_wr_id := WRID_SET_CONN (WRID_SET_SSN (next_wr_id v) (ssn s)) i\<rparr>) s"

fun adjust_loop :: "u8 list \<Rightarrow> bool \<Rightarrow> dare_server \<Rightarrow> (int \<times> dare_server) option" where
  "adjust_loop [] init s = Some (0, s)"
| "adjust_loop (i # is) init s =
    (if skip_server i s \<or> log_len (slog s) = c_vote_ack (ctrl s) ! unat i then adjust_loop is init s
     else
       let (init, s) = (if \<not> init \<and> next_lr_step (srv s i) < LR_UPDATE_LOG then (True, next_ssn s) else (init, s))
       in do {
         (oper, s) \<leftarrow> adjust_step i s;
         case oper of None \<Rightarrow> adjust_loop is init s
         | Some oper \<Rightarrow> do {
             (rc, _, s) \<leftarrow> post_send i LOG_QP oper True None (expect_wr i s);
             if rc \<noteq> 0 then Some (1, s) else adjust_loop is init s
           }
       })"

definition log_adjustment :: "dare_server \<Rightarrow> (int \<times> dare_server) option" where
  "log_adjustment s = adjust_loop (upto8 (get_extended_group_size (cid_of s))) False s"

section \<open>Writing the entries\<close>

text \<open>The write operations of one update step: the log bytes from the remote end offset to the local
  one (two writes when they wrap around), or the new end offset.  \<open>WriteLog off from n\<close> writes the \<open>n\<close>
  bytes at \<open>from\<close> of the local buffer to \<open>off\<close> of the remote one; lengths are 32-bit.\<close>

definition update_step :: "u8 \<Rightarrow> dare_server \<Rightarrow> ((rdma_op \<times> rdma_op option) option \<times> dare_server)" where
  "update_step i s =
    (let l = slog s; remote_end = lo_end (offsets_of s i) in
     if next_lr_step (srv s i) = LR_UPDATE_LOG then
       (if log_offset_end_distance l remote_end = 0 then (None, s)
        else
          let s = upd_srv i (\<lambda>v. v\<lparr>cached_end_offset := log_end l\<rparr>) s in
          if log_end l > remote_end
          then (Some (WriteLog remote_end remote_end (ucast (ucast (log_end l - remote_end) :: u32)), None),
                upd_srv i (\<lambda>v. v\<lparr>send_count := 1\<rparr>) s)
          else (Some (WriteLog remote_end remote_end (ucast (ucast (log_len l - remote_end) :: u32)),
                  if (ucast (log_end l) :: u32) > 0 then Some (WriteLog 0 0 (ucast (ucast (log_end l) :: u32))) else None),
                upd_srv i (\<lambda>v. v\<lparr>send_count := 2\<rparr>) s))
     else if next_lr_step (srv s i) = LR_UPDATE_END then
       (let e = cached_end_offset (srv s i) in (Some (WriteEnd e, None), upd_offsets i (\<lambda>o'. o'\<lparr>lo_end := e\<rparr>) s))
     else (None, s))"

fun update_loop :: "u8 list \<Rightarrow> bool \<Rightarrow> dare_server \<Rightarrow> (int \<times> dare_server) option" where
  "update_loop [] init s = Some (0, s)"
| "update_loop (i # is) init s =
    (if skip_server i s then update_loop is init s
     else case update_step i (if init then s else next_ssn s) of
         (None, _) \<Rightarrow> update_loop is init s
       | (Some (op1, op2), s) \<Rightarrow> do {
           (rc, _, s) \<leftarrow> post_send i LOG_QP op1 True None (expect_wr i s);
           if rc \<noteq> 0 then Some (1, s)
           else case op2 of None \<Rightarrow> update_loop is True s
             | Some op2 \<Rightarrow> do {
                 (rc, _, s) \<leftarrow> post_send i LOG_QP op2 True None (upd_srv i (\<lambda>v. v\<lparr>send_flag := False\<rparr>) s\<lparr>wa_flag := True\<rparr>);
                 update_loop is True s
               }
         })"

section \<open>The commit offset\<close>

text \<open>The end offset of the entries a server is known to hold.\<close>

definition valid_offset :: "dare_server \<Rightarrow> u8 \<Rightarrow> u64" where
  "valid_offset s i =
    (if i = idx_of s then log_end (slog s)
     else if \<not> CID_IS_SERVER_ON (cid_of s) i \<or> fail_count (srv s i) \<ge> PERMANENT_FAILURE \<or>
       next_lr_step (srv s i) \<noteq> LR_UPDATE_LOG then log_commit (slog s)
     else lo_end (offsets_of s i))"

text \<open>How many other servers hold more than \<open>min_offset\<close>.\<close>

definition larger_offset_count :: "dare_server \<Rightarrow> u8 \<Rightarrow> u64 \<Rightarrow> nat" where
  "larger_offset_count s sz min_offset =
    length (filter (\<lambda>i. i \<noteq> idx_of s \<and> CID_IS_SERVER_ON (cid_of s) i \<and> fail_count (srv s i) < PERMANENT_FAILURE \<and>
      next_lr_step (srv s i) = LR_UPDATE_LOG \<and> log_is_offset_larger (slog s) (valid_offset s i) min_offset) (upto8 sz))"

text \<open>The insertion sort of the C code, on numeric values.\<close>

fun shift_in :: "u64 \<Rightarrow> u64 list \<Rightarrow> u64 list" where
  "shift_in tmp [] = [tmp]"
| "shift_in tmp (x # rev_sorted) = (if x > tmp then x # shift_in tmp rev_sorted else tmp # x # rev_sorted)"

definition sort_offsets :: "u64 list \<Rightarrow> u64 list" where
  "sort_offsets xs = rev (fold shift_in xs [])"

definition median :: "u64 list \<Rightarrow> u64" where
  "median xs = sort_offsets xs ! ((length xs - 1) div 2)"

text \<open>The offset to commit, and the size the C variable \<open>size\<close> has after the loop.\<close>

definition commit_offset :: "dare_server \<Rightarrow> u64 \<times> u8" where
  "commit_offset s =
    (let cid = cid_of s; c0 = log_commit (slog s); n0 = cid_size0 cid; n1 = cid_size1 cid;
         m0 = median (map (valid_offset s) (upto8 n0)); m1 = median (map (valid_offset s) (upto8 n1))
     in if cid_state cid \<noteq> CID_TRANSIT then
          (if larger_offset_count s n0 c0 < unat (n0 div 2) then (c0, n0) else (m0, n0))
        else
          (let c1 = (if larger_offset_count s n0 c0 < unat (n0 div 2) then c0 else m0) in
           if larger_offset_count s n1 c1 < unat (n1 div 2) then (c1, n1)
           else (if log_is_offset_larger (slog s) c1 m1 then m1 else c1, n1)))"

fun lazy_commit_loop :: "u8 list \<Rightarrow> bool \<Rightarrow> dare_server \<Rightarrow> (int \<times> dare_server) option" where
  "lazy_commit_loop [] init s = Some (0, s)"
| "lazy_commit_loop (i # is) init s =
    (let v = srv s i; o' = offsets_of s i in
     if i = idx_of s \<or> \<not> CID_IS_SERVER_ON (cid_of s) i \<or> fail_count v \<ge> PERMANENT_FAILURE \<or> \<not> rc_connected v \<or>
       next_lr_step v \<noteq> LR_UPDATE_LOG \<or> lo_commit o' = lo_end o' \<or> lo_commit o' = log_commit (slog s)
     then lazy_commit_loop is init s
     else
       let c = (if log_is_offset_larger (slog s) (log_commit (slog s)) (lo_end o') then lo_end o' else log_commit (slog s));
           s = upd_offsets i (\<lambda>o'. o'\<lparr>lo_commit := c\<rparr>) s;
           s = (if init then s else next_ssn s)
       in do {
         (rc, _, s) \<leftarrow> post_send i LOG_QP (WriteCommit c) False None s;
         if rc \<noteq> 0 then Some (1, s) else lazy_commit_loop is True s
       })"

text \<open>\<open>update_remote_logs\<close>: the first component of the result is the return code, the second whether
  new entries were committed.\<close>

definition update_remote_logs :: "dare_server \<Rightarrow> (int \<times> bool \<times> dare_server) option" where
  "update_remote_logs s =
    do {
      (rc, s) \<leftarrow> update_loop (upto8 (get_extended_group_size (cid_of s))) False s;
      if rc \<noteq> 0 then Some (1, False, s)
      else
        let (min_offset, sz) = commit_offset s;
            new = log_is_offset_larger (slog s) min_offset (log_commit (slog s));
            s = (if new then (set_commit min_offset s)\<lparr>config := (config s)\<lparr>cfg_cid_offset := min_offset\<rparr>\<rparr> else s)
        in do {
          (rc, s) \<leftarrow> lazy_commit_loop (upto8 sz) False s;
          Some (if rc \<noteq> 0 then 1 else 0, new, s)
        }
    }"

text \<open>\<open>rc_write_remote_logs\<close>: when it waits for a commit it repeats the two phases until new entries
  are committed, at most 1000 times; \<open>n\<close> is the number of rounds left.\<close>

fun write_rounds :: "nat \<Rightarrow> bool \<Rightarrow> dare_server \<Rightarrow> (int \<times> dare_server) option" where
  "write_rounds 0 wait s = Some (0, s)"
| "write_rounds (Suc n) wait s =
    do {
      (rc, _, s) \<leftarrow> (if wait then empty_completion_queue 0 LOG_QP False None s else Some (0, None, s));
      if rc \<noteq> 0 then Some (1, s)
      else do {
        (rc, s) \<leftarrow> log_adjustment s;
        if rc \<noteq> 0 then Some (1, s)
        else do {
          (rc, new, s) \<leftarrow> update_remote_logs s;
          if rc \<noteq> 0 then Some (1, s)
          else if wait \<and> new then Some (0, s)
          else if wait then write_rounds n wait s
          else Some (0, s)
        }
      }
    }"

definition rc_write_remote_logs :: "bool \<Rightarrow> dare_server \<Rightarrow> (int \<times> dare_server) option" where
  "rc_write_remote_logs wait s = write_rounds 1000 wait s"

definition needs_update :: "dare_server \<Rightarrow> u8 \<Rightarrow> bool" where
  "needs_update s i = (\<not> (i = idx_of s \<or> \<not> CID_IS_SERVER_ON (cid_of s) i \<or> fail_count (srv s i) \<ge> PERMANENT_FAILURE) \<and>
     c_vote_ack (ctrl s) ! unat i \<noteq> log_len (slog s) \<and>
     (next_lr_step (srv s i) \<noteq> LR_UPDATE_LOG \<or> lo_end (offsets_of s i) \<noteq> log_end (slog s)))"

definition commit_new_entries :: "dare_server \<Rightarrow> dare_server option" where
  "commit_new_entries s =
    (if log_offset_end_distance (slog s) (log_commit (slog s)) \<noteq> 0 then map_option snd (rc_write_remote_logs True s)
     else if \<not> is_log_empty (slog s) \<and> list_ex (needs_update s) (upto8 (get_group_size (cid_of s)))
     then map_option snd (rc_write_remote_logs False s)
     else Some s)"

end
