(* ===== verification/Dare_Election.thy ===== *)
theory Dare_Election
  imports Dare_Repl
begin

text \<open>
  Leader election and heartbeats (dare_server.c).
\<close>

section \<open>Heartbeats\<close>

definition fetch_hb :: "u8 \<Rightarrow> dare_server \<Rightarrow> u64 \<times> dare_server" where
  "fetch_hb i s = (c_hb (ctrl s) ! unat i, s\<lparr>ctrl := (ctrl s)\<lparr>c_hb := (c_hb (ctrl s))[unat i := 0]\<rparr>\<rparr>)"

text \<open>The heartbeat of server \<open>i\<close>, the one of the leader through \<open>latest_hb_received\<close>.\<close>

definition take_hb :: "u8 \<Rightarrow> u8 \<Rightarrow> dare_server \<Rightarrow> u64 \<times> dare_server" where
  "take_hb leader i s =
    (if i = leader then
       (let s = (if latest_hb_received s = 0 then (let (hb, s) = fetch_hb leader s in s\<lparr>latest_hb_received := hb\<rparr>) else s)
        in (latest_hb_received s, s\<lparr>latest_hb_received := 0\<rparr>))
     else fetch_hb i s)"

fun hb_receive_loop :: "u8 \<Rightarrow> u8 list \<Rightarrow> bool \<Rightarrow> u64 \<Rightarrow> dare_server \<Rightarrow> (bool \<times> u64 \<times> dare_server) option" where
  "hb_receive_loop leader [] timeout new_sid s = Some (timeout, new_sid, s)"
| "hb_receive_loop leader (i # is) timeout new_sid s =
    (if i = idx_of s \<or> \<not> CID_IS_SERVER_ON (cid_of s) i then hb_receive_loop leader is timeout new_sid s
     else
       let (hb, s) = take_hb leader i s in
       if hb = 0 then hb_receive_loop leader is timeout new_sid s
       else if hb < new_sid then
         (if SID_GET_L hb
          then do {
            (_, s) \<leftarrow> rc_send_hb_reply i s;
            hb_receive_loop leader is timeout new_sid (s\<lparr>hb_timeout_tenths := hb_timeout_tenths s + 1\<rparr>)
          }
          else hb_receive_loop leader is timeout new_sid s)
       else hb_receive_loop leader is False (if SID_GET_L hb then hb else new_sid) s)"

definition hb_receive_cb :: "dare_server \<Rightarrow> dare_server option" where
  "hb_receive_cb s =
    (let sz = get_group_size (cid_of s) in
     if idx_of s \<ge> sz then Some (s\<lparr>hb_armed := True\<rparr>)
     else if \<not> fits_arrays s then None
     else
       let s = s\<lparr>slog := (slog s)\<lparr>log_tail := log_len (slog s)\<rparr>\<rparr> in
       do {
         (timeout, new_sid, s) \<leftarrow> hb_receive_loop (SID_GET_IDX (sid_of s)) (upto8 sz) True (sid_of s) s;
         if timeout then start_election (s\<lparr>hb_armed := False\<rparr>)
         else if new_sid \<noteq> sid_of s then
           let old_sid = sid_of s; s = server_update_sid new_sid (sid_of s) s
           in if SID_GET_TERM old_sid \<noteq> SID_GET_TERM (sid_of s) then server_to_follower s else Some s
         else Some (s\<lparr>hb_armed := True\<rparr>)
       })"

fun hb_send_loop :: "u64 \<Rightarrow> u8 list \<Rightarrow> dare_server \<Rightarrow> bool \<times> dare_server" where
  "hb_send_loop new_sid [] s = (False, s)"
| "hb_send_loop new_sid (i # is) s =
    (if i = idx_of s \<or> \<not> CID_IS_SERVER_ON (cid_of s) i then hb_send_loop new_sid is s
     else let (hb, s) = fetch_hb i s in
       if hb < new_sid then hb_send_loop new_sid is s
       else (True, server_update_sid new_sid (sid_of s) s))"

definition hb_send_cb :: "dare_server \<Rightarrow> dare_server option" where
  "hb_send_cb s =
    (let (found, s) = hb_send_loop (sid_of s) (group_of s) s in
     if found then (if halted s then Some s else server_to_follower s)
     else do {
       (rc, s) \<leftarrow> rc_send_hb s;
       Some (if rc \<noteq> 0 then halt (s\<lparr>hb_armed := False\<rparr>) else s\<lparr>hb_armed := True\<rparr>)
     })"

text \<open>\<open>hb_timeout_tenths\<close> is \<open>recomputed_hb_timeout\<close> in tenths of the heartbeat period.  The test of the
  statistics, \<open>(double)fp_count/total_count < 0.0001\<close>, is exact for counts below 2^53.\<close>

definition enough_trials :: "dare_server \<Rightarrow> bool" where
  "enough_trials s = (total_count s > 100000 \<and> 10000 * unat (fp_count s) < unat (total_count s))"

definition to_adjust_cb :: "dare_server \<Rightarrow> dare_server option" where
  "to_adjust_cb s =
    (if hb_timeout_flag s then Some (s\<lparr>adjust_armed := False\<rparr>)
     else if \<not> leader_slot s then None
     else
       let (hb, s) = fetch_hb (SID_GET_IDX (sid_of s)) (s\<lparr>total_count := total_count s + 1\<rparr>);
           s = (if hb \<noteq> 0 then
                  (let s = s\<lparr>latest_hb_received := hb\<rparr> in
                   if leader_failed s
                   then s\<lparr>fp_count := fp_count s + 1, leader_failed := False, hb_timeout_tenths := hb_timeout_tenths s + 10\<rparr>
                   else s)
                else s\<lparr>leader_failed := True\<rparr>)
       in Some (if enough_trials s then s\<lparr>hb_timeout_flag := True, adjust_armed := False\<rparr> else s\<lparr>adjust_armed := True\<rparr>))"

text \<open>The period of the next timeout, in tenths of the heartbeat period.\<close>

definition hb_timeout :: "dare_server \<Rightarrow> nat" where
  "hb_timeout s = (if hb_timeout_flag s then hb_timeout_tenths s else 100)"

section \<open>Counting votes\<close>

text \<open>One vote of \<open>poll_vote_count\<close>; the two counters are for the old and the new size.\<close>

definition count_vote :: "u8 \<Rightarrow> u8 \<times> u8 \<times> dare_server \<Rightarrow> u8 \<times> u8 \<times> dare_server" where
  "count_vote i = (\<lambda>(n0, n1, s).
    (let remote_commit = c_vote_ack (ctrl s) ! unat i in
     if i = idx_of s \<or> log_len (slog s) = remote_commit then (n0, n1, s)
     else (if i < cid_size0 (cid_of s) then n0 + 1 else n0, if i < cid_size1 (cid_of s) then n1 + 1 else n1,
       advance_commit remote_commit (upd_srv i (\<lambda>v. v\<lparr>next_lr_step := LR_GET_NCE_LEN\<rparr>)
         (upd_offsets i (\<lambda>o'. o'\<lparr>lo_commit := remote_commit\<rparr>) s)))))"

definition count_votes :: "dare_server \<Rightarrow> u8 \<times> u8 \<times> dare_server" where
  "count_votes s = fold count_vote (group_of s) (1, 1, s)"

definition won_election :: "u8 \<Rightarrow> u8 \<Rightarrow> dare_cid_t \<Rightarrow> bool" where
  "won_election n0 n1 cid =
    (\<not> (unat n0 < unat (cid_size0 cid) div 2 + 1) \<and>
     (cid_state cid \<noteq> CID_STABLE \<longrightarrow> \<not> (unat n1 < unat (cid_size1 cid) div 2 + 1)))"

text \<open>The scan for a CONFIG entry that is not applied: the offset it ends at and the last entry met.\<close>

fun find_config :: "nat \<Rightarrow> dare_log_t \<Rightarrow> u64 \<Rightarrow> u64 \<Rightarrow> u64 option \<Rightarrow> (u64 \<times> u64 option) option" where
  "find_config fuel l cid_idx offset entry =
    (if log_offset_end_distance l offset = 0 then Some (offset, entry)
     else case fuel of 0 \<Rightarrow> None | Suc f \<Rightarrow>
       (case log_get_entry l offset of None \<Rightarrow> None | Some e \<Rightarrow>
         if \<not> log_fit_entry l e e then find_config f l cid_idx 0 (Some e)
         else if entry_type (log_entries l) e = CONFIG \<and> entry_idx (log_entries l) e > cid_idx then Some (e, Some e)
         else find_config f l cid_idx (e + ucast (log_entry_len (log_entries l) e)) (Some e)))"

declare find_config.simps [simp del]

text \<open>The byte loop \<open>for (i = size[0] - 1; i > size[1]; i--)\<close>.\<close>

definition down8 :: "u8 \<Rightarrow> u8 \<Rightarrow> u8 list" where
  "down8 a b = rev (map of_nat [unat b + 1..<unat a + 1])"

text \<open>The blank entry of the new leader.  Reading the state of the entry when the scan met none is
  undefined in the C code (\<open>None\<close>).\<close>

definition leader_blank_entry :: "dare_server \<Rightarrow> dare_server option" where
  "leader_blank_entry s =
    (if cid_state (cid_of s) = CID_STABLE then
       (let s = set_owner 0 0 s in
        do { (i, s) \<leftarrow> append_entry 0 0 CONFIG (DCid (cid_of s)) s; Some (s\<lparr>last_write_csm_idx := i\<rparr>) })
     else do {
       (offset, entry) \<leftarrow> find_config (scan_fuel2 (slog s)) (slog s) (cfg_cid_idx (config s)) (cfg_cid_offset (config s)) None;
       if log_offset_end_distance (slog s) offset \<noteq> 0
       then do { (i, s) \<leftarrow> append_entry 0 0 NOOP DNone s; Some (s\<lparr>last_write_csm_idx := i\<rparr>) }
       else do {
         e \<leftarrow> entry;
         let s = (if cid_state (entry_cid (log_entries (slog s)) e) = CID_EXTENDED then set_state CID_TRANSIT s
                  else drop_old_size (let s = set_state CID_STABLE s in
                    remove_servers (down8 (cid_size0 (cid_of s) - 1) (cid_size1 (cid_of s))) s));
         (i, s) \<leftarrow> append_entry (cfg_req_id (config s)) (cfg_clt_id (config s)) CONFIG (DCid (cid_of s)) s;
         Some (s\<lparr>last_write_csm_idx := i\<rparr>)
       }
     })"

definition become_leader :: "dare_server \<Rightarrow> dare_server" where
  "become_leader s =
    (let s = s\<lparr>endpoints := ep_dp_reset_wait_idx (endpoints s), hb_event := HbSend, hb_armed := True, adjust_armed := False\<rparr>;
         s = s\<lparr>ctrl := (ctrl s)\<lparr>c_apply_offsets :=
           fold (\<lambda>i a. a[unat i := log_head (slog s)]) (upto8 (get_extended_group_size (cid_of s))) (c_apply_offsets (ctrl s))\<rparr>\<rparr>;
         (rc, s) = rc_restore_log_access (s\<lparr>prune_armed := True\<rparr>)
     in if rc \<noteq> 0 then halt s else s)"

definition poll_vote_count :: "dare_server \<Rightarrow> dare_server option" where
  "poll_vote_count s =
    (let (n0, n1, s) = count_votes s in
     if \<not> won_election n0 n1 (cid_of s) then Some s
     else
       let s = emit BecomeLeader (server_update_sid (SID_SET_L (sid_of s)) (sid_of s) s)
       in do {
         s \<leftarrow> poll_config_entries s;
         if halted s then Some s
         else do {
           s \<leftarrow> apply_committed_entries s;
           if halted s then Some s
           else do {
             s \<leftarrow> leader_blank_entry (emit AppendNoOp s);
             Some (become_leader s)
           }
         }
       })"

section \<open>Voting\<close>

text \<open>The first pass over the vote requests: the best SID above the server's own with the L flag set.\<close>

definition upd_req :: "u8 \<Rightarrow> (vote_req_t \<Rightarrow> vote_req_t) \<Rightarrow> dare_server \<Rightarrow> dare_server" where
  "upd_req i f s = s\<lparr>ctrl := (ctrl s)\<lparr>c_vote_req := (c_vote_req (ctrl s))[unat i := f (c_vote_req (ctrl s) ! unat i)]\<rparr>\<rparr>"

definition best_sid_step :: "u8 \<Rightarrow> u64 \<times> dare_server \<Rightarrow> u64 \<times> dare_server" where
  "best_sid_step i = (\<lambda>(best_sid, s).
    (let request = c_vote_req (ctrl s) ! unat i in
     if i = idx_of s then (best_sid, s)
     else if best_sid \<ge> vr_sid request then (best_sid, upd_req i (\<lambda>r. r\<lparr>vr_sid := 0\<rparr>) s)
     else (vr_sid request, s)))"

text \<open>The second pass: the request with a SID that is good enough and a log at least as up to date as
  the best one so far.\<close>

definition best_request_step :: "u8 \<Rightarrow> u64 \<times> vote_req_t \<times> dare_server \<Rightarrow> u64 \<times> vote_req_t \<times> dare_server" where
  "best_request_step i = (\<lambda>(highest_term, best, s).
    (let request = c_vote_req (ctrl s) ! unat i; s' = upd_req i (\<lambda>r. r\<lparr>vr_sid := 0\<rparr>) s in
     if vr_sid best > vr_sid request then (highest_term, best, s')
     else
       let highest_term = (if highest_term < SID_GET_TERM (vr_sid request) then SID_GET_TERM (vr_sid request) else highest_term)
       in if vr_term best > vr_term request \<or> vr_term best = vr_term request \<and> vr_index best > vr_index request
          then (highest_term, best, s')
          else (highest_term, request, s')))"

text \<open>The last entry of the local log, taken from the NC-buffer when it is not empty.\<close>

definition local_last :: "dare_log_t \<Rightarrow> dare_log_entry_det_t list \<Rightarrow> (u64 \<times> u64) option" where
  "local_last l nc =
    (if nc \<noteq> [] then Some (det_idx (last nc), det_term (last nc))
     else do {
       tail \<leftarrow> log_get_tail (scan_fuel l) l;
       if tail = log_len l then Some (0, 0)
       else do { e \<leftarrow> log_get_entry l tail; Some (entry_idx (log_entries l) e, entry_term (log_entries l) e) }
     })"

text \<open>Following the chosen candidate.\<close>

definition vote_for :: "vote_req_t \<Rightarrow> dare_server \<Rightarrow> dare_server option" where
  "vote_for best s =
    (let s = server_update_sid (vr_sid best) (sid_of s) (s\<lparr>hb_armed := False\<rparr>);
         s = snd (update_cid (vr_cid best) s)
     in if halted s then Some s
        else do {
          (rc, s) \<leftarrow> rc_replicate_vote s;
          if rc \<noteq> 0 then Some (halt s)
          else
            let (rc, s) = rc_restore_log_access (stop_leading s)
            in if rc \<noteq> 0 then Some (halt s) else ack_and_wait s
        })"

definition poll_vote_requests :: "dare_server \<Rightarrow> dare_server option" where
  "poll_vote_requests s =
    (if SID_GET_L (sid_of s) then Some s
     else if \<not> leader_slot s then None
     else
       let hb = c_hb (ctrl s) ! unat (SID_GET_IDX (sid_of s)) in
       if hb \<noteq> 0 \<and> SID_GET_TERM hb = SID_GET_TERM (sid_of s) then Some (server_update_sid hb (sid_of s) s)
       else
       if \<not> fits_arrays s then None
       else
         let old_sid = SID_SET_L (sid_of s);
             (best_sid, s) = fold best_sid_step (group_of s) (old_sid, s)
         in if best_sid = old_sid then Some s
            else
              let (rc, s) = rc_revoke_log_access s in
              if rc \<noteq> 0 then Some (halt s)
              else do {
                nc \<leftarrow> log_entries_to_nc_buf (scan_fuel (slog s)) (slog s);
                (index, term) \<leftarrow> local_last (slog s) nc;
                let s = set_own_nc nc s;
                let start = \<lparr>vr_sid = old_sid, vr_index = index, vr_term = term, vr_cid = cid_of s\<rparr>;
                let (highest_term, best, s) = fold best_request_step (group_of s) (SID_GET_TERM best_sid, start, s);
                if vr_sid best = old_sid
                then Some (server_update_sid (SID_SET_IDX (SID_SET_TERM (sid_of s) highest_term) (idx_of s)) (sid_of s) s)
                else vote_for best s
              })"

end
