(* ===== verification/Dare_Frame.thy ===== *)
theory Dare_Frame
  imports Dare_Rc_Ops
begin

text \<open>
  What the operations of the connection layer leave unchanged (\<open>core\<close>), and which work requests they
  post (\<open>emits\<close>).
\<close>

section \<open>What the RC layer leaves unchanged\<close>

text \<open>\<open>core s\<close> is the part of the state that no RC operation changes: everything but the endpoints,
  the slots of the control data that RDMA operations write, the NC-buffers, the counters of the
  connection layer and the environment.  The lengths of the arrays are kept.\<close>

definition shape :: "ctrl_data_t \<Rightarrow> ctrl_data_t" where
  "shape c = c\<lparr>c_vote_req := map (\<lambda>_. hd (c_vote_req ctrl_init)) (c_vote_req c),
     c_log_offsets := map (\<lambda>_. hd (c_log_offsets ctrl_init)) (c_log_offsets c),
     c_sm_rep := map (\<lambda>_. hd (c_sm_rep ctrl_init)) (c_sm_rep c),
     c_sm_req := map (\<lambda>_. 0) (c_sm_req c), c_hb := map (\<lambda>_. 0) (c_hb c), c_vote_ack := map (\<lambda>_. 0) (c_vote_ack c),
     c_rsid := map (\<lambda>_. 0) (c_rsid c), c_apply_offsets := map (\<lambda>_. 0) (c_apply_offsets c), c_vote_sid := map (\<lambda>_. 0) (c_vote_sid c)\<rparr>"

definition core :: "dare_server \<Rightarrow> dare_server" where
  "core s = s\<lparr>ctrl := shape (ctrl s), config := (config s)\<lparr>cfg_servers := map (\<lambda>_. server_init) (cfg_servers (config s))\<rparr>,
     slog := (slog s)\<lparr>log_nc_buf := map (\<lambda>_. []) (log_nc_buf (slog s))\<rparr>,
     ssn := 0, wa_flag := False, env_rcs := [], polls := [], trace := []\<rparr>"

lemma map_const_update [simp]: "map (\<lambda>_. c) (xs[i := v]) = map (\<lambda>_. c) xs"
  by (simp add: map_update map_replicate_const)

lemma core_do_dma [simp]: "core (do_dma d s) = core s"
  by (cases d) (simp_all add: core_def shape_def)

lemma core_fold_dma [simp]: "core (fold do_dma ds s) = core s"
  by (induction ds arbitrary: s) simp_all

lemma core_upd_srv [simp]: "core (upd_srv i f s) = core s"
  by (simp add: core_def upd_srv_def)

lemma core_upd_qp [simp]: "core (upd_qp i qp f s) = core s"
  by (simp add: upd_qp_def)

lemma core_emit [simp]: "core (emit e s) = core s"
  by (simp add: core_def emit_def)

lemma core_upd_env [simp]:
  "core (s\<lparr>polls := p\<rparr>) = core s" "core (s\<lparr>env_rcs := r\<rparr>) = core s" "core (s\<lparr>ssn := n\<rparr>) = core s"
  "core (s\<lparr>wa_flag := b\<rparr>) = core s" "core (s\<lparr>trace := t\<rparr>) = core s" "core (next_ssn s) = core s"
  by (simp_all add: core_def next_ssn_def)

lemma core_upd_slots [simp]:
  "core (s\<lparr>ctrl := (ctrl s)\<lparr>c_vote_req := (c_vote_req (ctrl s))[i := v]\<rparr>\<rparr>) = core s"
  "core (s\<lparr>ctrl := (ctrl s)\<lparr>c_vote_sid := (c_vote_sid (ctrl s))[i := x]\<rparr>\<rparr>) = core s"
  "core (s\<lparr>ctrl := (ctrl s)\<lparr>c_vote_ack := (c_vote_ack (ctrl s))[i := x]\<rparr>\<rparr>) = core s"
  "core (s\<lparr>ctrl := (ctrl s)\<lparr>c_hb := (c_hb (ctrl s))[i := x]\<rparr>\<rparr>) = core s"
  "core (s\<lparr>slog := (slog s)\<lparr>log_nc_buf := (log_nc_buf (slog s))[i := b]\<rparr>\<rparr>) = core s"
  by (simp_all add: core_def shape_def)

lemma core_next_rc [simp]: "core (snd (next_rc s)) = core s"
  by (simp add: next_rc_def split: list.split)

lemma coreD:
  assumes "core s' = core s"
  shows "sid_of s' = sid_of s" "cid_of s' = cid_of s" "idx_of s' = idx_of s" "halted s' = halted s"
    "dare_state s' = dare_state s" "log_entries (slog s') = log_entries (slog s)" "log_end (slog s') = log_end (slog s)"
    "log_len (slog s') = log_len (slog s)" "log_commit (slog s') = log_commit (slog s)"
    "log_apply (slog s') = log_apply (slog s)" "log_head (slog s') = log_head (slog s)" "log_tail (slog s') = log_tail (slog s)"
    "length (cfg_servers (config s')) = length (cfg_servers (config s))"
    "hb_event s' = hb_event s" "hb_armed s' = hb_armed s"
proof -
  have "f (core s') = f (core s)" for f :: "dare_server \<Rightarrow> 'z" using assms by simp
  from this [of sid_of] this [of cid_of] this [of idx_of] this [of halted] this [of dare_state]
    this [of "\<lambda>s. log_entries (slog s)"] this [of "\<lambda>s. log_end (slog s)"] this [of "\<lambda>s. log_len (slog s)"]
    this [of "\<lambda>s. log_commit (slog s)"] this [of "\<lambda>s. log_apply (slog s)"] this [of "\<lambda>s. log_head (slog s)"]
    this [of "\<lambda>s. log_tail (slog s)"] this [of "\<lambda>s. length (cfg_servers (config s))"]
    this [of hb_event] this [of hb_armed]
  show "sid_of s' = sid_of s" "cid_of s' = cid_of s" "idx_of s' = idx_of s" "halted s' = halted s"
    "dare_state s' = dare_state s" "log_entries (slog s') = log_entries (slog s)" "log_end (slog s') = log_end (slog s)"
    "log_len (slog s') = log_len (slog s)" "log_commit (slog s') = log_commit (slog s)"
    "log_apply (slog s') = log_apply (slog s)" "log_head (slog s') = log_head (slog s)" "log_tail (slog s') = log_tail (slog s)"
    "length (cfg_servers (config s')) = length (cfg_servers (config s))"
    "hb_event s' = hb_event s" "hb_armed s' = hb_armed s"
    by (simp_all add: core_def shape_def)
qed


lemma core_modify_qp [simp]: "core (snd (modify_qp i qp st s)) = core s"
  by (simp add: modify_qp_def Let_def split_def)

lemma core_qp_ops [simp]:
  "core (snd (rc_qp_reset i qp s)) = core s" "core (snd (rc_qp_reset_to_init i qp s)) = core s"
  "core (snd (rc_qp_init_to_rtr i qp s)) = core s" "core (snd (rc_qp_rtr_to_rts i qp s)) = core s"
  by (simp_all add: rc_qp_reset_def rc_qp_reset_to_init_def rc_qp_init_to_rtr_def rc_qp_rtr_to_rts_def)

lemma core_qp_restart [simp]: "core (snd (rc_qp_restart i qp s)) = core s"
  by (simp add: rc_qp_restart_def Let_def split_def)

lemma core_qp_reset_to_rts [simp]: "core (snd (rc_qp_reset_to_rts i qp s)) = core s"
  by (simp add: rc_qp_reset_to_rts_def Let_def split_def)

lemma core_disconnect [simp]: "core (snd (rc_disconnect_server i s)) = core s" "core (dare_ib_disconnect_server i s) = core s"
  by (simp_all add: rc_disconnect_server_def dare_ib_disconnect_server_def Let_def split_def)

lemma core_revoke_loop [simp]: "core (snd (revoke_loop is s)) = core s"
  by (induction "is" arbitrary: s) (simp_all add: Let_def split_def)

lemma core_restore_loop [simp]: "core (snd (restore_loop is s)) = core s"
  by (induction "is" arbitrary: s) (simp_all add: Let_def split_def)

lemma core_log_access [simp]: "core (snd (rc_revoke_log_access s)) = core s" "core (snd (rc_restore_log_access s)) = core s"
  by (simp_all add: rc_revoke_log_access_def rc_restore_log_access_def Let_def split_def)

lemma core_handle_lr [simp]: "core (handle_lr_work_completion w rc s) = core s"
  by (simp add: handle_lr_work_completion_def Let_def)

lemma core_ecq_wc [simp]: "core (snd (snd (ecq_wc i qp wc x))) = core (snd (snd x))"
  by (simp add: ecq_wc_def Let_def split_def split: wc_rc.split)

lemma core_fold_ecq [simp]: "core (snd (snd (fold (ecq_wc i qp) wcs x))) = core (snd (snd x))"
  by (induction wcs arbitrary: x) simp_all

lemma core_ecq_loop: "ecq_loop ps i qp x = Some (rc, p, s') \<Longrightarrow> core s' = core (snd (snd x))"
proof (induction ps arbitrary: x)
  case (Cons q ps)
  obtain w p s where x: "x = (w, p, s)" by (cases x)
  show ?case
    using Cons.prems Cons.IH [of "(w, p, fold do_dma _ s)"] Cons.IH [of "fold (ecq_wc i qp) _ (w, p, fold do_dma _ s)"]
    by (cases q) (auto simp: x split: if_splits)
qed (auto simp: split: if_splits prod.splits)

lemma core_empty_completion_queue: "empty_completion_queue i qp w p s = Some (rc, p', s') \<Longrightarrow> core s' = core s"
  using core_ecq_loop by (fastforce simp: empty_completion_queue_def)

lemma core_post_send:
  assumes "post_send i qp oper sg p s = Some (rc, p', s')"
  shows "core s' = core s"
proof -
  let ?b = "if qp_state (rc_qp (srv s i) qp) = RC_QP_BLOCKED
        then map_option (\<lambda>(rc, _, s). (rc, s)) (empty_completion_queue i qp True None s) else Some (0, s)"
  obtain r t where b: "?b = Some (r, t)"
    using assms unfolding post_send_def by (cases ?b) auto
  then have c: "core t = core s"
    using core_empty_completion_queue by (auto split: if_splits)
  then show ?thesis
    using assms unfolding post_send_def b
    by (auto simp: Let_def split_def bind_eq_Some_conv dest!: core_empty_completion_queue split: if_splits)
qed

lemma core_wfm_wc [simp]: "core (snd (snd (snd (wfm_wc n qp st wc x)))) = core (snd (snd (snd x)))"
  by (simp add: wfm_wc_def Let_def split_def split: wc_rc.split)

lemma core_fold_wfm [simp]: "core (snd (snd (snd (fold (wfm_wc n qp st) wcs x)))) = core (snd (snd (snd x)))"
  by (induction wcs arbitrary: x) simp_all

lemma core_wfm_loop: "wfm_loop ps n qp x = Some (rc, a, b, p, s') \<Longrightarrow> core s' = core (snd (snd (snd x)))"
proof (induction ps arbitrary: x)
  case Nil
  then show ?case by (cases x) (auto simp: wfm_loop.simps split: if_splits)
next
  case (Cons q ps)
  obtain k m p' s where x: "x = (k, m, p', s)" by (cases x)
  show ?case
    using Cons.prems Cons.IH [of "fold (wfm_wc n qp _) _ (k, m, p', fold do_dma _ s)"]
    by (cases q) (auto simp: x wfm_loop.simps [of "_ # _"] Let_def split: if_splits)
qed

lemma core_wait_for_majority:
  assumes "wait_for_majority p qp s = Some (rc, p', s')"
  shows "core s' = core s"
proof -
  let ?n = "cid_size0 (cid_of s)"
  obtain r k c q t where 1: "wfm_loop (polls s) ?n qp (count_success ?n p, count_posted (get_group_size (cid_of s)) p, p, s) =
      Some (r, k, c, q, t)"
    using assms unfolding wait_for_majority_def Let_def by (auto simp only: bind_eq_Some_conv)
  have t: "core t = core s"
    using core_wfm_loop [OF 1] by simp
  let ?m = "cid_size1 (cid_of t)"
  show ?thesis
  proof (cases "r = RC_ERROR \<or> cid_state (cid_of t) = CID_STABLE")
    case True
    then show ?thesis using assms t unfolding wait_for_majority_def Let_def 1 by (auto split: if_splits)
  next
    case False
    then obtain r' k' c' q' where "wfm_loop (polls t) ?m qp (count_success ?m q, c, q, t) = Some (r', k', c', q', s')"
      using assms unfolding wait_for_majority_def Let_def 1
      by (cases "wfm_loop (polls t) ?m qp (count_success ?m q, c, q, t)") (auto split: if_splits)
    from core_wfm_loop [OF this] t show ?thesis by simp
  qed
qed

lemma core_wfo_wc [simp]: "core (snd (snd (snd (wfo_wc qp st wc x)))) = core (snd (snd (snd x)))"
  by (simp add: wfo_wc_def Let_def split_def split: wc_rc.split)

lemma core_fold_wfo [simp]: "core (snd (snd (snd (fold (wfo_wc qp st) wcs x)))) = core (snd (snd (snd x)))"
  by (induction wcs arbitrary: x) simp_all

lemma core_wfo_loop: "wfo_loop ps qp x = Some (rc, a, p, s') \<Longrightarrow> core s' = core (snd (snd (snd x)))"
proof (induction ps arbitrary: x)
  case Nil
  then show ?case by (cases x) (auto simp: wfo_loop.simps split: if_splits)
next
  case (Cons q ps)
  obtain k m p' s where x: "x = (k, m, p', s)" by (cases x)
  show ?case
    using Cons.prems Cons.IH [of "fold (wfo_wc qp _) _ (k, m, p', fold do_dma _ s)"]
    by (cases q) (auto simp: x wfo_loop.simps [of "_ # _"] Let_def split: if_splits)
qed

lemma core_wait_for_one: "wait_for_one p qp s = Some (rc, p', s') \<Longrightarrow> core s' = core s"
  by (auto simp: wait_for_one_def Let_def bind_eq_Some_conv dest!: core_wfo_loop split: if_splits)

lemma core_post_all: "post_all qp sg oper is p s = Some (rc, p', s') \<Longrightarrow> core s' = core s"
proof (induction "is" arbitrary: p s)
  case (Cons i "is")
  show ?case
    using Cons.prems by (auto simp: bind_eq_Some_conv dest!: core_post_send Cons.IH split: if_splits)
qed simp

lemma core_rc_send_hb: "rc_send_hb s = Some (rc, s') \<Longrightarrow> core s' = core s"
  by (auto simp: rc_send_hb_def bind_eq_Some_conv dest!: core_post_all)

lemma core_rc_send_hb_reply: "rc_send_hb_reply i s = Some (rc, s') \<Longrightarrow> core s' = core s"
  by (auto simp: rc_send_hb_reply_def Let_def bind_eq_Some_conv dest!: core_post_send split: if_splits)

lemma core_rc_send_vote_request: "rc_send_vote_request s = Some (rc, s') \<Longrightarrow> core s' = core s"
  by (auto simp: rc_send_vote_request_def Let_def bind_eq_Some_conv dest!: core_post_all)

lemma core_rc_replicate_vote: "rc_replicate_vote s = Some (rc, s') \<Longrightarrow> core s' = core s"
  by (auto simp: rc_replicate_vote_def Let_def bind_eq_Some_conv dest!: core_post_all core_wait_for_majority split: if_splits)

lemma core_rc_send_vote_ack: "rc_send_vote_ack s = Some (rc, s') \<Longrightarrow> core s' = core s"
  by (auto simp: rc_send_vote_ack_def Let_def bind_eq_Some_conv dest!: core_post_send core_wait_for_one split: if_splits)

lemma core_read_remote_sids: "read_remote_sids s = Some (rc, r, s') \<Longrightarrow> core s' = core s"
  by (auto simp: read_remote_sids_def Let_def bind_eq_Some_conv dest!: core_post_all core_wait_for_majority split: if_splits)

lemmas core_ops = core_rc_send_hb core_rc_send_hb_reply core_rc_send_vote_request core_rc_replicate_vote
  core_rc_send_vote_ack core_read_remote_sids

section \<open>What the RC layer posts\<close>

text \<open>\<open>emits P s s'\<close>: the trace of \<open>s'\<close> extends that of \<open>s\<close>, and every work request posted in between
  satisfies \<open>P\<close>.\<close>

definition emits :: "(wr_t \<Rightarrow> bool) \<Rightarrow> dare_server \<Rightarrow> dare_server \<Rightarrow> bool" where
  "emits P s s' = (\<exists>tr. trace s' = trace s @ tr \<and> (\<forall>w. Posted w \<in> set tr \<longrightarrow> P w))"

lemma emits_refl [simp, intro]: "emits P s s"
  by (simp add: emits_def)

lemma emits_same: "trace s' = trace s \<Longrightarrow> emits P s s'"
  by (simp add: emits_def)

lemma emits_trans [trans]: "emits P s s' \<Longrightarrow> emits P s' s'' \<Longrightarrow> emits P s s''"
  by (fastforce simp: emits_def)

lemma emits_mono: "emits P s s' \<Longrightarrow> (\<And>w. P w \<Longrightarrow> Q w) \<Longrightarrow> emits Q s s'"
  by (fastforce simp: emits_def)

lemma emits_emit: "emits P s s' \<Longrightarrow> (\<And>w. e = Posted w \<Longrightarrow> P w) \<Longrightarrow> emits P s (emit e s')"
  by (fastforce simp: emits_def)

lemma emits_halt [simp]: "emits P s (halt t) \<longleftrightarrow> emits P s t"
  by (simp add: emits_def)

text \<open>The events of \<open>s'\<close> after those of \<open>s\<close>.\<close>

definition new_events :: "dare_server \<Rightarrow> dare_server \<Rightarrow> event list" where
  "new_events s s' = drop (length (trace s)) (trace s')"

lemma emits_new_events: "emits P s s' \<Longrightarrow> Posted w \<in> set (new_events s s') \<Longrightarrow> P w"
  by (auto simp: emits_def new_events_def)

lemma emits_cong: "trace s' = trace t' \<Longrightarrow> emits P s s' \<longleftrightarrow> emits P s t'" "trace s = trace t \<Longrightarrow> emits P s s' \<longleftrightarrow> emits P t s'"
  by (simp_all add: emits_def)

lemma trace_do_dma [simp]: "trace (do_dma d s) = trace s"
  by (cases d) simp_all

lemma trace_fold_dma [simp]: "trace (fold do_dma ds s) = trace s"
  by (induction ds arbitrary: s) simp_all

lemma trace_upd_qp [simp]: "trace (upd_qp i qp f s) = trace s"
  by (simp add: upd_qp_def)

lemma trace_next_rc [simp]: "trace (snd (next_rc s)) = trace s"
  by (simp add: next_rc_def split: list.split)

lemma next_ssn_sel [simp]: "trace (next_ssn s) = trace s" "config (next_ssn s) = config s" "ctrl (next_ssn s) = ctrl s"
  "slog (next_ssn s) = slog s" "srv (next_ssn s) i = srv s i" "halted (next_ssn s) = halted s"
  by (simp_all add: next_ssn_def srv_def)

lemma trace_handle_lr [simp]: "trace (handle_lr_work_completion w rc s) = trace s"
  by (simp add: handle_lr_work_completion_def Let_def)

lemma trace_fold_ecq [simp]: "trace (snd (snd (fold (ecq_wc i qp) wcs x))) = trace (snd (snd x))"
  by (induction wcs arbitrary: x) (simp_all add: ecq_wc_def Let_def split_def split: wc_rc.split)

lemma trace_ecq_loop: "ecq_loop ps i qp x = Some (rc, p, s') \<Longrightarrow> trace s' = trace (snd (snd x))"
proof (induction ps arbitrary: x)
  case (Cons q ps)
  obtain w p s where x: "x = (w, p, s)" by (cases x)
  show ?case
    using Cons.prems Cons.IH [of "(w, p, fold do_dma _ s)"] Cons.IH [of "fold (ecq_wc i qp) _ (w, p, fold do_dma _ s)"]
    by (cases q) (auto simp: x split: if_splits)
qed (auto split: if_splits prod.splits)

lemma trace_empty_completion_queue: "empty_completion_queue i qp w p s = Some (rc, p', s') \<Longrightarrow> trace s' = trace s"
  using trace_ecq_loop by (fastforce simp: empty_completion_queue_def)

lemma trace_fold_wfm [simp]: "trace (snd (snd (snd (fold (wfm_wc n qp st) wcs x)))) = trace (snd (snd (snd x)))"
  by (induction wcs arbitrary: x) (simp_all add: wfm_wc_def Let_def split_def split: wc_rc.split)

lemma trace_wfm_loop: "wfm_loop ps n qp x = Some (rc, a, b, p, s') \<Longrightarrow> trace s' = trace (snd (snd (snd x)))"
proof (induction ps arbitrary: x)
  case Nil
  then show ?case by (cases x) (auto simp: wfm_loop.simps split: if_splits)
next
  case (Cons q ps)
  obtain k m p' s where x: "x = (k, m, p', s)" by (cases x)
  show ?case
    using Cons.prems Cons.IH [of "fold (wfm_wc n qp _) _ (k, m, p', fold do_dma _ s)"]
    by (cases q) (auto simp: x wfm_loop.simps [of "_ # _"] Let_def split: if_splits)
qed

lemma trace_fold_wfo [simp]: "trace (snd (snd (snd (fold (wfo_wc qp st) wcs x)))) = trace (snd (snd (snd x)))"
  by (induction wcs arbitrary: x) (simp_all add: wfo_wc_def Let_def split_def split: wc_rc.split)

lemma trace_wfo_loop: "wfo_loop ps qp x = Some (rc, a, p, s') \<Longrightarrow> trace s' = trace (snd (snd (snd x)))"
proof (induction ps arbitrary: x)
  case Nil
  then show ?case by (cases x) (auto simp: wfo_loop.simps split: if_splits)
next
  case (Cons q ps)
  obtain k m p' s where x: "x = (k, m, p', s)" by (cases x)
  show ?case
    using Cons.prems Cons.IH [of "fold (wfo_wc qp _) _ (k, m, p', fold do_dma _ s)"]
    by (cases q) (auto simp: x wfo_loop.simps [of "_ # _"] Let_def split: if_splits)
qed

lemma trace_wait_for_one: "wait_for_one p qp s = Some (rc, p', s') \<Longrightarrow> trace s' = trace s"
  by (auto simp: wait_for_one_def Let_def bind_eq_Some_conv dest!: trace_wfo_loop split: if_splits)

lemma emits_modify_qp: "emits P s (snd (modify_qp i qp st t))" if "emits P s t"
proof -
  have "emits P s (snd (next_rc t))" using that emits_cong(1) [of "snd (next_rc t)" t] by simp
  then show ?thesis by (auto simp: modify_qp_def Let_def split_def intro: emits_emit)
qed

lemma emits_upd [simp]:
  "emits P s (upd_srv i f t) \<longleftrightarrow> emits P s t" "emits P s (upd_qp i qp g t) \<longleftrightarrow> emits P s t"
  "emits P s (next_ssn t) \<longleftrightarrow> emits P s t" "emits P s (snd (next_rc t)) \<longleftrightarrow> emits P s t"
  "emits P (next_ssn t) s \<longleftrightarrow> emits P t s"
  by (simp_all add: emits_def)

lemma emits_qp_ops:
  assumes "emits P s t"
  shows "emits P s (snd (rc_qp_reset i qp t))" "emits P s (snd (rc_qp_restart i qp t))"
    "emits P s (snd (rc_qp_reset_to_rts i qp t))" "emits P s (dare_ib_disconnect_server i t)"
proof -
  note defs = rc_qp_reset_def rc_qp_reset_to_init_def rc_qp_init_to_rtr_def rc_qp_rtr_to_rts_def
  show "emits P s (snd (rc_qp_reset i qp t))" using assms by (simp add: defs emits_modify_qp)
  show r: "emits P s (snd (rc_qp_restart i qp t))"
    using assms by (simp add: rc_qp_restart_def defs Let_def split_def emits_modify_qp)
  then show "emits P s (snd (rc_qp_reset_to_rts i qp t))"
    by (simp add: rc_qp_reset_to_rts_def Let_def split_def)
  have "emits P s (emit (AhDestroy i) (upd_srv i f t))" for f
    using assms by (intro emits_emit) auto
  then show "emits P s (dare_ib_disconnect_server i t)"
    using assms by (simp add: dare_ib_disconnect_server_def rc_disconnect_server_def defs Let_def split_def emits_modify_qp)
qed

lemma emits_revoke: "emits P s t \<Longrightarrow> emits P s (snd (rc_revoke_log_access t))"
proof -
  have "emits P s t \<Longrightarrow> emits P s (snd (revoke_loop is t))" for "is"
    by (induction "is" arbitrary: t) (simp_all add: Let_def split_def emits_qp_ops)
  then show "emits P s t \<Longrightarrow> ?thesis" by (simp add: rc_revoke_log_access_def)
qed

lemma emits_restore: "emits P s t \<Longrightarrow> emits P s (snd (rc_restore_log_access t))"
proof -
  have "emits P s t \<Longrightarrow> emits P s (snd (restore_loop is t))" for "is"
    by (induction "is" arbitrary: t) (simp_all add: Let_def split_def emits_qp_ops)
  then show "emits P s t \<Longrightarrow> ?thesis" by (simp add: rc_restore_log_access_def Let_def split_def emits_qp_ops)
qed

lemma emits_post_send:
  assumes "post_send i qp oper sg p s = Some (rc, p', s')" "\<And>w. wr_to w = i \<Longrightarrow> wr_op w = oper \<Longrightarrow> P w"
  shows "emits P s s'"
proof -
  let ?b = "if qp_state (rc_qp (srv s i) qp) = RC_QP_BLOCKED
        then map_option (\<lambda>(rc, _, s). (rc, s)) (empty_completion_queue i qp True None s) else Some (0, s)"
  obtain r t where b: "?b = Some (r, t)"
    using assms(1) unfolding post_send_def by (cases ?b) auto
  then have c: "emits P s t"
    using trace_empty_completion_queue by (auto split: if_splits intro: emits_same)
  have r: "emits P s (snd (rc_qp_restart i qp t))" by (rule emits_qp_ops(2) [OF c])
  have e: "emits P s t' \<Longrightarrow> emits P s (emit (Posted \<lparr>wr_to = i, wr_qp = q, wr_id = n, wr_signaled = g, wr_op = oper\<rparr>) t')" for t' q n g
    by (rule emits_emit) (auto intro: assms(2))
  have w: "emits P s (t'\<lparr>wa_flag := f\<rparr>) \<longleftrightarrow> emits P s t'" for f t' by (simp add: emits_def)
  show ?thesis
    using assms(1) c r unfolding post_send_def b
    by (auto simp: Let_def split_def bind_eq_Some_conv w emits_cong(1) [OF trace_empty_completion_queue] intro!: e split: if_splits)
qed

lemma emits_post_all:
  assumes "\<And>w. wr_op w = oper \<Longrightarrow> P w"
  shows "post_all qp sg oper is p s = Some (rc, p', s') \<Longrightarrow> emits P s s'"
proof (induction "is" arbitrary: p s)
  case (Cons i "is")
  have "post_send i qp oper sg q s = Some (r, q', t) \<Longrightarrow> emits P s t" for q r q' t
    using emits_post_send assms by blast
  then show ?case
    using Cons.prems Cons.IH emits_trans by (auto simp: bind_eq_Some_conv split: if_splits) blast+
qed simp

lemma trace_wait_for_majority:
  assumes "wait_for_majority p qp s = Some (rc, p', s')"
  shows "trace s' = trace s"
proof -
  let ?n = "cid_size0 (cid_of s)"
  obtain r k c q t where 1: "wfm_loop (polls s) ?n qp (count_success ?n p, count_posted (get_group_size (cid_of s)) p, p, s) =
      Some (r, k, c, q, t)"
    using assms unfolding wait_for_majority_def Let_def by (auto simp only: bind_eq_Some_conv)
  have t: "trace t = trace s"
    using trace_wfm_loop [OF 1] by simp
  let ?m = "cid_size1 (cid_of t)"
  show ?thesis
  proof (cases "r = RC_ERROR \<or> cid_state (cid_of t) = CID_STABLE")
    case True
    then show ?thesis using assms t unfolding wait_for_majority_def Let_def 1 by (auto split: if_splits)
  next
    case False
    then obtain r' k' c' q' where "wfm_loop (polls t) ?m qp (count_success ?m q, c, q, t) = Some (r', k', c', q', s')"
      using assms unfolding wait_for_majority_def Let_def 1
      by (cases "wfm_loop (polls t) ?m qp (count_success ?m q, c, q, t)") (auto split: if_splits)
    from trace_wfm_loop [OF this] t show ?thesis by simp
  qed
qed

lemma emits_upd_ctrl [simp]: "emits P (s\<lparr>ctrl := c\<rparr>) t \<longleftrightarrow> emits P s t" "emits P s (t\<lparr>ctrl := c\<rparr>) \<longleftrightarrow> emits P s t"
  by (simp_all add: emits_def)

lemma emits_rc_send_hb: "rc_send_hb s = Some (rc, s') \<Longrightarrow> emits (\<lambda>w. wr_op w = WriteHb (sid_of s)) s s'"
  using emits_post_all [of "WriteHb (sid_of s)" "\<lambda>w. wr_op w = WriteHb (sid_of s)" CTRL_QP False _ None "next_ssn s"]
  by (auto simp: rc_send_hb_def bind_eq_Some_conv)

lemma emits_rc_send_hb_reply: "rc_send_hb_reply i s = Some (rc, s') \<Longrightarrow> emits (\<lambda>w. wr_op w = WriteHb (sid_of s)) s s'"
  using emits_post_send [of i CTRL_QP "WriteHb (sid_of s)" False None "next_ssn s" _ _ _ "\<lambda>w. wr_op w = WriteHb (sid_of s)"]
  by (auto simp: rc_send_hb_reply_def Let_def bind_eq_Some_conv split: if_splits)

lemma emits_rc_send_vote_request:
  assumes "rc_send_vote_request s = Some (rc, s')" "last_entry_of (slog s) = Some (index, term)"
  shows "emits (\<lambda>w. wr_op w = WriteVoteReq \<lparr>vr_sid = sid_of s, vr_index = index, vr_term = term, vr_cid = cid_of s\<rparr>) s s'"
proof -
  let ?r = "\<lparr>vr_sid = sid_of s, vr_index = index, vr_term = term, vr_cid = cid_of s\<rparr>"
  let ?t = "next_ssn (s\<lparr>ctrl := (ctrl s)\<lparr>c_vote_req := (c_vote_req (ctrl s))[unat (idx_of s) := ?r]\<rparr>\<rparr>)"
  obtain p where "post_all CTRL_QP False (WriteVoteReq ?r) (group_of s) None ?t = Some (rc, p, s')"
    using assms by (auto simp: rc_send_vote_request_def Let_def bind_eq_Some_conv)
  then have "emits (\<lambda>w. wr_op w = WriteVoteReq ?r) ?t s'"
    by (rule emits_post_all [rotated])
  then show ?thesis by simp
qed

lemma emits_rc_replicate_vote: "rc_replicate_vote s = Some (rc, s') \<Longrightarrow> emits (\<lambda>w. wr_op w = WriteVoteSid (sid_of s)) s s'"
  unfolding rc_replicate_vote_def bind_eq_Some_conv Let_def
  by (fastforce dest!: emits_post_all [where P = "\<lambda>w. wr_op w = WriteVoteSid (sid_of s)", rotated] trace_wait_for_majority
      simp: bind_eq_Some_conv emits_def split: if_splits)

lemma emits_rc_send_vote_ack:
  assumes "rc_send_vote_ack s = Some (rc, s')"
  shows "emits (\<lambda>w. wr_op w = WriteVoteAck (log_commit (slog s)) \<and> wr_to w = SID_GET_IDX (sid_of s)) s s'"
proof (cases "CID_IS_SERVER_ON (cid_of s) (SID_GET_IDX (sid_of s)) \<and> rc_connected (srv s (SID_GET_IDX (sid_of s)))")
  case True
  then obtain r p t where t: "post_send (SID_GET_IDX (sid_of s)) CTRL_QP (WriteVoteAck (log_commit (slog s))) True
      (Some ((replicate MAX_SERVER_COUNT (- 1))[unat (SID_GET_IDX (sid_of s)) := 1])) (next_ssn s) = Some (r, p, t)"
    using assms by (auto simp: rc_send_vote_ack_def Let_def bind_eq_Some_conv)
  have "trace s' = trace t"
    using assms True by (auto simp: rc_send_vote_ack_def Let_def t bind_eq_Some_conv dest: trace_wait_for_one split: if_splits)
  moreover have "emits (\<lambda>w. wr_op w = WriteVoteAck (log_commit (slog s)) \<and> wr_to w = SID_GET_IDX (sid_of s)) (next_ssn s) t"
    by (rule emits_post_send [OF t]) simp
  ultimately show ?thesis by (simp add: emits_def)
next
  case False
  then show ?thesis using assms by (auto simp: rc_send_vote_ack_def Let_def)
qed

end
