(* ===== verification/Dare_Log_Scan.thy ===== *)
theory Dare_Log_Scan
  imports Dare_Log_Proofs
begin

text \<open>
  The order of the positions of a log: how many entries a log can hold, the offset after each
  entry, and that \<open>log_is_offset_larger\<close> compares positions.
\<close>

section \<open>The number of entries\<close>

lemma chain_length:
  "chain m len w off es fin \<Longrightarrow> unat off \<le> unat len \<Longrightarrow>
    48 * length es \<le> (if w then unat len - unat off + unat fin else unat fin - unat off)"
proof (induction es arbitrary: w off)
  case (Cons e es)
  let ?next = "off + ucast (log_entry_len m off)"
  note ge = elen_ge [of m]
  show ?case
  proof (cases "unat off + elen m off \<le> unat len")
    case True
    then have d: "chain m len w ?next es fin" "unat ?next = unat off + elen m off"
      using Cons.prems ge [of off] by (auto simp: unat_next split: if_splits)
    have "w \<or> unat ?next \<le> unat fin" using chain_le [of m len ?next es fin] d True by (cases w) auto
    then show ?thesis using Cons.IH [OF d(1)] d(2) True ge [of off] by (auto split: if_splits)
  next
    case False
    let ?b = "if unat len - unat off < 48 then 0 else off"
    have d: "w" "chain m len False (ucast (log_entry_len m ?b)) es fin" "elen m ?b \<le> unat len"
      using Cons.prems False ge [of off] by (auto split: if_splits)
    then show ?thesis
      using Cons.IH [OF d(2)] chain_le [OF d(2)] ge [of ?b] by simp
  qed
qed simp

lemma log_inv_length: "log_inv log es \<Longrightarrow> length es \<le> scan_fuel log"
proof (cases "is_log_empty log")
  case False
  assume inv: "log_inv log es"
  have "48 * length es \<le> unat (log_len log)"
    using chain_length [OF log_invD(5) [OF inv False]] log_invD(3,4) [OF inv False]
    by (auto simp: wrapped_def split: if_splits)
  then show ?thesis by (simp add: scan_fuel_def sizeof_entry_def)
qed (simp add: log_inv_def)

section \<open>Positions\<close>

definition pos_next :: "memory \<Rightarrow> u64 \<Rightarrow> u64 \<Rightarrow> u64" where
  "pos_next m len e = entry_body m len e + ucast (log_entry_len m e)"

text \<open>The offsets before, between and after the entries \<open>es\<close> met from \<open>off\<close> on.\<close>

fun positions :: "memory \<Rightarrow> u64 \<Rightarrow> u64 \<Rightarrow> u64 list \<Rightarrow> u64 list" where
  "positions m len off [] = [off]"
| "positions m len off (e # es) = off # positions m len (pos_next m len e) es"

definition log_pos :: "dare_log_t \<Rightarrow> u64 list \<Rightarrow> nat \<Rightarrow> u64" where
  "log_pos log es i = positions (log_entries log) (log_len log) (log_head log) es ! i"

definition rem_to :: "u64 \<Rightarrow> u64 \<Rightarrow> bool \<Rightarrow> u64 \<Rightarrow> nat" where
  "rem_to len fin w off = (if w then unat len - unat off + unat fin else unat fin - unat off)"

lemma positions_0 [simp]: "positions m len off es ! 0 = off"
  by (cases es) simp_all

lemma positions_Suc: "i < length es \<Longrightarrow> positions m len off es ! Suc i = pos_next m len (es ! i)"
  by (induction es arbitrary: off i) (auto simp: nth_Cons split: nat.split)

lemma chain_step:
  assumes "chain m len w off (e # es) fin" "unat off \<le> unat len"
  obtains w' where "chain m len w' (pos_next m len e) es fin" "w' \<longrightarrow> w" "unat (pos_next m len e) \<le> unat len"
    "rem_to len fin w' (pos_next m len e) + 48 \<le> rem_to len fin w off"
    "w' = w \<longrightarrow> unat off \<le> unat (pos_next m len e)" "e = (if unat len - unat off < 48 then 0 else off)"
    "unat (entry_body m len e) + elen m e = unat (pos_next m len e)" "entry_body m len e = e \<or> entry_body m len e = 0 \<and> w \<and> \<not> w'"
proof (cases "unat off + elen m off \<le> unat len")
  case True
  have ge: "48 \<le> elen m off" by (rule elen_ge)
  with True have d: "e = off" "chain m len w (off + ucast (log_entry_len m off)) es fin" "unat (off + ucast (log_entry_len m off)) = unat off + elen m off"
    using assms by (auto simp: unat_next split: if_splits)
  have "w \<or> unat off + elen m off \<le> unat fin" using d True by (cases w) (auto dest: chain_le)
  then show ?thesis
    using d True ge assms(2) by (intro that [of w]) (auto simp: pos_next_def entry_body_alt rem_to_def)
next
  case False
  let ?b = "if unat len - unat off < 48 then 0 else off"
  have ge: "48 \<le> elen m ?b" by (rule elen_ge)
  have d: "w" "e = ?b" "chain m len False (ucast (log_entry_len m ?b)) es fin" "elen m ?b \<le> unat len"
    using assms False elen_ge [of m off] by (auto split: if_splits)
  have "entry_body m len e = 0"
    using d(2,4) False assms(2) by (auto simp: entry_body_alt)
  moreover have "elen m ?b \<le> unat fin"
    using chain_le [OF d(3)] d(4) by simp
  ultimately show ?thesis
    using d ge by (intro that [of False]) (auto simp: pos_next_def rem_to_def)
qed

lemma positions_spec:
  "chain m len w off es fin \<Longrightarrow> unat off \<le> unat len \<Longrightarrow> i \<le> length es \<Longrightarrow>
    \<exists>w'. chain m len w' (positions m len off es ! i) (drop i es) fin \<and> (w' \<longrightarrow> w) \<and>
      unat (positions m len off es ! i) \<le> unat len \<and> (w' = w \<longrightarrow> unat off \<le> unat (positions m len off es ! i)) \<and>
      rem_to len fin w' (positions m len off es ! i) + 48 * i \<le> rem_to len fin w off"
proof (induction es arbitrary: w off i)
  case Nil
  then show ?case by (intro exI [of _ w]) simp
next
  case (Cons e es)
  show ?case
  proof (cases i)
    case 0
    with Cons.prems show ?thesis by (intro exI [of _ w]) simp
  next
    case (Suc k)
    obtain v where v: "chain m len v (pos_next m len e) es fin" "v \<longrightarrow> w" "unat (pos_next m len e) \<le> unat len"
        "rem_to len fin v (pos_next m len e) + 48 \<le> rem_to len fin w off" "v = w \<longrightarrow> unat off \<le> unat (pos_next m len e)"
      using chain_step [OF Cons.prems(1,2)] by metis
    from Cons.IH [OF v(1,3), of k] Cons.prems(3) Suc obtain w' where
      "chain m len w' (positions m len (pos_next m len e) es ! k) (drop k es) fin" "w' \<longrightarrow> v"
      "unat (positions m len (pos_next m len e) es ! k) \<le> unat len"
      "w' = v \<longrightarrow> unat (pos_next m len e) \<le> unat (positions m len (pos_next m len e) es ! k)"
      "rem_to len fin w' (positions m len (pos_next m len e) es ! k) + 48 * k \<le> rem_to len fin v (pos_next m len e)"
      by auto
    with v Suc show ?thesis by (intro exI [of _ w']) auto
  qed
qed

lemma distance_rem:
  assumes "0 < unat (log_end log)" "unat (log_end log) < unat (log_len log)" "unat off \<le> unat (log_len log)"
    "w \<longrightarrow> unat (log_end log) < unat off" "\<not> w \<longrightarrow> unat off \<le> unat (log_end log)"
  shows "unat (log_offset_end_distance log off) = rem_to (log_len log) (log_end log) w off"
proof -
  have "log_end log \<noteq> log_len log" using assms by auto
  moreover have "w \<longleftrightarrow> \<not> off \<le> log_end log" using assms(4,5) by (cases w) (auto simp: word_le_nat_alt)
  moreover have "w \<Longrightarrow> unat (log_len log - (off - log_end log)) = unat (log_len log) - (unat off - unat (log_end log))"
    using assms by (simp add: unat_sub word_le_nat_alt)
  ultimately show ?thesis
    using assms by (auto simp: log_offset_end_distance_def rem_to_def unat_sub)
qed

lemma larger_is_distance: "log_is_offset_larger log a b \<longleftrightarrow> log_offset_end_distance log a < log_offset_end_distance log b"
  by (simp add: log_is_offset_larger_def log_offset_end_distance_def Let_def)

lemma log_pos_spec:
  assumes "log_inv log es" "\<not> is_log_empty log" "i \<le> length es"
  obtains w where "chain (log_entries log) (log_len log) w (log_pos log es i) (drop i es) (log_end log)"
    "unat (log_pos log es i) \<le> unat (log_len log)" "w \<longrightarrow> unat (log_end log) < unat (log_pos log es i)"
    "unat (log_offset_end_distance log (log_pos log es i)) = rem_to (log_len log) (log_end log) w (log_pos log es i)"
proof -
  note D = log_invD [OF assms(1,2)]
  obtain w where w: "chain (log_entries log) (log_len log) w (log_pos log es i) (drop i es) (log_end log)" "w \<longrightarrow> wrapped log"
      "unat (log_pos log es i) \<le> unat (log_len log)" "w = wrapped log \<longrightarrow> unat (log_head log) \<le> unat (log_pos log es i)"
    using positions_spec [OF D(5) D(4) assms(3)] unfolding log_pos_def by blast
  have "w \<longrightarrow> unat (log_end log) < unat (log_pos log es i)"
    using w(2,4) by (auto simp: wrapped_def)
  moreover have "\<not> w \<longrightarrow> unat (log_pos log es i) \<le> unat (log_end log)"
    using chain_le [of _ _ "log_pos log es i"] w(1,3) by (cases w) auto
  ultimately show ?thesis
    using that [OF w(1,3)] distance_rem [OF D(2,3) w(3), of w] by blast
qed

lemma log_pos_distance_less:
  assumes "log_inv log es" "\<not> is_log_empty log" "i < j" "j \<le> length es"
  shows "log_offset_end_distance log (log_pos log es j) < log_offset_end_distance log (log_pos log es i)"
proof -
  let ?m = "log_entries log" and ?len = "log_len log"
  obtain w where w: "chain ?m ?len w (log_pos log es i) (drop i es) (log_end log)" "unat (log_pos log es i) \<le> unat ?len"
      "unat (log_offset_end_distance log (log_pos log es i)) = rem_to ?len (log_end log) w (log_pos log es i)"
      "w \<longrightarrow> unat (log_end log) < unat (log_pos log es i)"
    using log_pos_spec [OF assms(1,2), of i] assms(3,4) by auto
  have pj: "log_pos log es j = positions ?m ?len (log_pos log es i) (drop i es) ! (j - i)"
    using assms(3,4) by (cases j) (auto simp: log_pos_def positions_Suc Suc_diff_le)
  obtain w' where w': "chain ?m ?len w' (log_pos log es j) (drop (j - i) (drop i es)) (log_end log)" "w' \<longrightarrow> w"
      "unat (log_pos log es j) \<le> unat ?len" "w' = w \<longrightarrow> unat (log_pos log es i) \<le> unat (log_pos log es j)"
      "rem_to ?len (log_end log) w' (log_pos log es j) + 48 * (j - i) \<le> rem_to ?len (log_end log) w (log_pos log es i)"
    using positions_spec [OF w(1,2), of "j - i"] assms(3,4) unfolding pj by (auto simp: diff_le_mono)
  note D = log_invD(2,3) [OF assms(1,2)]
  have "unat (log_offset_end_distance log (log_pos log es j)) = rem_to ?len (log_end log) w' (log_pos log es j)"
  proof (rule distance_rem [OF D w'(3)])
    show "w' \<longrightarrow> unat (log_end log) < unat (log_pos log es j)" using w'(2,4) w(4) by auto
    show "\<not> w' \<longrightarrow> unat (log_pos log es j) \<le> unat (log_end log)"
      using chain_le [of _ _ "log_pos log es j"] w'(1,3) by (cases w') auto
  qed
  then show ?thesis using w(3) w'(5) assms(3) by (simp add: word_less_nat_alt)
qed

lemma larger_pos_iff:
  assumes "log_inv log es" "\<not> is_log_empty log" "i \<le> length es" "j \<le> length es"
  shows "log_is_offset_larger log (log_pos log es j) (log_pos log es i) \<longleftrightarrow> i < j"
  using log_pos_distance_less [OF assms(1,2), of i j] log_pos_distance_less [OF assms(1,2), of j i] assms(3,4)
  by (cases i j rule: linorder_cases) (auto simp: larger_is_distance)

lemma log_pos_upd [simp]:
  "log_pos (log\<lparr>log_commit := c\<rparr>) es i = log_pos log es i" "log_pos (log\<lparr>log_apply := c\<rparr>) es i = log_pos log es i"
  "log_pos (log\<lparr>log_tail := c\<rparr>) es i = log_pos log es i" "log_pos (log\<lparr>log_nc_buf := b\<rparr>) es i = log_pos log es i"
  by (simp_all add: log_pos_def)

lemma log_pos_0 [simp]: "log_pos log es 0 = log_head log"
  by (simp add: log_pos_def)

lemma log_pos_last:
  assumes "log_inv log es" "\<not> is_log_empty log"
  shows "log_pos log es (length es) = log_end log"
  using log_pos_spec [OF assms, of "length es"] by auto

lemma is_pos_log_pos:
  assumes "log_inv log es" "\<not> is_log_empty log" "i \<le> length es"
  shows "is_pos log es (log_pos log es i)"
proof -
  note D = log_invD [OF assms(1,2)]
  from positions_spec [OF D(5) D(4) assms(3)] show ?thesis
    using assms(3) unfolding is_pos_def log_pos_def by blast
qed

lemma log_inv_set_offsets:
  assumes "log_inv log es" "\<not> is_log_empty log" "i \<le> length es"
  shows "log_inv (log\<lparr>log_commit := log_pos log es i\<rparr>) es" "log_inv (log\<lparr>log_apply := log_pos log es i\<rparr>) es"
  using assms is_pos_log_pos [OF assms]
  by (simp_all add: log_inv_def is_log_empty_def wrapped_def is_pos_def)

lemma log_inv_nc_buf [simp]: "log_inv (log\<lparr>log_nc_buf := b\<rparr>) es \<longleftrightarrow> log_inv log es"
  by (simp add: log_inv_def is_log_empty_def wrapped_def is_pos_def)

lemma log_inv_reset_tail: "log_inv log es \<Longrightarrow> log_inv (log\<lparr>log_tail := log_len log\<rparr>) es"
  by (simp add: log_inv_def is_log_empty_def wrapped_def is_pos_def split: if_splits)

section \<open>A sample log\<close>

text \<open>Two commands of two bytes, at offsets 0 and 50.\<close>

definition sample_cmd :: "u8 \<Rightarrow> log_data" where
  "sample_cmd c = DCmd \<lparr>cmd_len = 2, cmd_cmd = [c, c]\<rparr>"

definition sample_log1 :: dare_log_t where
  "sample_log1 = appended log_new 1 3 0 7 CSM (sample_cmd 65)"

definition sample_log :: dare_log_t where
  "sample_log = appended sample_log1 2 4 0 8 CSM (sample_cmd 66)"

lemma sample_data: "data_len CSM (sample_cmd c) = 50" "data_ok CSM (sample_cmd c)"
  by (simp_all add: data_len_def data_ok_def sample_cmd_def data_cmd_def type_defs)

lemma sample_log1_sel [simp]:
  "log_head sample_log1 = 0" "log_commit sample_log1 = 0" "log_apply sample_log1 = 0" "log_end sample_log1 = 50"
  "log_len sample_log1 = LOG_SIZE" "log_tail sample_log1 = 0"
  by (simp_all add: sample_log1_def sample_data new_body_def is_log_empty_def log_new_def)

lemma log_inv_sample1: "log_inv sample_log1 [0]"
proof -
  have "log_room log_new (data_len CSM (sample_cmd 65))"
    by (simp add: sample_data log_room_def log_new_def is_log_empty_def LOG_SIZE_def)
  from log_inv_appended [OF log_inv_new this sample_data(2)] show ?thesis
    by (simp add: sample_log1_def new_offset_def log_new_def is_log_empty_def)
qed

lemma sample_log_sel [simp]:
  "log_head sample_log = 0" "log_commit sample_log = 0" "log_apply sample_log = 0" "log_end sample_log = 100"
  "log_len sample_log = LOG_SIZE" "log_tail sample_log = 50"
  by (simp_all add: sample_log_def sample_data new_body_def is_log_empty_def LOG_SIZE_def)

lemma log_inv_sample: "log_inv sample_log [0, 50]"
proof -
  have "log_room sample_log1 (data_len CSM (sample_cmd 66))"
    by (simp add: sample_data log_room_def is_log_empty_def LOG_SIZE_def)
  from log_inv_appended [OF log_inv_sample1 this sample_data(2)] show ?thesis
    by (simp add: sample_log_def new_offset_def is_log_empty_def log_fit_entry_header_def sizeof_entry_def LOG_SIZE_def word_le_nat_alt)
qed

lemma sample_not_empty: "\<not> is_log_empty sample_log"
  by (simp add: is_log_empty_def LOG_SIZE_def)

text \<open>Property C17: the circular comparison \<open>log_is_offset_larger\<close> orders the positions of a well-formed
  log by the number of entries before them, also across the end of the buffer.\<close>

theorem log_is_offset_larger_orders:
  assumes "log_inv log es" "\<not> is_log_empty log" "i \<le> length es" "j \<le> length es"
  shows "log_is_offset_larger log (log_pos log es j) (log_pos log es i) \<longleftrightarrow> i < j"
  using assms by (rule larger_pos_iff)

theorem log_is_offset_larger_orders_witness:
  "log_is_offset_larger sample_log (log_pos sample_log [0, 50] 2) (log_pos sample_log [0, 50] 1)"
  using log_is_offset_larger_orders [OF log_inv_sample sample_not_empty, of 1 2] by simp

end
