(* ===== verification/Dare_Election_Proofs.thy ===== *)
theory Dare_Election_Proofs
  imports Dare_Election Dare_Frame Dare_Log_Scan
begin

text \<open>
  Correctness of leader election: what a vote request says, for whom a server votes, what a leader's
  majority is, and that state identifiers only grow.
\<close>

section \<open>The last entry of a log\<close>

definition last_of :: "dare_log_t \<Rightarrow> u64 list \<Rightarrow> u64 \<times> u64" where
  "last_of l es = (if es = [] then (0, 0) else (entry_idx (log_entries l) (last es), entry_term (log_entries l) (last es)))"

lemma log_inv_empty_iff: "log_inv l es \<Longrightarrow> is_log_empty l \<longleftrightarrow> es = []"
  by (auto simp: log_inv_def split: if_splits)

lemma tail_entry:
  assumes inv: "log_inv l es" and ne: "es \<noteq> []"
  obtains t where "log_get_tail (scan_fuel l) l = Some t" "log_get_entry l t = Some t" "t \<noteq> log_len l"
    "(entry_idx (log_entries l) t, entry_term (log_entries l) t) = last_of l es"
proof -
  let ?b = "entry_body (log_entries l) (log_len l) (last es)"
  have e: "\<not> is_log_empty l" using inv ne log_inv_empty_iff by auto
  obtain t where t: "t \<in> {last es, ?b}" "log_get_tail (scan_fuel l) l = Some t"
    using log_get_tail_inv [OF inv e log_inv_length [OF inv]] by blast
  have mem: "last es \<in> set es" using ne by simp
  have hdr: "hdr_eq (log_entries l) (last es) ?b" by (rule log_invD(8) [OF inv e mem])
  have "unat (log_len l) \<noteq> unat t"
    using chain_entry [of "log_entries l" "log_len l" "wrapped l" "log_head l" es "log_end l" "last es"]
      log_invD(3,4,5) [OF inv e] mem t(1) by (auto simp: wrapped_def)
  then have "t \<noteq> log_len l" by auto
  moreover have "log_get_entry l t = Some t" using inv_entry(1,2) [OF inv mem] t(1) by auto
  moreover have "(entry_idx (log_entries l) t, entry_term (log_entries l) t) = last_of l es"
    using t(1) hdr ne by (auto simp: last_of_def hdr_eq_def)
  ultimately show ?thesis using that t(2) by blast
qed

lemma last_entry_of_inv: "log_inv l es \<Longrightarrow> last_entry_of l = Some (last_of l es)"
proof (cases "es = []")
  case True
  moreover assume "log_inv l es"
  ultimately show ?thesis using log_inv_empty_iff by (auto simp: last_entry_of_def last_of_def)
next
  case False
  assume inv: "log_inv l es"
  obtain t where "log_get_tail (scan_fuel l) l = Some t" "log_get_entry l t = Some t"
      "(entry_idx (log_entries l) t, entry_term (log_entries l) t) = last_of l es"
    using tail_entry [OF inv False] by metis
  then show ?thesis
    using False log_inv_empty_iff [OF inv] by (simp add: last_entry_of_def)
qed

lemma nc_buf_inv:
  assumes inv: "log_inv l es"
  obtains i where "log_entries_to_nc_buf (scan_fuel l) l = Some (map (entry_det l) (drop i es))" "i \<le> length es"
proof (cases "is_log_empty l")
  case True
  then have "log_entries_to_nc_buf (scan_fuel l) l = Some (map (entry_det l) (drop 0 es))"
    using inv by (simp add: log_entries_to_nc_buf_def log_scan.simps log_get_entry_def log_inv_def)
  then show ?thesis using that by blast
next
  case False
  then show ?thesis
    using is_pos_scan [OF inv False log_invD(6) [OF inv False] log_inv_length [OF inv]] that
    by (auto simp: log_entries_to_nc_buf_def)
qed

lemma local_last_inv:
  assumes inv: "log_inv l es" and nc: "log_entries_to_nc_buf (scan_fuel l) l = Some nc"
  shows "local_last l nc = Some (last_of l es)"
proof -
  obtain i where i: "nc = map (entry_det l) (drop i es)" "i \<le> length es"
    using nc_buf_inv [OF inv] nc by auto
  show ?thesis
  proof (cases "drop i es = []")
    case False
    then show ?thesis using i by (auto simp: local_last_def last_map entry_det_def last_of_def)
  next
    case True
    show ?thesis
    proof (cases "es = []")
      case True
      then show ?thesis
        using i inv by (auto simp: local_last_def last_of_def log_get_tail_def log_inv_def is_log_empty_def split: if_splits)
    next
      case ne: False
      obtain t where "log_get_tail (scan_fuel l) l = Some t" "log_get_entry l t = Some t" "t \<noteq> log_len l"
          "(entry_idx (log_entries l) t, entry_term (log_entries l) t) = last_of l es"
        using tail_entry [OF inv ne] by metis
      then show ?thesis using True i by (simp add: local_last_def)
    qed
  qed
qed

section \<open>Starting an election\<close>

definition candidate_sid :: "dare_server \<Rightarrow> u64" where
  "candidate_sid s = SID_SET_IDX (SID_UNSET_L (SID_SET_TERM 0 (SID_GET_TERM (sid_of s) + 1))) (idx_of s)"

lemma unat_term_suc: "unat (SID_GET_TERM w) < 2 ^ 55 - 1 \<Longrightarrow> unat (SID_GET_TERM w + 1) = unat (SID_GET_TERM w) + 1"
  by (subst unat_plus_fits) auto

lemma candidate_sid_fields:
  assumes "unat (SID_GET_TERM (sid_of s)) < 2 ^ 55 - 1"
  shows "SID_GET_TERM (candidate_sid s) = SID_GET_TERM (sid_of s) + 1" "\<not> SID_GET_L (candidate_sid s)"
    "SID_GET_IDX (candidate_sid s) = idx_of s" "sid_of s < candidate_sid s"
proof -
  have t: "unat (SID_GET_TERM (sid_of s) + 1) < 2 ^ 55" using unat_term_suc [OF assms] assms by simp
  show f: "SID_GET_TERM (candidate_sid s) = SID_GET_TERM (sid_of s) + 1" "\<not> SID_GET_L (candidate_sid s)"
    "SID_GET_IDX (candidate_sid s) = idx_of s"
    using t by (simp_all add: candidate_sid_def)
  show "sid_of s < candidate_sid s"
    using unat_term_suc [OF assms] sid_less_iff_lex [of "sid_of s" "candidate_sid s"] by (simp add: f word_less_nat_alt)
qed

lemma core_clear_votes:
  fixes g :: "dare_server \<Rightarrow> u64" and f :: "server_t \<Rightarrow> server_t"
  defines "step \<equiv> \<lambda>i s. upd_srv i f (s\<lparr>ctrl := (ctrl s)\<lparr>c_vote_ack := (c_vote_ack (ctrl s))[unat i := g s]\<rparr>\<rparr>)"
  shows "core (fold step is s) = core s" "trace (fold step is s) = trace s"
  by (induction "is" arbitrary: s) (simp_all add: step_def)

text \<open>What \<open>start_election\<close> does to a server that is not shut down by it: the new SID, and the vote
  requests it posts.\<close>

lemma start_election_cases:
  assumes "start_election s = Some s'"
  obtains t where "core t = core (s\<lparr>ctrl := (ctrl s)\<lparr>c_sid := candidate_sid s\<rparr>\<rparr>)" "emits P s t" "s' = halt t"
  | t rc u where "core t = core (s\<lparr>ctrl := (ctrl s)\<lparr>c_sid := candidate_sid s\<rparr>\<rparr>)" "emits P s t"
      "rc_send_vote_request (t\<lparr>hb_event := HbReceive, hb_armed := True\<rparr>) = Some (rc, u)" "s' = (if rc \<noteq> 0 then halt u else u)"
proof -
  let ?s1 = "s\<lparr>ctrl := (ctrl s)\<lparr>c_sid := candidate_sid s\<rparr>\<rparr>"
  let ?r = "rc_revoke_log_access ?s1"
  have r: "core (snd ?r) = core ?s1" "emits P s (snd ?r)"
    by (simp, rule emits_revoke) simp
  note def = assms [unfolded start_election_def candidate_sid_def [symmetric] server_update_sid_def Let_def split_def, simplified]
  show ?thesis
  proof (cases "fst ?r = 0")
    case False
    then show ?thesis using def that(1) [OF r] by simp
  next
    case True
    let ?t = "fold (\<lambda>i s. upd_srv i (\<lambda>v. v\<lparr>next_lr_step := LR_GET_WRITE, send_flag := True\<rparr>)
                (s\<lparr>ctrl := (ctrl s)\<lparr>c_vote_ack := (c_vote_ack (ctrl s))[unat i := log_len (slog s)]\<rparr>\<rparr>)) (group_of (snd ?r)) (snd ?r)"
    have t: "core ?t = core ?s1" "emits P s ?t"
      using r core_clear_votes [where f = "\<lambda>v. v\<lparr>next_lr_step := LR_GET_WRITE, send_flag := True\<rparr>" and g = "\<lambda>s. log_len (slog s)"]
      by (simp_all add: emits_def)
    from def True obtain rc u' where "rc_send_vote_request (?t\<lparr>hb_event := HbReceive, hb_armed := True\<rparr>) = Some (rc, u')"
        "s' = (if rc \<noteq> 0 then halt u' else u')"
      by (auto simp: bind_eq_Some_conv)
    with t show ?thesis by (rule that(2))
  qed
qed

lemma start_election_sid:
  assumes "start_election s = Some s'"
  shows "sid_of s' = candidate_sid s" "idx_of s' = idx_of s" "cid_of s' = cid_of s"
proof -
  have "sid_of s' = candidate_sid s \<and> idx_of s' = idx_of s \<and> cid_of s' = cid_of s"
    using assms
  proof (cases rule: start_election_cases [where P = "\<lambda>_. True"])
    case (1 t)
    then show ?thesis using coreD(1-3) [OF 1(1)] by simp
  next
    case (2 t rc u)
    then show ?thesis using coreD(1-3) [OF 2(1)] coreD(1-3) [OF core_rc_send_vote_request [OF 2(3)]] by simp
  qed
  then show "sid_of s' = candidate_sid s" "idx_of s' = idx_of s" "cid_of s' = cid_of s" by auto
qed

definition own_request :: "dare_server \<Rightarrow> u64 list \<Rightarrow> vote_req_t" where
  "own_request s es = \<lparr>vr_sid = sid_of s, vr_index = fst (last_of (slog s) es), vr_term = snd (last_of (slog s) es), vr_cid = cid_of s\<rparr>"

lemma core_log_inv:
  assumes "core s' = core s"
  shows "log_inv (slog s') es \<longleftrightarrow> log_inv (slog s) es" "last_of (slog s') es = last_of (slog s) es"
    "scan_fuel (slog s') = scan_fuel (slog s)"
  using coreD(6-12) [OF assms]
  by (simp_all add: log_inv_def is_log_empty_def wrapped_def is_pos_def last_of_def scan_fuel_def)

lemma start_election_emits:
  assumes "start_election s = Some s'" "log_inv (slog s) es"
  shows "emits (\<lambda>w. wr_op w = WriteVoteReq \<lparr>vr_sid = candidate_sid s, vr_index = fst (last_of (slog s) es),
      vr_term = snd (last_of (slog s) es), vr_cid = cid_of s\<rparr>) s s'"
    (is "emits ?P s s'")
  using assms(1)
proof (cases rule: start_election_cases [where P = ?P])
  case (1 t)
  then show ?thesis by (simp add: emits_def)
next
  case (2 t rc u)
  let ?t = "t\<lparr>hb_event := HbReceive, hb_armed := True\<rparr>"
  have l: "log_inv (slog ?t) es" "last_of (slog ?t) es = last_of (slog s) es"
    using core_log_inv [OF 2(1)] assms(2) by simp_all
  have "emits ?P ?t u"
    using emits_rc_send_vote_request [OF 2(3), of "fst (last_of (slog s) es)" "snd (last_of (slog s) es)"]
      last_entry_of_inv [OF l(1)] l(2) coreD(1,2) [OF 2(1)] by simp
  then have "emits ?P s u" using 2(2) emits_trans [of ?P s t u] by (simp add: emits_def)
  then show ?thesis using 2(4) by (simp add: emits_def)
qed

section \<open>Voting\<close>

abbreviation reqs :: "dare_server \<Rightarrow> vote_req_t list" where
  "reqs s \<equiv> c_vote_req (ctrl s)"

lemma upd_req_sel [simp]:
  "core (upd_req i f s) = core s" "trace (upd_req i f s) = trace s" "config (upd_req i f s) = config s" "slog (upd_req i f s) = slog s"
  "sid_of (upd_req i f s) = sid_of s" "c_vote_ack (ctrl (upd_req i f s)) = c_vote_ack (ctrl s)"
  "halted (upd_req i f s) = halted s"
  by (simp_all add: upd_req_def)

lemma reqs_upd_req: "reqs (upd_req i f s) ! k = reqs s ! k \<or> reqs (upd_req i f s) ! k = f (reqs s ! k)"
  by (cases "unat i < length (reqs s)") (auto simp: upd_req_def nth_list_update list_update_beyond)

lemma upd_req_other: "k \<noteq> unat i \<Longrightarrow> reqs (upd_req i f s) ! k = reqs s ! k"
  by (simp add: upd_req_def)

text \<open>A vote request as it was, or withdrawn.\<close>

definition maybe_dropped :: "vote_req_t \<Rightarrow> vote_req_t \<Rightarrow> bool" where
  "maybe_dropped r r' = (r' = r \<or> r' = r\<lparr>vr_sid := 0\<rparr>)"

lemma maybe_dropped_refl [simp]: "maybe_dropped r r"
  by (simp add: maybe_dropped_def)

lemma maybe_dropped_trans: "maybe_dropped r r' \<Longrightarrow> maybe_dropped r' r'' \<Longrightarrow> maybe_dropped r r''"
  by (auto simp: maybe_dropped_def)

lemma maybe_dropped_upd: "maybe_dropped (reqs s ! k) (reqs (upd_req i (\<lambda>r. r\<lparr>vr_sid := 0\<rparr>) s) ! k)"
  using reqs_upd_req [of i "\<lambda>r. r\<lparr>vr_sid := 0\<rparr>" s k] by (auto simp: maybe_dropped_def)

lemma best_sid_fold:
  assumes "fold best_sid_step is (b, s) = (b', s')"
  shows "b \<le> b'" "core s' = core s" "trace s' = trace s" "maybe_dropped (reqs s ! k) (reqs s' ! k)"
    "c_vote_ack (ctrl s') = c_vote_ack (ctrl s)" "config s' = config s" "slog s' = slog s"
proof -
  have "b \<le> b' \<and> core s' = core s \<and> trace s' = trace s \<and> maybe_dropped (reqs s ! k) (reqs s' ! k) \<and>
    c_vote_ack (ctrl s') = c_vote_ack (ctrl s) \<and> config s' = config s \<and> slog s' = slog s"
    using assms
  proof (induction "is" arbitrary: b s)
    case (Cons i "is")
    obtain b1 s1 where 1: "best_sid_step i (b, s) = (b1, s1)" by fastforce
    from 1 have "b \<le> b1 \<and> core s1 = core s \<and> trace s1 = trace s \<and> maybe_dropped (reqs s ! k) (reqs s1 ! k) \<and>
        c_vote_ack (ctrl s1) = c_vote_ack (ctrl s) \<and> config s1 = config s \<and> slog s1 = slog s"
      using maybe_dropped_upd [of s k i] by (auto simp: best_sid_step_def Let_def split: if_splits)
    with Cons.IH [of b1 s1] Cons.prems 1 show ?case
      by (auto intro: maybe_dropped_trans)
  qed simp
  then show "b \<le> b'" "core s' = core s" "trace s' = trace s" "maybe_dropped (reqs s ! k) (reqs s' ! k)"
    "c_vote_ack (ctrl s') = c_vote_ack (ctrl s)" "config s' = config s" "slog s' = slog s" by auto
qed

text \<open>Two log ends compared as in the up-to-date test.\<close>

definition up_to_date :: "u64 \<times> u64 \<Rightarrow> vote_req_t \<Rightarrow> bool" where
  "up_to_date le r = (snd le < vr_term r \<or> snd le = vr_term r \<and> fst le \<le> vr_index r)"

lemma up_to_date_trans:
  "up_to_date le r \<Longrightarrow> up_to_date (vr_index r, vr_term r) r' \<Longrightarrow> up_to_date le r'"
  by (auto simp: up_to_date_def)

lemma best_request_fold:
  assumes "fold best_request_step is (h, b, s) = (h', b', s')" "up_to_date le b" "\<And>i. maybe_dropped (R ! i) (reqs s ! i)"
    "b = b0 \<or> (\<exists>i\<in>set js. maybe_dropped (R ! unat i) b)" "vr_sid b0 \<le> vr_sid b"
  shows "core s' = core s \<and> trace s' = trace s \<and> c_vote_ack (ctrl s') = c_vote_ack (ctrl s) \<and> h \<le> h' \<and>
    up_to_date le b' \<and> vr_sid b0 \<le> vr_sid b' \<and> (b' = b0 \<or> (\<exists>i\<in>set (js @ is). maybe_dropped (R ! unat i) b'))"
  using assms
proof (induction "is" arbitrary: h b s js)
  case (Cons i "is")
  obtain h1 b1 s1 where 1: "best_request_step i (h, b, s) = (h1, b1, s1)" by (metis prod_cases3)
  have s1: "s1 = upd_req i (\<lambda>r. r\<lparr>vr_sid := 0\<rparr>) s" "h \<le> h1"
    using 1 by (auto simp: best_request_step_def Let_def split: if_splits)
  have b1: "b1 = b \<or> b1 = reqs s ! unat i \<and> vr_sid b \<le> vr_sid b1 \<and> up_to_date (vr_index b, vr_term b) b1"
    using 1 by (auto simp: best_request_step_def Let_def up_to_date_def split: if_splits)
  have d: "maybe_dropped (R ! j) (reqs s1 ! j)" for j
    using Cons.prems(3) [of j] maybe_dropped_upd [of s j i] maybe_dropped_trans s1(1) by blast
  have "up_to_date le b1" using b1 Cons.prems(2) up_to_date_trans by blast
  moreover have "b1 = b0 \<or> (\<exists>j\<in>set (js @ [i]). maybe_dropped (R ! unat j) b1)"
    using b1 Cons.prems(3) [of "unat i"] Cons.prems(4) by auto
  moreover have "vr_sid b0 \<le> vr_sid b1" using b1 Cons.prems(5) by auto
  ultimately show ?case
    using Cons.IH [of h1 b1 s1 "js @ [i]"] Cons.prems(1) 1 d s1 by auto
qed auto

lemma core_upd_timers [simp]:
  "sid_of (stop_leading s) = sid_of s" "config (stop_leading s) = config s" "slog (stop_leading s) = slog s"
  "trace (stop_leading s) = trace s" "halted (stop_leading s) = halted s" "ctrl (stop_leading s) = ctrl s"
  by (simp_all add: stop_leading_def Let_def)

lemma slog_next_rc [simp]: "slog (snd (next_rc s)) = slog s"
  by (simp add: next_rc_def split: list.split)

lemma slog_modify_qp [simp]: "slog (snd (modify_qp i qp st s)) = slog s"
  by (simp add: modify_qp_def Let_def split_def)

lemma slog_disconnect: "slog (dare_ib_disconnect_server i s) = slog s"
  unfolding dare_ib_disconnect_server_def rc_disconnect_server_def rc_qp_reset_def Let_def split_def
  by simp

lemma update_cid_loop_frame:
  "sid_of (update_cid_loop cid is s) = sid_of s \<and> slog (update_cid_loop cid is s) = slog s \<and>
   idx_of (update_cid_loop cid is s) = idx_of s \<and> emits P s (update_cid_loop cid is s)"
proof (induction "is" arbitrary: s)
  case (Cons i "is")
  have e: "emits P s (dare_ib_disconnect_server i s)" by (rule emits_qp_ops(4)) simp
  have l: "slog (dare_ib_disconnect_server i s) = slog s" by (rule slog_disconnect)
  note I = Cons.IH [of "dare_ib_disconnect_server i s"]
  have "emits P s (update_cid_loop cid is (dare_ib_disconnect_server i s))"
    using emits_trans [OF e] I by blast
  then show ?case
    using Cons.IH [of s] I coreD(1,3) [OF core_disconnect(2) [of i s]] l by simp
qed simp

lemma update_cid_frame:
  "sid_of (snd (update_cid cid s)) = sid_of s" "slog (snd (update_cid cid s)) = slog s"
  "idx_of (snd (update_cid cid s)) = idx_of s" "emits P s (snd (update_cid cid s))"
  using update_cid_loop_frame [of cid _ s P]
  by (simp_all add: update_cid_def Let_def set_cid_def emits_def)

lemma ack_and_wait_emits:
  assumes "ack_and_wait s = Some s'" "log_inv (slog s) es"
  shows "emits (\<lambda>w. wr_op w = WriteVoteAck (log_commit (slog s)) \<and> wr_to w = SID_GET_IDX (sid_of s) \<or>
      (\<exists>r. wr_op w = WriteVoteReq r \<and> vr_sid r = candidate_sid s)) s s'" (is "emits ?P s s'")
    "sid_of s' = sid_of s \<or> sid_of s' = candidate_sid s" "idx_of s' = idx_of s"
proof -
  obtain rc t where t: "rc_send_vote_ack s = Some (rc, t)"
    using assms(1) by (auto simp: ack_and_wait_def bind_eq_Some_conv)
  note c = core_rc_send_vote_ack [OF t]
  have e: "emits ?P s t" by (rule emits_mono [OF emits_rc_send_vote_ack [OF t]]) simp
  have cs: "candidate_sid t = candidate_sid s" using coreD(1,3) [OF c] by (simp add: candidate_sid_def)
  show "emits ?P s s'"
  proof (cases "rc < 0")
    case True
    then have s': "start_election t = Some s'" using assms(1) t by (simp add: ack_and_wait_def)
    have "emits ?P t s'"
      by (rule emits_mono [OF start_election_emits [OF s']]) (use assms(2) core_log_inv(1) [OF c] cs in auto)
    with e show ?thesis by (rule emits_trans)
  next
    case False
    then show ?thesis using assms(1) t e by (auto simp: ack_and_wait_def emits_def split: if_splits)
  qed
  show "sid_of s' = sid_of s \<or> sid_of s' = candidate_sid s" "idx_of s' = idx_of s"
    using assms(1) t coreD(1,3) [OF c] cs start_election_sid by (auto simp: ack_and_wait_def split: if_splits)
qed

lemma vote_for_emits:
  assumes "vote_for r s = Some s'" "log_inv (slog s) es"
  shows "emits (\<lambda>w. wr_op w = WriteVoteSid (vr_sid r) \<or>
      wr_op w = WriteVoteAck (log_commit (slog s)) \<and> wr_to w = SID_GET_IDX (vr_sid r) \<or>
      (\<exists>q. wr_op w = WriteVoteReq q)) s s'" (is "emits ?P s s'")
    "SID_GET_TERM (sid_of s') = SID_GET_TERM (vr_sid r) \<or> sid_of s' = candidate_sid (s\<lparr>ctrl := (ctrl s)\<lparr>c_sid := vr_sid r\<rparr>\<rparr>)"
    "idx_of s' = idx_of s"
proof -
  let ?s1 = "server_update_sid (vr_sid r) (sid_of s) (s\<lparr>hb_armed := False\<rparr>)"
  define u where "u = snd (update_cid (vr_cid r) ?s1)"
  have s1: "sid_of ?s1 = vr_sid r" "slog ?s1 = slog s" "idx_of ?s1 = idx_of s" "trace ?s1 = trace s"
    by (simp_all add: server_update_sid_def)
  have u: "sid_of u = vr_sid r" "slog u = slog s" "idx_of u = idx_of s" "emits ?P s u"
    unfolding u_def using s1 update_cid_frame(1-3) [of "vr_cid r" ?s1] update_cid_frame(4) [where P = ?P and cid = "vr_cid r" and s = ?s1]
    by (simp_all add: emits_def)
  have "emits ?P s s' \<and> (sid_of s' = vr_sid r \<or> sid_of s' = candidate_sid (s\<lparr>ctrl := (ctrl s)\<lparr>c_sid := vr_sid r\<rparr>\<rparr>)) \<and> idx_of s' = idx_of s"
  proof (cases "halted u")
    case True
    then show ?thesis using assms(1) u by (simp add: vote_for_def Let_def u_def)
  next
    case False
    then obtain rc t where t: "rc_replicate_vote u = Some (rc, t)"
      using assms(1) by (auto simp: vote_for_def Let_def bind_eq_Some_conv u_def)
    note c = core_rc_replicate_vote [OF t]
    have "emits ?P u t" by (rule emits_mono [OF emits_rc_replicate_vote [OF t]]) (simp add: u)
    with u(4) have et: "emits ?P s t" by (rule emits_trans)
    define v where "v = snd (rc_restore_log_access (stop_leading t))"
    have "emits ?P s (stop_leading t)" using et by (simp add: emits_def)
    then have ev: "emits ?P s v" unfolding v_def by (rule emits_restore)
    have cv: "core v = core (stop_leading t)" by (simp add: v_def)
    have vv: "sid_of v = vr_sid r" "idx_of v = idx_of s" "log_commit (slog v) = log_commit (slog s)" "log_inv (slog v) es"
      using coreD(1,3,9) [OF cv] coreD(1,3,9) [OF c] u core_log_inv(1) [OF cv] core_log_inv(1) [OF c] assms(2) by simp_all
    have cs: "candidate_sid v = candidate_sid (s\<lparr>ctrl := (ctrl s)\<lparr>c_sid := vr_sid r\<rparr>\<rparr>)"
      using vv by (simp add: candidate_sid_def)
    have "(if rc \<noteq> 0 then Some (halt t) else if fst (rc_restore_log_access (stop_leading t)) \<noteq> 0 then Some (halt v)
        else ack_and_wait v) = Some s'"
      using assms(1) t False unfolding vote_for_def Let_def u_def [symmetric]
      by (cases "rc_restore_log_access (stop_leading t)") (simp add: v_def split: if_splits)
    then have "s' = halt t \<or> s' = halt v \<or> ack_and_wait v = Some s'" by (simp split: if_split_asm)
    then consider "s' = halt t" | "s' = halt v" | "ack_and_wait v = Some s'" by blast
    then show ?thesis
    proof cases
      case 1
      then show ?thesis using et coreD(1,3) [OF c] u by (simp add: emits_def)
    next
      case 2
      then show ?thesis using ev vv by (simp add: emits_def)
    next
      case 3
      have "emits ?P v s'" by (rule emits_mono [OF ack_and_wait_emits(1) [OF 3 vv(4)]]) (auto simp: vv)
      with ev have "emits ?P s s'" by (rule emits_trans)
      then show ?thesis using ack_and_wait_emits(2,3) [OF 3 vv(4)] vv cs by auto
    qed
  qed
  then show "emits ?P s s'" "idx_of s' = idx_of s"
    "SID_GET_TERM (sid_of s') = SID_GET_TERM (vr_sid r) \<or> sid_of s' = candidate_sid (s\<lparr>ctrl := (ctrl s)\<lparr>c_sid := vr_sid r\<rparr>\<rparr>)"
    by auto
qed

lemma SID_SET_L_ge: "w \<le> SID_SET_L w"
  using sid_le_iff_lex [of w "SID_SET_L w"] by simp

lemma SID_SET_L_pos: "0 < SID_SET_L w"
proof -
  have "SID_SET_L w \<noteq> 0"
  proof
    assume z: "SID_SET_L w = 0"
    have "SID_GET_L (SID_SET_L w)" by simp
    then show False unfolding z by (simp add: SID_GET_L_def)
  qed
  then show ?thesis by (simp add: word_gt_0)
qed

lemma ctrl_modify_qp [simp]: "ctrl (snd (modify_qp i qp st s)) = ctrl s"
  by (simp add: modify_qp_def next_rc_def Let_def split_def split: list.split)

lemma revoke_ctrl: "ctrl (snd (rc_revoke_log_access s)) = ctrl s"
proof -
  have "ctrl (snd (revoke_loop is s)) = ctrl s" for "is"
    by (induction "is" arbitrary: s) (simp_all add: rc_qp_reset_def Let_def split_def)
  then show ?thesis by (simp add: rc_revoke_log_access_def)
qed

text \<open>The possible outcomes of \<open>poll_vote_requests\<close>.\<close>

lemma poll_vote_requests_cases:
  assumes pvr: "poll_vote_requests s = Some s'" and inv: "log_inv (slog s) es"
  obtains (stay) "sid_of s' = sid_of s" "idx_of s' = idx_of s" "emits (\<lambda>_. False) s s'"
  | (follow) hb where "hb = c_hb (ctrl s) ! unat (SID_GET_IDX (sid_of s))" "\<not> SID_GET_L (sid_of s)"
      "s' = s\<lparr>ctrl := (ctrl s)\<lparr>c_sid := hb\<rparr>\<rparr>" "SID_GET_TERM hb = SID_GET_TERM (sid_of s)"
  | (raise) h best where "SID_SET_L (sid_of s) < best" "SID_GET_TERM best \<le> h" "\<not> SID_GET_L (sid_of s)"
      "sid_of s' = SID_SET_IDX (SID_SET_TERM (sid_of s) h) (idx_of s)" "idx_of s' = idx_of s"
      "c_vote_ack (ctrl s') = c_vote_ack (ctrl s)" "emits (\<lambda>_. False) s s'"
  | (vote) i r t where "i < get_group_size (cid_of s)" "r = reqs s ! unat i" "SID_SET_L (sid_of s) < vr_sid r" "\<not> SID_GET_L (sid_of s)"
      "up_to_date (last_of (slog s) es) r" "vote_for r t = Some s'" "core t = core s" "emits (\<lambda>_. False) s t"
proof -
  let ?hb = "c_hb (ctrl s) ! unat (SID_GET_IDX (sid_of s))"
  define old where "old = SID_SET_L (sid_of s)"
  obtain best s1 where f1: "fold best_sid_step (group_of s) (old, s) = (best, s1)" by fastforce
  note B = best_sid_fold [OF f1]
  obtain rc s2 where rv: "rc_revoke_log_access s1 = (rc, s2)" by fastforce
  have c2: "core s2 = core s" using core_log_access(1) [of s1] B(2) rv by simp
  have e1: "emits (\<lambda>_. False) s s1" using B(3) by (rule emits_same)
  have e2: "emits (\<lambda>_. False) s s2" using emits_revoke [OF e1] rv by simp
  note def = pvr [unfolded poll_vote_requests_def Let_def old_def [symmetric]]
  have slot: "\<not> \<not> leader_slot s" if "\<not> SID_GET_L (sid_of s)"
    by (rule notI) (use def that in simp)
  consider "SID_GET_L (sid_of s)" | "\<not> SID_GET_L (sid_of s)" "?hb \<noteq> 0 \<and> SID_GET_TERM ?hb = SID_GET_TERM (sid_of s)"
    | "\<not> SID_GET_L (sid_of s)" "\<not> (?hb \<noteq> 0 \<and> SID_GET_TERM ?hb = SID_GET_TERM (sid_of s))" by blast
  then show ?thesis
  proof cases
    case 1
    then show ?thesis using def by (intro stay) simp_all
  next
    case 2
    then show ?thesis using def slot by (intro follow [OF refl]) (simp_all add: server_update_sid_def)
  next
    case 3
    have fits: "\<not> \<not> fits_arrays s"
      by (rule notI) (use def 3 slot in simp)
    note def3 = def [unfolded if_not_P [OF 3(1)] if_not_P [OF slot [OF 3(1)]] if_not_P [OF 3(2)] if_not_P [OF fits] f1 rv split_conv]
    consider (none) "best = old" | (fail) "best \<noteq> old" "rc \<noteq> 0" | (go) "best \<noteq> old" "rc = 0" by blast
    then show ?thesis
    proof cases
      case none
      then show ?thesis using def3 e1 coreD(1,3) [OF B(2)] by (intro stay) simp_all
    next
      case fail
      then have "s' = halt s2" using def3 by simp
      then show ?thesis using e2 coreD(1,3) [OF c2] by (intro stay) (simp_all add: emits_def)
    next
      case go
      obtain nc where nc: "log_entries_to_nc_buf (scan_fuel (slog s2)) (slog s2) = Some nc"
        using nc_buf_inv [of "slog s2" es] core_log_inv(1) [OF c2] inv by blast
      have ll: "local_last (slog s2) nc = Some (last_of (slog s) es)"
        using local_last_inv [OF _ nc] core_log_inv [OF c2] inv by simp
      define t where "t = set_own_nc nc s2"
      have ct: "core t = core s" and et: "emits (\<lambda>_. False) s t"
        using c2 e2 by (simp_all add: t_def set_own_nc_def emits_def)
      have idt: "cid_of t = cid_of s" "idx_of t = idx_of s" "sid_of t = sid_of s" using coreD(1-3) [OF ct] by auto
      have at: "c_vote_ack (ctrl t) = c_vote_ack (ctrl s)" and rt: "maybe_dropped (reqs s ! k) (reqs t ! k)" for k
        using B(4) [of k] B(5) revoke_ctrl [of s1] rv by (simp_all add: t_def set_own_nc_def)
      define start where "start = \<lparr>vr_sid = old, vr_index = fst (last_of (slog s) es), vr_term = snd (last_of (slog s) es), vr_cid = cid_of t\<rparr>"
      obtain h b s3 where f2: "fold best_request_step (group_of t) (SID_GET_TERM best, start, t) = (h, b, s3)"
        by (metis prod_cases3)
      have "up_to_date (last_of (slog s) es) start" by (simp add: up_to_date_def start_def)
      from best_request_fold [OF f2 this rt, of start "[]"]
      have F: "core s3 = core t" "trace s3 = trace t" "c_vote_ack (ctrl s3) = c_vote_ack (ctrl s)" "SID_GET_TERM best \<le> h"
          "up_to_date (last_of (slog s) es) b" "old \<le> vr_sid b"
          "b = start \<or> (\<exists>i<get_group_size (cid_of s). maybe_dropped (reqs s ! unat i) b)"
        using idt at by (auto simp: start_def)
      have c3: "core s3 = core s" and e3: "emits (\<lambda>_. False) s s3" using F(1,2) ct et by (simp_all add: emits_def)
      have res: "(if vr_sid b = old then Some (server_update_sid (SID_SET_IDX (SID_SET_TERM (sid_of s3) h) (idx_of s3)) (sid_of s3) s3)
          else vote_for b s3) = Some s'"
        using f2 [unfolded start_def t_def] nc ll go def3 by (simp add: split_def split: if_split_asm)
      show ?thesis
      proof (cases "vr_sid b = old")
        case True
        have "old < best" using go B(1) by auto
        moreover have "s' = s3\<lparr>ctrl := (ctrl s3)\<lparr>c_sid := SID_SET_IDX (SID_SET_TERM (sid_of s) h) (idx_of s)\<rparr>\<rparr>"
          using res True coreD(1,3) [OF c3] by (simp add: server_update_sid_def)
        ultimately show ?thesis
          using F(3,4) e3 3(1) coreD(1,3) [OF c3] by (intro raise [of best h]) (simp_all add: old_def emits_def)
      next
        case False
        then have lt: "old < vr_sid b" using F(6) by auto
        moreover have "0 < vr_sid b" using lt SID_SET_L_pos [of "sid_of s"] by (auto simp: old_def)
        moreover have "b \<noteq> start" using False by (auto simp: start_def)
        ultimately obtain i where "i < get_group_size (cid_of s)" "b = reqs s ! unat i"
          using F(7) by (auto simp: maybe_dropped_def)
        then show ?thesis
          using lt res False F(5) c3 e3 3(1) by (intro vote [of i b s3]) (simp_all add: old_def)
      qed
    qed
  qed
qed

end
