(* ===== verification/Dare_Samples.thy ===== *)
theory Dare_Samples
  imports Dare_Election
begin

text \<open>
  Concrete servers, and the equations that evaluate the operations on them.
\<close>

section \<open>Evaluation\<close>

lemma upto8_3 [eval_simps]: "upto8 3 = [0, 1, 2]"
  by (simp add: upto8_def upt_rec)

lemma replicate_servers [eval_simps]: "replicate MAX_SERVER_COUNT x = [x, x, x, x, x, x, x, x, x, x, x, x, x]"
  by (simp add: MAX_SERVER_COUNT_def numeral_eq_Suc)

lemmas id_evals [eval_simps] = SID_GET_IDX_def SID_SET_L_def SID_GET_L_def SID_GET_TERM_def SID_SET_IDX_def SID_SET_TERM_def
  SID_UNSET_L_def WRID_GET_CONN_def WRID_GET_SSN_def WRID_SET_SSN_def WRID_SET_CONN_def WRID_GET_TAG_def WRID_SET_TAG_def
  WRID_UNSET_TAG_def WRID_SET_WA_def WRID_UNSET_WA_def WRID_GET_WA_def CID_IS_SERVER_ON_def CID_SERVER_RM_def get_group_size_def
  get_extended_group_size_def equal_cid_def CID_STABLE_def CID_TRANSIT_def CID_EXTENDED_def

lemmas state_evals [eval_simps] = new_server_def server_init_def zero_cid_def zero_det_def ctrl_init_def log_new_def
  create_kvs_sm_def srv_def upd_srv_def emit_def halt_def set_cid_def set_owner_def server_update_sid_def next_rc_def
  IS_NONE_def IS_LEADER_def IS_CANDIDATE_def IS_FOLLOWER_def fits_arrays_def leader_slot_def MAX_SERVER_COUNT_def
  RC_QP_ACTIVE_def RC_QP_BLOCKED_def RC_QP_ERROR_def PERMANENT_FAILURE_def LR_GET_WRITE_def LR_GET_NCE_LEN_def LR_GET_NCE_def
  LR_SET_END_def LR_UPDATE_LOG_def LR_UPDATE_END_def

lemmas rc_evals [eval_simps] = upd_qp_def modify_qp_def rc_qp_reset_def rc_qp_reset_to_init_def rc_qp_init_to_rtr_def
  rc_qp_rtr_to_rts_def rc_qp_restart_def rc_qp_reset_to_rts_def rc_disconnect_server_def dare_ib_disconnect_server_def
  rc_revoke_log_access_def rc_restore_log_access_def handle_work_completion_def lr_advance_def handle_lr_work_completion_def
  note_read_ssn_def check_signaled_def fail_send_def upd_posted_def ecq_wc_def empty_completion_queue_def make_wr_id_def
  guard_send_queue_def post_send_def wfm_wc_def wfm_loop.simps count_success_def count_posted_def majority_result_def
  wait_for_majority_def wfo_wc_def wfo_loop.simps wait_for_one_def

lemmas ops_evals [eval_simps] = next_ssn_def no_sends_def rc_send_hb_def rc_send_hb_reply_def rc_send_vote_request_def
  rc_replicate_vote_def rc_send_vote_ack_def read_remote_sids_def last_entry_of_def is_log_empty_def better_sid_def
  start_election_def stop_leading_def ack_and_wait_def set_own_nc_def server_to_follower_def rc_verify_leadership_def

lemmas election_evals [eval_simps] = poll_vote_requests_def best_sid_step_def best_request_step_def upd_req_def vote_for_def
  update_cid_def local_last_def log_get_tail_def log_entries_to_nc_buf_def log_scan.simps log_get_entry_def scan_fuel_def
  fetch_hb_def take_hb_def hb_receive_cb_def hb_send_cb_def count_vote_def count_votes_def won_election_def upd_offsets_def
  advance_commit_def set_commit_def log_is_offset_larger_def log_offset_end_distance_def

lemmas leader_evals [eval_simps] = poll_vote_count_def poll_config_entries_def poll_config_loop.simps poll_config_entry_def
  scan_fuel2_def apply_committed_entries_def apply_loop.simps leader_blank_entry_def append_entry_def log_append_entry_def
  log_put_entry_def log_new_idx_def log_add_new_entry_def log_finish_entry_def log_fit_entry_header_def log_fit_entry_def
  is_log_full_def last_or_def log_next_def entry_det_def become_leader_def

lemmas mem_evals [eval_simps] = entry_idx_def entry_term_def entry_type_def entry_cmd_len_def log_entry_len_def load64_def
  load32_def load16_def load8_def mem_read_def sizeof_entry_def NOOP_def CONFIG_def HEAD_def CSM_def

section \<open>A sample server\<close>

text \<open>Server 0 of a group of three with an empty log of 480 bytes; only server 1 is connected.\<close>

definition small_log :: dare_log_t where
  "small_log = log_new\<lparr>log_len := 480, log_end := 480, log_tail := 480\<rparr>"

definition sample_cid :: dare_cid_t where
  "sample_cid = \<lparr>cid_epoch = 0, cid_size0 = 3, cid_size1 = 0, cid_state = CID_STABLE, cid_bitmask = 7\<rparr>"

definition sample_dev :: ib_device_t where
  "sample_dev = \<lparr>dev_lid = 1, dev_slid = 1, dev_gid = [], dev_mtu = 5, lcl_mr = (\<lambda>_. \<lparr>rm_raddr = 4096, rm_rkey = 1\<rparr>),
     prereg_mr = \<lparr>rm_raddr = 8192, rm_rkey = 2\<rparr>\<rparr>"

definition sample_server :: dare_server where
  "sample_server =
    (let s = new_server sample_dev 1000 in
     s\<lparr>config := (config s)\<lparr>cfg_cid := sample_cid,
         cfg_servers := (cfg_servers (config s))[1 := server_init\<lparr>rc_connected := True\<rparr>]\<rparr>,
       ctrl := (ctrl s)\<lparr>c_sid := 512\<rparr>, slog := small_log, sm := create_kvs_sm 1\<rparr>)"

lemmas sample_simps = sample_server_def sample_cid_def sample_dev_def small_log_def

text \<open>The same server with a vote request of server 1 for term 2, and the completions of the
  replicated vote and of the acknowledgement.\<close>

definition voting_server :: dare_server where
  "voting_server = sample_server\<lparr>ctrl := (ctrl sample_server)\<lparr>c_vote_req := (c_vote_req ctrl_init)
       [1 := \<lparr>vr_sid = 1025, vr_index = 3, vr_term = 1, vr_cid = sample_cid\<rparr>]\<rparr>,
     polls := [Poll [] [], Poll [] [\<lparr>wc_wr_id = 1025, wc_status = IBV_WC_SUCCESS\<rparr>],
       Poll [] [], Poll [] [\<lparr>wc_wr_id = 2049, wc_status = IBV_WC_SUCCESS\<rparr>]]\<rparr>"

definition vote_ack_event :: event where
  "vote_ack_event = Posted \<lparr>wr_to = 1, wr_qp = CTRL_QP, wr_id = 2049, wr_signaled = True, wr_op = WriteVoteAck 0\<rparr>"

text \<open>A candidate of term 2 with the acknowledgement of server 1; and one whose log holds an entry of
  term 1 and who finds the vote request of server 2, with an empty log, for term 3.\<close>

definition winning_server :: dare_server where
  "winning_server = sample_server\<lparr>ctrl := (ctrl sample_server)\<lparr>c_sid := 1024,
       c_vote_ack := [480, 0, 480, 480, 480, 480, 480, 480, 480, 480, 480, 480, 480]\<rparr>\<rparr>"

definition raised_server :: dare_server where
  "raised_server = winning_server\<lparr>ctrl := (ctrl winning_server)\<lparr>
       c_vote_req := (c_vote_req ctrl_init)[2 := \<lparr>vr_sid = 1538, vr_index = 0, vr_term = 0, vr_cid = sample_cid\<rparr>]\<rparr>,
     slog := small_log\<lparr>log_end := 48, log_entries := (\<lambda>_. 0)(0 := 1, 8 := 1)\<rparr>\<rparr>"

end
