(* ===== verification/Dare_Votes.thy ===== *)
theory Dare_Votes
  imports Dare_Election_Proofs Dare_Samples
begin

text \<open>
  The properties of leader election: for whom a server votes, what a candidate asks for, when a
  candidate becomes a leader, and how state identifiers change.
\<close>

section \<open>Voting\<close>


lemma log_inv_small: "log_inv small_log []"
  by (simp add: log_inv_def small_log_def log_new_def is_log_empty_def sizeof_entry_def)

lemma voting_server_votes:
  "case poll_vote_requests voting_server of None \<Rightarrow> False | Some s' \<Rightarrow> vote_ack_event \<in> set (new_events voting_server s')"
  by (simp add: eval_simps sample_simps voting_server_def vote_ack_event_def new_events_def cong: eval_cong)



section \<open>Standing for election\<close>

text \<open>Property C26: what \<open>start_election\<close> does.  The server becomes a candidate of the next term, its SID
  grows, and everything it posts is a vote request with that SID, its configuration and the index and
  the term of the last entry of its log.  (The term field has 55 bits; the last term is excluded.)\<close>

theorem start_election_candidate:
  assumes "start_election s = Some s'" "log_inv (slog s) es" "unat (SID_GET_TERM (sid_of s)) < 2 ^ 55 - 1"
  shows "IS_CANDIDATE s' \<and> SID_GET_TERM (sid_of s') = SID_GET_TERM (sid_of s) + 1 \<and> sid_of s < sid_of s' \<and>
    (\<forall>w. Posted w \<in> set (new_events s s') \<longrightarrow> wr_op w = WriteVoteReq \<lparr>vr_sid = sid_of s',
       vr_index = fst (last_of (slog s) es), vr_term = snd (last_of (slog s) es), vr_cid = cid_of s\<rparr>)"
proof -
  note sid = start_election_sid [OF assms(1)] and f = candidate_sid_fields [OF assms(3)]
  have "SID_GET_TERM (sid_of s) + 1 \<noteq> 0" using unat_term_suc [OF assms(3)] by auto
  then have "IS_CANDIDATE s'" using sid f by (simp add: IS_CANDIDATE_def IS_NONE_def)
  then show ?thesis
    using sid f emits_new_events [OF start_election_emits [OF assms(1,2)]] by simp
qed

definition electing_server :: dare_server where
  "electing_server = sample_server\<lparr>polls := [Poll [] []]\<rparr>"

lemma electing_server_elects: "case start_election electing_server of None \<Rightarrow> False | Some s' \<Rightarrow> \<not> halted s' \<and> new_events electing_server s' \<noteq> []"
  by (simp add: eval_simps sample_simps electing_server_def new_events_def cong: eval_cong)

theorem start_election_candidate_witness:
  "\<exists>s'. start_election electing_server = Some s' \<and> IS_CANDIDATE s' \<and> SID_GET_TERM (sid_of s') = 2"
proof -
  obtain s' where s': "start_election electing_server = Some s'"
    using electing_server_elects by (auto split: option.splits)
  have l: "log_inv (slog electing_server) []" and t: "SID_GET_TERM (sid_of electing_server) = 1"
    using log_inv_small by (simp_all add: electing_server_def sample_server_def Let_def SID_GET_TERM_def)
  show ?thesis using start_election_candidate [OF s' l] s' by (simp add: t)
qed

section \<open>Counting votes\<close>

text \<open>The servers whose acknowledgement a candidate has received.\<close>

definition voters :: "dare_server \<Rightarrow> u8 set" where
  "voters s = {i. i < get_group_size (cid_of s) \<and> i \<noteq> idx_of s \<and> c_vote_ack (ctrl s) ! unat i \<noteq> log_len (slog s)}"

lemma upd_offsets_sel [simp]:
  "config (upd_offsets i f s) = config s" "slog (upd_offsets i f s) = slog s" "trace (upd_offsets i f s) = trace s"
  "c_vote_ack (ctrl (upd_offsets i f s)) = c_vote_ack (ctrl s)" "sid_of (upd_offsets i f s) = sid_of s"
  "halted (upd_offsets i f s) = halted s"
  by (simp_all add: upd_offsets_def)

lemma advance_commit_sel [simp]:
  "config (advance_commit c s) = config s" "ctrl (advance_commit c s) = ctrl s" "trace (advance_commit c s) = trace s"
  "log_len (slog (advance_commit c s)) = log_len (slog s)" "halted (advance_commit c s) = halted s"
  by (simp_all add: advance_commit_def set_commit_def)

definition vote_frame :: "dare_server \<Rightarrow> dare_server \<Rightarrow> bool" where
  "vote_frame s s' = (cid_of s' = cid_of s \<and> idx_of s' = idx_of s \<and> trace s' = trace s \<and> sid_of s' = sid_of s \<and>
     c_vote_ack (ctrl s') = c_vote_ack (ctrl s) \<and> log_len (slog s') = log_len (slog s))"

definition acked :: "dare_server \<Rightarrow> u8 \<Rightarrow> bool" where
  "acked s i = (i \<noteq> idx_of s \<and> c_vote_ack (ctrl s) ! unat i \<noteq> log_len (slog s))"

lemma count_vote_step:
  "\<exists>s'. count_vote i (n0, n1, s) = (n0 + (if acked s i \<and> i < cid_size0 (cid_of s) then 1 else 0),
     n1 + (if acked s i \<and> i < cid_size1 (cid_of s) then 1 else 0), s') \<and> vote_frame s s'"
  by (auto simp: count_vote_def Let_def vote_frame_def acked_def)

lemma count_vote_fold:
  "\<exists>s'. fold count_vote is (n0, n1, s) =
      (n0 + of_nat (length (filter (\<lambda>i. acked s i \<and> i < cid_size0 (cid_of s)) is)),
       n1 + of_nat (length (filter (\<lambda>i. acked s i \<and> i < cid_size1 (cid_of s)) is)), s') \<and> vote_frame s s'"
proof (induction "is" arbitrary: n0 n1 s)
  case (Cons i "is")
  let ?a = "\<lambda>b. if acked s i \<and> i < b then 1 else 0 :: u8"
  obtain t where t: "count_vote i (n0, n1, s) = (n0 + ?a (cid_size0 (cid_of s)), n1 + ?a (cid_size1 (cid_of s)), t)" "vote_frame s t"
    using count_vote_step by blast
  obtain u where u: "fold count_vote is (n0 + ?a (cid_size0 (cid_of s)), n1 + ?a (cid_size1 (cid_of s)), t) =
      (n0 + ?a (cid_size0 (cid_of s)) + of_nat (length (filter (\<lambda>i. acked t i \<and> i < cid_size0 (cid_of t)) is)),
       n1 + ?a (cid_size1 (cid_of s)) + of_nat (length (filter (\<lambda>i. acked t i \<and> i < cid_size1 (cid_of t)) is)), u)" "vote_frame t u"
    using Cons.IH by blast
  have "acked t = acked s" "cid_of t = cid_of s" using t(2) by (auto simp: vote_frame_def acked_def)
  moreover have "vote_frame s u" using t(2) u(2) by (simp add: vote_frame_def)
  ultimately show ?case using t(1) u(1) by simp
qed (simp add: vote_frame_def)

lemma count_votes_eq:
  "\<exists>s'. count_votes s = (1 + of_nat (card {i \<in> voters s. i < cid_size0 (cid_of s)}),
     1 + of_nat (card {i \<in> voters s. i < cid_size1 (cid_of s)}), s') \<and> vote_frame s s'"
proof -
  have "length (filter (\<lambda>i. acked s i \<and> i < b) (group_of s)) = card {i \<in> voters s. i < b}" for b
  proof -
    have "set (filter (\<lambda>i. acked s i \<and> i < b) (group_of s)) = {i \<in> voters s. i < b}"
      by (auto simp: voters_def acked_def)
    then show ?thesis using distinct_card [OF distinct_filter [OF distinct_upto8]] by metis
  qed
  then show ?thesis using count_vote_fold [of "group_of s" 1 1 s] by (simp add: count_votes_def)
qed

lemma unat_count_le: "unat (1 + of_nat n :: u8) \<le> Suc n"
  by (metis of_nat_Suc add.commute unat_of_nat mod_less_eq_dividend)

text \<open>Property C27: a candidate declares itself leader only with a majority.  Whenever
  \<open>poll_vote_count\<close> makes a server leader, the servers whose acknowledgement is in its control data, and the server
  itself, are more than half of the group, and in an unstable configuration also more than half of
  the new group.\<close>

theorem leader_has_majority:
  assumes "poll_vote_count s = Some s'" "BecomeLeader \<in> set (new_events s s')"
  shows "unat (cid_size0 (cid_of s)) div 2 < Suc (card {i \<in> voters s. i < cid_size0 (cid_of s)}) \<and>
    (cid_state (cid_of s) = CID_STABLE \<or> unat (cid_size1 (cid_of s)) div 2 < Suc (card {i \<in> voters s. i < cid_size1 (cid_of s)}))"
proof -
  obtain t where t: "count_votes s = (1 + of_nat (card {i \<in> voters s. i < cid_size0 (cid_of s)}),
     1 + of_nat (card {i \<in> voters s. i < cid_size1 (cid_of s)}), t)" "vote_frame s t"
    using count_votes_eq by blast
  have "won_election (1 + of_nat (card {i \<in> voters s. i < cid_size0 (cid_of s)}))
      (1 + of_nat (card {i \<in> voters s. i < cid_size1 (cid_of s)})) (cid_of s)"
  proof (rule ccontr)
    assume "\<not> ?thesis"
    then have "s' = t" using assms(1) t by (simp add: poll_vote_count_def vote_frame_def)
    then show False using assms(2) t(2) by (simp add: new_events_def vote_frame_def)
  qed
  then show ?thesis
    using unat_count_le [of "card {i \<in> voters s. i < cid_size0 (cid_of s)}"]
      unat_count_le [of "card {i \<in> voters s. i < cid_size1 (cid_of s)}"] by (auto simp: won_election_def)
qed

theorem leader_has_majority_witness:
  "\<exists>s'. poll_vote_count winning_server = Some s' \<and> BecomeLeader \<in> set (new_events winning_server s') \<and>
     1 < Suc (card {i \<in> voters winning_server. i < 3})"
proof -
  have "case poll_vote_count winning_server of None \<Rightarrow> False | Some s' \<Rightarrow> BecomeLeader \<in> set (new_events winning_server s')"
    by (simp add: eval_simps sample_simps winning_server_def new_events_def cong: eval_cong)
  then obtain s' where s': "poll_vote_count winning_server = Some s'" "BecomeLeader \<in> set (new_events winning_server s')"
    by (auto split: option.splits)
  have "cid_of winning_server = sample_cid" by (simp add: winning_server_def sample_server_def Let_def)
  with leader_has_majority [OF s'] s' show ?thesis by (simp add: sample_cid_def)
qed


end
