(* ===== verification/Dare_Recover.thy ===== *)
theory Dare_Recover
  imports Dare_Follow
begin

text \<open>
  Recovery of a server that joins the group (dare_ibv_rc.c, dare_server.c): it gets the last vote its
  predecessor replicated, asks for a snapshot of the state machine, and reads the log of another
  server; and the other side, which answers requests for a snapshot.

  What an RDMA read brings is an argument: the snapshot (\<open>snap\<close>) and the log bytes (\<open>remote\<close>) of the
  server that is read.  The state has one snapshot buffer, the pre-registered one or the allocated one.
\<close>

definition PREREG_SNAPSHOT_SIZE :: u32 where "PREREG_SNAPSHOT_SIZE = 128 * 4096"

definition sizeof_snapshot :: u32 where "sizeof_snapshot = 32"

section \<open>The replicated vote\<close>

text \<open>The result of a read: the larger SID is taken, the slot is cleared.\<close>

definition adopt_rsid :: "int list \<Rightarrow> u8 \<Rightarrow> dare_server \<Rightarrow> dare_server" where
  "adopt_rsid posted i s =
    (if posted ! unat i = 0
     then s\<lparr>ctrl := (ctrl s)\<lparr>c_sid := if sid_of s < c_rsid (ctrl s) ! unat i then c_rsid (ctrl s) ! unat i else sid_of s,
            c_rsid := (c_rsid (ctrl s))[unat i := 0]\<rparr>\<rparr>
     else s)"

definition rc_get_replicated_vote :: "dare_server \<Rightarrow> (int \<times> dare_server) option" where
  "rc_get_replicated_vote s =
    do {
      (rc, posted, s) \<leftarrow> post_all CTRL_QP True ReadVoteSid (group_of s) (Some (no_sends[unat (idx_of s) := -1])) (next_ssn s);
      if rc \<noteq> 0 then Some (1, s)
      else do {
        (rc, posted, s) \<leftarrow> wait_for_majority (case posted of Some p \<Rightarrow> p | None \<Rightarrow> []) CTRL_QP s;
        if rc = RC_ERROR then Some (1, s)
        else if rc \<noteq> RC_SUCCESS then Some (-1, s)
        else Some (0, fold (adopt_rsid posted) (group_of s) s)
      }
    }"

text \<open>A timer callback that has run: the callback of the next event, and whether the timer is armed.\<close>

definition set_timer :: "timer_cb \<Rightarrow> dare_server \<Rightarrow> dare_server" where
  "set_timer cb s = s\<lparr>timer_event := cb, timer_armed := True\<rparr>"

definition stop_timer :: "dare_server \<Rightarrow> dare_server" where
  "stop_timer s = halt (s\<lparr>timer_armed := False\<rparr>)"

definition get_replicated_vote_cb :: "dare_server \<Rightarrow> dare_server option" where
  "get_replicated_vote_cb s =
    (let s = s\<lparr>ctrl := (ctrl s)\<lparr>c_sid := SID_SET_L (SID_SET_IDX (SID_SET_TERM (sid_of s) 0) (idx_of s))\<rparr>\<rparr> in
     if cid_size0 (cid_of s) = 2 then Some (set_timer SendSmRequest s)
     else do {
       (rc, s) \<leftarrow> rc_get_replicated_vote s;
       Some (if rc > 1 then stop_timer s
             else if rc \<noteq> 0 then set_timer GetReplicatedVote s
             else set_timer SendSmRequest s)
     })"

section \<open>Snapshots\<close>

definition rc_send_sm_request :: "dare_server \<Rightarrow> (int \<times> dare_server) option" where
  "rc_send_sm_request s =
    do {
      let s = s\<lparr>ctrl := (ctrl s)\<lparr>c_sm_req := (c_sm_req (ctrl s))[unat (idx_of s) := 1]\<rparr>\<rparr>;
      (rc, _, s) \<leftarrow> post_all CTRL_QP False (WriteSmReq 1) (group_of s) None (next_ssn s);
      Some (rc, s)
    }"

definition send_sm_request_cb :: "dare_server \<Rightarrow> dare_server option" where
  "send_sm_request_cb s =
    do {
      (rc, s) \<leftarrow> rc_send_sm_request s;
      Some (if rc \<noteq> 0 then stop_timer s else set_timer SendSmRequest s)
    }"

text \<open>Where a snapshot is: in the pre-registered buffer, or in an allocated one at an address.\<close>

datatype snapshot_ref = Prereg | Allocated u64

definition rc_send_sm_reply :: "u8 \<Rightarrow> snapshot_ref \<Rightarrow> bool \<Rightarrow> dare_server \<Rightarrow> (int \<times> dare_server) option" where
  "rc_send_sm_reply target snap reg_mem s =
    (let (rc, s) = (if reg_mem then next_rc s else (0, s)) in
     if rc \<noteq> 0 then Some (1, s)
     else
       let (raddr, rkey, s) = (case snap of
              Prereg \<Rightarrow> (rm_raddr (prereg_mr (dev s)), rm_rkey (prereg_mr (dev s)), s)
            | Allocated a \<Rightarrow> (let (k, s) = next_rc s in (a, of_int k, s)));
           reply = \<lparr>sr_sid = sid_of s, sr_raddr = raddr, sr_rkey = rkey, sr_len = sizeof_snapshot + sn_len (prereg_snapshot s)\<rparr>;
           s = s\<lparr>ctrl := (ctrl s)\<lparr>c_sm_rep := (c_sm_rep (ctrl s))[unat (idx_of s) := reply]\<rparr>\<rparr>
       in if \<not> rc_connected (srv s target) then Some (0, s)
          else do {
            (rc, _, s) \<leftarrow> post_send target CTRL_QP (WriteSmRep reply) False None (next_ssn s);
            Some (if rc \<noteq> 0 then 1 else 0, s)
          })"

text \<open>Making a snapshot: its size comes from the proxy; \<open>Inl\<close> is a failed allocation.\<close>

definition make_snapshot :: "bool \<Rightarrow> dare_server \<Rightarrow> dare_server + (snapshot_ref \<times> bool \<times> dare_server)" where
  "make_snapshot reg_mem s =
    (let (len, s) = next_rc s; len = of_int len :: u32;
         (rc, snap, reg_mem, s) =
           (if len \<le> PREREG_SNAPSHOT_SIZE then (0, Prereg, reg_mem, s)
            else let (rc, s) = next_rc s; (a, s) = next_rc s in (rc, Allocated (of_int a), True, s))
     in if rc \<noteq> 0 then Inl (halt s)
        else Inr (snap, reg_mem, (emit CreateSnapshot s)\<lparr>
          prereg_snapshot := \<lparr>sn_last_entry = last_applied_entry s, sn_len = len\<rparr>, dare_state := dare_state s OR SNAPSHOT\<rparr>))"

text \<open>\<open>poll_sm_requests\<close> keeps the pointer to the snapshot in a local variable that is not initialised:
  \<open>None\<close> as \<open>snap\<close>.  Replying through it is undefined.\<close>

fun sm_requests_loop :: "u8 list \<Rightarrow> snapshot_ref option \<Rightarrow> bool \<Rightarrow> dare_server \<Rightarrow> dare_server option" where
  "sm_requests_loop [] snap reg_mem s = Some s"
| "sm_requests_loop (i # is) snap reg_mem s =
    (if i = idx_of s \<or> c_sm_req (ctrl s) ! unat i = 0 then sm_requests_loop is snap reg_mem s
     else
       let s = s\<lparr>ctrl := (ctrl s)\<lparr>c_sm_req := (c_sm_req (ctrl s))[unat i := 0]\<rparr>\<rparr> in
       case (if dare_state s AND SNAPSHOT = 0 then map_sum id (\<lambda>(r, m, s). (Some r, m, s)) (make_snapshot reg_mem s)
             else Inr (snap, reg_mem, s)) of
         Inl s \<Rightarrow> Some s
       | Inr (None, _, _) \<Rightarrow> None
       | Inr (Some r, reg_mem, s) \<Rightarrow> do {
           (rc, s) \<leftarrow> rc_send_sm_reply i r reg_mem s;
           if rc \<noteq> 0 then Some (halt s) else sm_requests_loop is (Some r) reg_mem s
         })"

definition poll_sm_requests :: "dare_server \<Rightarrow> dare_server option" where
  "poll_sm_requests s = sm_requests_loop (group_of s) None False s"

definition rc_recover_sm :: "u8 \<Rightarrow> snapshot_t \<Rightarrow> dare_server \<Rightarrow> (int \<times> dare_server) option" where
  "rc_recover_sm target snap s =
    (let (rc, s) = (if sr_len (c_sm_rep (ctrl s) ! unat target) \<le> PREREG_SNAPSHOT_SIZE then (0, s)
           else let (rc, s) = next_rc s in if rc \<noteq> 0 then (1, s) else next_rc s)
     in if rc \<noteq> 0 then Some (1, s)
        else do {
          (rc, posted, s) \<leftarrow> post_send target CTRL_QP ReadSnapshot True
            (Some ((replicate MAX_SERVER_COUNT (-1))[unat target := 1])) (next_ssn s);
          if rc \<noteq> 0 then Some (1, s)
          else do {
            (rc, _, s) \<leftarrow> wait_for_one (case posted of Some p \<Rightarrow> p | None \<Rightarrow> []) CTRL_QP s;
            if rc = RC_ERROR then Some (1, s)
            else if rc \<noteq> RC_SUCCESS then Some (-1, s)
            else
              let (rc, s) = next_rc (emit ApplySnapshot (s\<lparr>prereg_snapshot := snap\<rparr>)) in
              if rc \<noteq> 0 then Some (1, s)
              else Some (0, s\<lparr>slog := (slog s)\<lparr>log_apply := det_offset (sn_last_entry snap)\<rparr>\<rparr>)
          }
        })"

definition good_reply :: "dare_server \<Rightarrow> u8 \<Rightarrow> bool" where
  "good_reply s i = (let r = c_sm_rep (ctrl s) ! unat i in
     i \<noteq> idx_of s \<and> sr_sid r > sid_of s \<and> sr_raddr r \<noteq> 0 \<and> sr_rkey r \<noteq> 0 \<and> sr_len r \<noteq> 0)"

definition poll_sm_reply :: "snapshot_t \<Rightarrow> dare_server \<Rightarrow> dare_server option" where
  "poll_sm_reply snap s =
    (case find (good_reply s) (group_of s) of
       None \<Rightarrow> Some s
     | Some target \<Rightarrow> do {
         (rc, s) \<leftarrow> rc_recover_sm target snap
           (s\<lparr>ctrl := (ctrl s)\<lparr>c_sid := sr_sid (c_sm_rep (ctrl s) ! unat target)\<rparr>\<rparr>);
         Some (if rc > 1 then halt s
               else if rc \<noteq> 0 then s
               else set_timer RecoverLog (s\<lparr>ctrl := (ctrl s)\<lparr>c_sm_rep := c_sm_rep ctrl_init\<rparr>, dare_state := dare_state s OR SM_RECOVERED\<rparr>))
       })"

section \<open>The log\<close>

text \<open>The offsets the local log takes from the ones of the target: when the remote log wraps around, only
  the part up to the end of the buffer is read.\<close>

definition adopt_offsets :: "u8 \<Rightarrow> dare_server \<Rightarrow> dare_server" where
  "adopt_offsets target s =
    (let o' = c_log_offsets (ctrl s) ! unat target;
         l = (slog s)\<lparr>log_end := lo_end o'\<rparr>;
         e = (if lo_end o' > 0 \<and> lo_end o' < log_head l then 0 else lo_end o');
         c = (if log_is_offset_larger l (lo_commit o') e then e else lo_commit o')
     in s\<lparr>ctrl := (ctrl s)\<lparr>c_log_offsets := (c_log_offsets (ctrl s))[unat target := o'\<lparr>lo_end := e, lo_commit := c\<rparr>]\<rparr>,
          slog := l\<lparr>log_end := e, log_commit := c\<rparr>\<rparr>)"

definition rc_recover_log :: "memory \<Rightarrow> dare_server \<Rightarrow> (int \<times> dare_server) option" where
  "rc_recover_log remote s =
    do {
      (rc, posted, s) \<leftarrow> post_all CTRL_QP True ReadOffsets (group_of s) (Some (no_sends[unat (idx_of s) := -1])) (next_ssn s);
      if rc \<noteq> 0 then Some (1, s)
      else do {
        (rc, posted, s) \<leftarrow> wait_for_one (case posted of Some p \<Rightarrow> p | None \<Rightarrow> []) CTRL_QP s;
        if rc = RC_ERROR then Some (1, s)
        else if rc \<noteq> RC_SUCCESS then Some (-1, s)
        else
          let target = (case find (\<lambda>i. posted ! unat i = 0) (group_of s) of None \<Rightarrow> get_group_size (cid_of s) | Some i \<Rightarrow> i) in
          if lo_end (c_log_offsets (ctrl s) ! unat target) = log_len (slog s) then Some (0, s)
          else
            let s = adopt_offsets target s;
                h = log_head (slog s);
                len = ucast (log_offset_end_distance (slog s) h) :: u32
            in do {
              (rc, posted, s) \<leftarrow> post_send target CTRL_QP ReadLog True
                (Some ((replicate MAX_SERVER_COUNT (-1))[unat target := 1])) (next_ssn s);
              if rc \<noteq> 0 then Some (1, s)
              else do {
                (rc, _, s) \<leftarrow> wait_for_one (case posted of Some p \<Rightarrow> p | None \<Rightarrow> []) CTRL_QP s;
                if rc = RC_ERROR then Some (1, s)
                else if rc \<noteq> RC_SUCCESS then Some (-1, s)
                else Some (0, s\<lparr>slog := (slog s)\<lparr>log_entries :=
                  mem_write (log_entries (slog s)) (unat h) (mem_read remote (unat h) (unat len))\<rparr>\<rparr>)
              }
            }
      }
    }"

definition recover_log_cb :: "memory \<Rightarrow> dare_server \<Rightarrow> dare_server option" where
  "recover_log_cb remote s =
    do {
      (rc, s) \<leftarrow> rc_recover_log remote s;
      if rc > 1 then Some (stop_timer s)
      else if rc \<noteq> 0 then Some (set_timer RecoverLog s)
      else
        let s = set_timer UpdateRcInfo (s\<lparr>dare_state := dare_state s OR LOG_RECOVERED\<rparr>)
        in if SID_GET_TERM (sid_of s) = 0 then start_election s else server_to_follower s
    }"

end
