(* ===== verification/Dare_Ud.thy ===== *)
theory Dare_Ud
  imports Dare_Reconf
begin

text \<open>
  The datagrams between servers (dare_ibv_ud.c): joining the group, the three-way handshake that sets
  up the reliable connections (RC_SYN, RC_SYNACK, RC_ACK), and the queue through which the proxy hands
  over commands.  A result \<open>None\<close> is a read outside a message or through a NULL pointer.

  Re-posting a receive buffer has no result the code looks at and is left out.  The error of
  \<open>wc_to_ud_ep\<close> is ignored by its callers, so only its effect on the endpoint is modelled.
\<close>

section \<open>Constants\<close>

definition MSG_NONE :: u8 where "MSG_NONE = 0"

definition MSG_ERROR :: u8 where "MSG_ERROR = 13"

definition RC_SYN :: u8 where "RC_SYN = 1"

definition RC_SYNACK :: u8 where "RC_SYNACK = 2"

definition RC_ACK :: u8 where "RC_ACK = 3"

definition CSM_REPLY :: u8 where "CSM_REPLY = 203"

definition JOIN :: u8 where "JOIN = 211"

definition CFG_REPLY :: u8 where "CFG_REPLY = 214"

text \<open>The return value of a handler that has brought the connections to a majority.\<close>

definition REQ_MAJORITY :: int where "REQ_MAJORITY = 13"

fun msg_type :: "ud_msg \<Rightarrow> u8" where
  "msg_type (JoinMsg _ _ _) = JOIN"
| "msg_type (RcSyn _) = RC_SYN"
| "msg_type (RcSynAck _) = RC_SYNACK"
| "msg_type (RcAck _ _) = RC_ACK"
| "msg_type (CfgReply _) = CFG_REPLY"
| "msg_type (CsmReply _ _) = CSM_REPLY"
| "msg_type (OtherMsg t) = t"

section \<open>Commands of the proxy\<close>

text \<open>The queue is emptied under its lock: every entry is appended to the log, in order.\<close>

fun drain_tailq :: "tailq_entry_t list \<Rightarrow> dare_server \<Rightarrow> dare_server option" where
  "drain_tailq [] s = Some s"
| "drain_tailq (n # ns) s =
    do {
      (idx, s) \<leftarrow> append_entry (tq_req_id n) (tq_connection_id n) (tq_type n) (DCmd (tq_cmd n)) s;
      drain_tailq ns (s\<lparr>last_write_csm_idx := idx, tailq := ns\<rparr>)
    }"

definition get_tailq_message :: "dare_server \<Rightarrow> dare_server option" where
  "get_tailq_message s = drain_tailq (tailq s) s"

section \<open>Endpoints\<close>

definition wc_to_ud_ep :: "u8 \<Rightarrow> u32 \<Rightarrow> u8 list \<Rightarrow> u16 \<Rightarrow> dare_server \<Rightarrow> dare_server" where
  "wc_to_ud_ep i src_qp gid slid s =
    (let s = (if ep_ah (srv s i) then emit (AhDestroy i) s else s);
         (rc, s) = next_rc (upd_srv i (\<lambda>v. v\<lparr>ep_lid := slid, ep_gid := gid\<rparr>) s)
     in if rc \<noteq> 0 then upd_srv i (\<lambda>v. v\<lparr>ep_ah := False\<rparr>) s
        else emit (AhCreate i) (upd_srv i (\<lambda>v. v\<lparr>ep_ah := True, ep_ud_qpn := src_qp\<rparr>) s))"

text \<open>The query of the queue pair's state takes one value from the environment, \<open>0\<close> for RESET.\<close>

definition rc_connect_server :: "u8 \<Rightarrow> qp_id \<Rightarrow> dare_server \<Rightarrow> int \<times> dare_server" where
  "rc_connect_server i qp s =
    (let (st, s) = next_rc s;
         (rc, s) = (if st \<noteq> 0 then rc_qp_reset i qp s else (0, s))
     in if rc \<noteq> 0 then (1, s) else
     let (rc, s) = rc_qp_reset_to_init i qp s in
     if rc \<noteq> 0 then (1, s) else
     let (rc, s) = rc_qp_init_to_rtr i qp s in
     if rc \<noteq> 0 then (1, s) else
     let (rc, s) = rc_qp_rtr_to_rts i qp s in
     if rc \<noteq> 0 then (1, s) else (0, s))"

section \<open>Joining the group\<close>

definition ud_join_cluster :: "dare_server \<Rightarrow> int \<times> dare_server" where
  "ud_join_cluster s =
    mcast_send_message sizeof_ud_hdr (JoinMsg (request_id s) (dev_slid (dev s)) (dev_gid (dev s))) s"

text \<open>The scan from the last server to the first: \<open>Inl i\<close> is a server that is on and has the LID,
  \<open>Inr i\<close> the smallest index that is off (the size when there is none).\<close>

fun find_place :: "u16 \<Rightarrow> dare_server \<Rightarrow> u8 list \<Rightarrow> u8 \<Rightarrow> u8 + u8" where
  "find_place lid s [] empty_idx = Inr empty_idx"
| "find_place lid s (i # is) empty_idx =
    (if CID_IS_SERVER_ON (cid_of s) i
     then if ep_lid (srv s i) = lid then Inl i else find_place lid s is empty_idx
     else find_place lid s is i)"

definition add_server :: "u8 \<Rightarrow> dare_cid_t \<Rightarrow> dare_cid_t" where
  "add_server empty_idx cid =
    (let n = cid_size0 cid; cid = CID_SERVER_ADD cid empty_idx in
     if empty_idx = n then cid\<lparr>cid_state := CID_EXTENDED, cid_size1 := n + 1, cid_epoch := cid_epoch cid + 1\<rparr> else cid)"

definition init_new_server :: "u8 \<Rightarrow> dare_server \<Rightarrow> dare_server" where
  "init_new_server i s =
    (let s = upd_srv i (\<lambda>v. v\<lparr>rc_connected := False, fail_count := 0, next_lr_step := LR_GET_WRITE,
                send_flag := True, send_count := 0\<rparr>) s
     in s\<lparr>ctrl := (ctrl s)\<lparr>c_vote_ack := (c_vote_ack (ctrl s))[unat i := log_len (slog s)],
          c_apply_offsets := (c_apply_offsets (ctrl s))[unat i := log_head (slog s)]\<rparr>\<rparr>)"

text \<open>\<open>handle_server_join_request\<close>, for the datagram's source LID \<open>lid\<close> and queue pair, and the fields of
  the request.  \<open>junk\<close> is what a new endpoint's buffers hold.  Adding a server to a full group of 13
  writes outside the arrays.\<close>

definition handle_server_join_request ::
  "u16 \<Rightarrow> u32 \<Rightarrow> u64 \<Rightarrow> u16 \<Rightarrow> u8 list \<Rightarrow> u32 \<times> u8 list \<Rightarrow> dare_server \<Rightarrow> (int \<times> dare_server) option" where
  "handle_server_join_request lid src_qp req_id slid gid junk s =
    (if cid_state (cid_of s) \<noteq> CID_STABLE then Some (0, s)
     else do {
       t \<leftarrow> (if ep_search (endpoints s) slid = None
         then map_option snd (ep_insert (endpoints s) slid gid (fst junk) (snd junk)) else Some (endpoints s));
       let s = s\<lparr>endpoints := ep_update slid (\<lambda>e. e\<lparr>ud_qpn := src_qp\<rparr>) t\<rparr>;
       ep \<leftarrow> ep_search (endpoints s) slid;
       let sz = cid_size0 (cid_of s);
       case find_place lid s (rev (upto8 sz)) sz of
         Inl _ \<Rightarrow>
           (if last_req_id ep = req_id \<and> committed ep
            then do { (rc, s) \<leftarrow> ud_send_clt_reply lid req_id CONFIG s; Some (if rc \<noteq> 0 then 1 else 0, s) }
            else Some (0, s))
       | Inr empty_idx \<Rightarrow>
           (if unat empty_idx \<ge> MAX_SERVER_COUNT then None
            else
              let s = set_owner req_id lid (set_cid (add_server empty_idx (cid_of s)) s);
                  s = init_new_server empty_idx (wc_to_ud_ep empty_idx src_qp gid slid s);
                  s = s\<lparr>endpoints := ep_update slid (\<lambda>e. e\<lparr>last_req_id := req_id\<rparr>) (endpoints s)\<rparr>
              in do {
                (idx, s) \<leftarrow> append_entry req_id slid CONFIG (DCid (cid_of s)) s;
                Some (0, s\<lparr>endpoints := ep_update slid (\<lambda>e. e\<lparr>ep_cid_idx := idx, committed := False\<rparr>) (endpoints s)\<rparr>)
              })
     })"

definition handle_server_join_reply :: "reconf_rep_t \<Rightarrow> dare_server \<Rightarrow> dare_server" where
  "handle_server_join_reply reply s =
    (if rep_id reply < request_id s then s
     else s\<lparr>request_id := request_id s + 1,
            config := (config s)\<lparr>cfg_idx := rep_idx reply, cfg_cid := rep_cid reply, cfg_cid_idx := rep_cid_idx reply,
              cfg_cid_offset := rep_head reply\<rparr>,
            slog := (slog s)\<lparr>log_head := rep_head reply\<rparr>\<rparr>)"

section \<open>The handshake\<close>

abbreviation qpns_of :: "server_t \<Rightarrow> u32 \<times> u32" where
  "qpns_of v \<equiv> (qp_num (rc_qp v LOG_QP), qp_num (rc_qp v CTRL_QP))"

text \<open>An RC_SYN or RC_SYNACK message of this server.\<close>

definition own_syn :: "u64 \<Rightarrow> u8 \<Rightarrow> (u32 \<times> u32) list \<Rightarrow> dare_server \<Rightarrow> rc_syn_t" where
  "own_syn req_id sz qpns s = \<lparr>syn_id = req_id, syn_slid = dev_slid (dev s), syn_gid = dev_gid (dev s),
     syn_log = lcl_mr (dev s) LOG_QP, syn_ctrl = lcl_mr (dev s) CTRL_QP, syn_mtu = dev_mtu (dev s),
     syn_idx = idx_of s, syn_size = sz, syn_qpns = qpns\<rparr>"

definition ud_exchange_rc_info :: "dare_server \<Rightarrow> int \<times> dare_server" where
  "ud_exchange_rc_info s =
    (let sz = get_extended_group_size (cid_of s); len = sizeof_rc_syn + 2 * ucast sz * 4 in
     if mtu_value (dev_mtu (dev s)) < len then (1, s)
     else mcast_send_message len (RcSyn (own_syn (request_id s) sz (map (\<lambda>i. qpns_of (srv s i)) (upto8 sz)) s)) s)"

definition ud_update_rc_info :: "dare_server \<Rightarrow> int \<times> dare_server" where
  "ud_update_rc_info s =
    (if list_ex (\<lambda>i. i \<noteq> idx_of s \<and> CID_IS_SERVER_ON (cid_of s) i \<and> \<not> rc_connected (srv s i))
          (upto8 (get_extended_group_size (cid_of s)))
     then ud_exchange_rc_info s else (0, s))"

text \<open>What both messages of the handshake set in the endpoint.\<close>

definition set_remote :: "rc_syn_t \<Rightarrow> u32 \<times> u32 \<Rightarrow> dare_server \<Rightarrow> dare_server" where
  "set_remote msg qpns s =
    upd_qp (syn_idx msg) CTRL_QP (\<lambda>q. q\<lparr>remote_qpn := snd qpns\<rparr>)
      (upd_qp (syn_idx msg) LOG_QP (\<lambda>q. q\<lparr>remote_qpn := fst qpns\<rparr>)
        (upd_srv (syn_idx msg) (\<lambda>v. v\<lparr>rmt_mr := (rmt_mr v)(LOG_QP := syn_log msg, CTRL_QP := syn_ctrl msg),
           ep_mtu := if syn_mtu msg > dev_mtu (dev s) then dev_mtu (dev s) else syn_mtu msg\<rparr>) s))"

text \<open>Connecting the control QP, and the log QP too when this server is the leader.\<close>

definition connect_qps :: "u8 \<Rightarrow> dare_server \<Rightarrow> int \<times> dare_server" where
  "connect_qps i s =
    (let (rc, s) = rc_connect_server i CTRL_QP s in
     if rc \<noteq> 0 then (1, s)
     else if SID_GET_L (sid_of s) \<and> SID_GET_IDX (sid_of s) = idx_of s
     then let (rc, s) = rc_connect_server i LOG_QP s in (if rc \<noteq> 0 then 1 else 0, s)
     else (0, s))"

definition handle_rc_syn :: "u32 \<Rightarrow> rc_syn_t \<Rightarrow> dare_server \<Rightarrow> (int \<times> dare_server) option" where
  "handle_rc_syn src_qp msg s =
    (if \<not> CID_IS_SERVER_ON (cid_of s) (syn_idx msg) \<or> idx_of s \<ge> syn_size msg then Some (0, s)
     else if unat (syn_idx msg) \<ge> MAX_SERVER_COUNT then None
     else do {
       (rc, s) \<leftarrow> (if rc_connected (srv s (syn_idx msg)) then Some (0, s)
         else if unat (idx_of s) \<ge> length (syn_qpns msg) then None
         else Some (connect_qps (syn_idx msg) (set_remote msg (syn_qpns msg ! unat (idx_of s))
           (wc_to_ud_ep (syn_idx msg) src_qp (syn_gid msg) (syn_slid msg) s))));
       if rc \<noteq> 0 then Some (1, s)
       else
         let v = srv s (syn_idx msg);
             (rc, s) = ud_send_message (ep_lid v) (sizeof_rc_syn + 8) (RcSynAck (own_syn (syn_id msg) 1 [qpns_of v] s)) s
         in Some (if rc \<noteq> 0 then 1 else 0, s)
     })"

definition connections :: "dare_server \<Rightarrow> nat" where
  "connections s = length (filter (\<lambda>i. i \<noteq> idx_of s \<and> CID_IS_SERVER_ON (cid_of s) i \<and> rc_connected (srv s i)) (group_of s))"

definition enough_connections :: "dare_server \<Rightarrow> bool" where
  "enough_connections s = (connections s \<ge> unat (get_group_size (cid_of s)) div 2)"

definition handle_rc_synack :: "u32 \<Rightarrow> rc_syn_t \<Rightarrow> dare_server \<Rightarrow> (int \<times> dare_server) option" where
  "handle_rc_synack src_qp msg s =
    (if \<not> CID_IS_SERVER_ON (cid_of s) (syn_idx msg) then Some (0, s)
     else if unat (syn_idx msg) \<ge> MAX_SERVER_COUNT then None
     else do {
       (rc, ret, s) \<leftarrow> (if rc_connected (srv s (syn_idx msg)) then Some (0, 0, s)
         else case syn_qpns msg of [] \<Rightarrow> None | qpns # _ \<Rightarrow>
           let s = upd_srv (syn_idx msg) (\<lambda>v. v\<lparr>rc_connected := True\<rparr>)
                 (set_remote msg qpns (wc_to_ud_ep (syn_idx msg) src_qp (syn_gid msg) (syn_slid msg) s));
               (rc, s) = connect_qps (syn_idx msg) s
           in Some (rc, if enough_connections s then REQ_MAJORITY else 0, s));
       if rc \<noteq> 0 then Some (1, s)
       else
         let (rc, s) = ud_send_message (ep_lid (srv s (syn_idx msg))) sizeof_rc_ack (RcAck (syn_id msg) (idx_of s)) s
         in Some (if rc \<noteq> 0 then 1 else ret, s)
     })"

definition handle_rc_ack :: "u8 \<Rightarrow> dare_server \<Rightarrow> (int \<times> dare_server) option" where
  "handle_rc_ack i s =
    (if \<not> CID_IS_SERVER_ON (cid_of s) i then Some (0, s)
     else if unat i \<ge> MAX_SERVER_COUNT then None
     else if rc_connected (srv s i) then Some (0, s)
     else
       let s = upd_srv i (\<lambda>v. v\<lparr>rc_connected := True\<rparr>) s
       in Some (if enough_connections s then REQ_MAJORITY else 0, s))"

section \<open>Receiving\<close>

text \<open>The type a handler of the handshake reports: its own when the majority is reached.\<close>

definition handshake_type :: "u8 \<Rightarrow> int \<Rightarrow> u8" where
  "handshake_type type rc = (if rc = 0 then MSG_NONE else if rc = REQ_MAJORITY then type else MSG_ERROR)"

fun handle_message_from_client :: "u32 \<times> u8 list \<Rightarrow> u16 \<Rightarrow> u32 \<Rightarrow> ud_msg \<Rightarrow> dare_server \<Rightarrow> (u8 \<times> dare_server) option" where
  "handle_message_from_client junk lid src_qp (JoinMsg req_id slid gid) s =
    (if \<not> IS_LEADER s then Some (JOIN, s)
     else do {
       (rc, s) \<leftarrow> handle_server_join_request lid src_qp req_id slid gid junk s;
       Some (if rc \<noteq> 0 then MSG_ERROR else JOIN, s)
     })"
| "handle_message_from_client junk lid src_qp (RcSyn msg) s =
    do { (rc, s) \<leftarrow> handle_rc_syn src_qp msg s; Some (if rc \<noteq> 0 then MSG_ERROR else MSG_NONE, s) }"
| "handle_message_from_client junk lid src_qp (RcSynAck msg) s =
    do { (rc, s) \<leftarrow> handle_rc_synack src_qp msg s; Some (handshake_type RC_SYNACK rc, s) }"
| "handle_message_from_client junk lid src_qp (RcAck _ i) s =
    do { (rc, s) \<leftarrow> handle_rc_ack i s; Some (handshake_type RC_ACK rc, s) }"
| "handle_message_from_client junk lid src_qp (CfgReply reply) s = Some (CFG_REPLY, handle_server_join_reply reply s)"
| "handle_message_from_client junk lid src_qp msg s = Some (msg_type msg, s)"

text \<open>\<open>ud_get_message\<close>: datagrams of this server itself and other completions are skipped; at most one
  message is handled.\<close>

fun get_message :: "u32 \<times> u8 list \<Rightarrow> ud_poll list \<Rightarrow> dare_server \<Rightarrow> (u8 \<times> dare_server) option" where
  "get_message junk [] s = Some (MSG_NONE, s\<lparr>ud_in := []\<rparr>)"
| "get_message junk (UdError # ps) s = Some (MSG_ERROR, s\<lparr>ud_in := ps\<rparr>)"
| "get_message junk (UdBadStatus # ps) s = Some (MSG_ERROR, s\<lparr>ud_in := ps\<rparr>)"
| "get_message junk (UdOther lid # ps) s = get_message junk ps s"
| "get_message junk (UdRecv lid src_qp msg # ps) s =
    (if lid = dev_lid (dev s) then get_message junk ps s
     else handle_message_from_client junk lid src_qp msg (s\<lparr>ud_in := ps\<rparr>))"

definition ud_get_message :: "u32 \<times> u8 list \<Rightarrow> dare_server \<Rightarrow> (u8 \<times> dare_server) option" where
  "ud_get_message junk s = get_message junk (ud_in s) s"

end
