(* ===== verification/Dare_Main.thy ===== *)
theory Dare_Main
  imports Dare_Election Dare_Recover Dare_Ud
begin

text \<open>
  The event loop of a server (dare_server.c): setting up the network, the timer callbacks, the idle
  callback \<open>polling\<close>, and the step relation of the whole server, with one rule per event of the loop
  and one per action of its surroundings.
\<close>

section \<open>Setting up\<close>

definition SRV_TYPE_START :: u8 where "SRV_TYPE_START = 1"

definition SRV_TYPE_JOIN :: u8 where "SRV_TYPE_JOIN = 2"

text \<open>A sequence of calls of the verbs library or the allocator that stops at the first failure.\<close>

fun calls :: "nat \<Rightarrow> dare_server \<Rightarrow> int \<times> dare_server" where
  "calls 0 s = (0, s)"
| "calls (Suc n) s = (let (rc, s) = next_rc s in if rc \<noteq> 0 then (1, s) else calls n s)"

text \<open>Finding and opening the device is one call here; a device starts with request number 1.\<close>

definition dare_init_ib_device :: "dare_server \<Rightarrow> int \<times> dare_server" where
  "dare_init_ib_device s = (let (rc, s) = next_rc s in if rc \<noteq> 0 then (1, s) else (0, s\<lparr>request_id := 1\<rparr>))"

definition zero_ep :: "server_t \<Rightarrow> server_t" where
  "zero_ep v = v\<lparr>ep_lid := 0, ep_gid := [], ep_ud_qpn := 0, ep_ah := False, rmt_mr := rmt_mr server_init, ep_mtu := 0,
     rc_qp := rc_qp server_init, rc_connected := False, log_access := False\<rparr>"

fun init_eps :: "u8 list \<Rightarrow> dare_server \<Rightarrow> int \<times> dare_server" where
  "init_eps [] s = (0, s)"
| "init_eps (i # is) s = (let (rc, s) = next_rc s in if rc \<noteq> 0 then (1, s) else init_eps is (upd_srv i zero_ep s))"

definition dare_init_ib_srv_data :: "dare_server \<Rightarrow> int \<times> dare_server" where
  "dare_init_ib_srv_data s = init_eps (upto8 (cfg_len (config s))) s"

text \<open>A queue pair is created (one result) and gets a number (the next one).\<close>

definition create_qp :: "u8 \<Rightarrow> qp_id \<Rightarrow> dare_server \<Rightarrow> int \<times> dare_server" where
  "create_qp i qp s =
    (let (rc, s) = next_rc s in
     if rc \<noteq> 0 then (1, s)
     else let (n, s) = next_rc s in
       (0, upd_qp i qp (\<lambda>q. q\<lparr>qp_num := of_int n, signaled_wr_id := 0, qp_send_count := 0, qp_state := RC_QP_ACTIVE\<rparr>) s))"

definition rc_qp_create :: "u8 \<Rightarrow> dare_server \<Rightarrow> int \<times> dare_server" where
  "rc_qp_create i s = (let (rc, s) = create_qp i CTRL_QP s in if rc \<noteq> 0 then (1, s) else create_qp i LOG_QP s)"

fun create_qps :: "u8 list \<Rightarrow> dare_server \<Rightarrow> int \<times> dare_server" where
  "create_qps [] s = (0, s)"
| "create_qps (i # is) s = (let (rc, s) = rc_qp_create i s in if rc \<noteq> 0 then (1, s) else create_qps is s)"

text \<open>\<open>rc_prerequisite\<close> makes five calls that can fail, \<open>rc_memory_reg\<close> three.\<close>

definition rc_init :: "dare_server \<Rightarrow> int \<times> dare_server" where
  "rc_init s =
    (let (rc, s) = calls 5 s in
     if rc \<noteq> 0 then (1, s)
     else let (rc, s) = calls 3 s in
     if rc \<noteq> 0 then (1, s) else create_qps (upto8 (cfg_len (config s))) s)"

definition init_network_cb :: "u8 \<Rightarrow> dare_server \<Rightarrow> dare_server" where
  "init_network_cb srv_type s =
    (let (rc, s) = dare_init_ib_device s in
     if rc \<noteq> 0 then stop_timer s
     else let (rc, s) = dare_init_ib_srv_data s in
     if rc \<noteq> 0 then stop_timer s
     else let (rc, s) = rc_init s in
     if rc \<noteq> 0 then stop_timer s
     else let (rc, s) = next_rc s in
     if rc \<noteq> 0 then stop_timer s
     else
       let s = s\<lparr>dare_state := dare_state s OR INIT, poll_armed := True\<rparr> in
       if srv_type = SRV_TYPE_JOIN then set_timer JoinCluster s
       else if cid_size0 (cid_of s) = 1
       then s\<lparr>ctrl := (ctrl s)\<lparr>c_sid := SID_SET_IDX (SID_SET_L (SID_SET_TERM (sid_of s) 1)) 0\<rparr>, timer_armed := False\<rparr>
       else set_timer ExchangeRcInfo s)"

definition join_cluster_cb :: "dare_server \<Rightarrow> dare_server" where
  "join_cluster_cb s = (let (rc, s) = ud_join_cluster s in if rc \<noteq> 0 then stop_timer s else set_timer JoinCluster s)"

definition exchange_rc_info_cb :: "dare_server \<Rightarrow> dare_server" where
  "exchange_rc_info_cb s = (let (rc, s) = ud_exchange_rc_info s in if rc \<noteq> 0 then stop_timer s else set_timer ExchangeRcInfo s)"

definition update_rc_info_cb :: "dare_server \<Rightarrow> dare_server" where
  "update_rc_info_cb s = (let (rc, s) = ud_update_rc_info s in if rc \<noteq> 0 then stop_timer s else set_timer UpdateRcInfo s)"

section \<open>Polling\<close>

definition poll_ud :: "u32 \<times> u8 list \<Rightarrow> dare_server \<Rightarrow> dare_server option" where
  "poll_ud junk s =
    do {
      s \<leftarrow> get_tailq_message s;
      (type, s) \<leftarrow> ud_get_message junk s;
      if type = MSG_ERROR then Some (halt s)
      else if type = CFG_REPLY then Some (set_timer ExchangeRcInfo (s\<lparr>dare_state := dare_state s OR JOINED\<rparr>))
      else if (type = RC_SYNACK \<or> type = RC_ACK) \<and> dare_state s AND RC_ESTABLISHED = 0 then
        let s = s\<lparr>dare_state := dare_state s OR RC_ESTABLISHED\<rparr> in
        if dare_state s AND JOINED = 0
        then start_election (set_timer UpdateRcInfo (s\<lparr>dare_state := dare_state s OR (LOG_RECOVERED OR SM_RECOVERED)\<rparr>))
        else Some (set_timer GetReplicatedVote s)
      else Some s
    }"

text \<open>Shutting down ends the thread: the rest of \<open>polling\<close> runs only while the server is not halted.\<close>

definition unless_halted :: "(dare_server \<Rightarrow> dare_server option) \<Rightarrow> dare_server \<Rightarrow> dare_server option" where
  "unless_halted f s = (if halted s then Some s else f s)"

definition polling :: "u32 \<times> u8 list \<Rightarrow> snapshot_t \<Rightarrow> dare_server \<Rightarrow> dare_server option" where
  "polling junk snap s =
    (if dare_state s AND TERMINATE \<noteq> 0 then Some (halt s)
     else do {
       s \<leftarrow> poll_ud junk s;
       s \<leftarrow> unless_halted (\<lambda>s.
         if dare_state s AND RC_ESTABLISHED \<noteq> 0 \<and> dare_state s AND SM_RECOVERED = 0 then poll_sm_reply snap s else Some s) s;
       if dare_state s AND LOG_RECOVERED = 0 then Some s
       else do {
         s \<leftarrow> unless_halted (\<lambda>s. if \<not> IS_LEADER s then poll_sm_requests s else Some s) s;
         s \<leftarrow> unless_halted check_failure_count s;
         s \<leftarrow> unless_halted (\<lambda>s. if IS_LEADER s then commit_new_entries s else poll_config_entries s) s;
         s \<leftarrow> unless_halted apply_committed_entries s;
         s \<leftarrow> unless_halted (\<lambda>s. if IS_CANDIDATE s then poll_vote_count s else Some s) s;
         s \<leftarrow> unless_halted poll_vote_requests s;
         unless_halted (\<lambda>s. if IS_LEADER s then force_log_pruning s else Some s) s
       }
     })"

definition is_leader :: "dare_server \<Rightarrow> bool" where
  "is_leader s = IS_LEADER s"

definition get_node_id :: "dare_server \<Rightarrow> u8" where
  "get_node_id s = idx_of s"

definition int_handler :: "dare_server \<Rightarrow> dare_server" where
  "int_handler s = s\<lparr>dare_state := dare_state s OR TERMINATE\<rparr>"

section \<open>Steps\<close>

text \<open>The callback of the timer event.\<close>

fun run_timer :: "u8 \<Rightarrow> memory \<Rightarrow> timer_cb \<Rightarrow> dare_server \<Rightarrow> dare_server option" where
  "run_timer srv_type remote InitNetwork s = Some (init_network_cb srv_type s)"
| "run_timer srv_type remote JoinCluster s = Some (join_cluster_cb s)"
| "run_timer srv_type remote ExchangeRcInfo s = Some (exchange_rc_info_cb s)"
| "run_timer srv_type remote UpdateRcInfo s = Some (update_rc_info_cb s)"
| "run_timer srv_type remote GetReplicatedVote s = get_replicated_vote_cb s"
| "run_timer srv_type remote SendSmRequest s = send_sm_request_cb s"
| "run_timer srv_type remote RecoverLog s = recover_log_cb remote s"

fun run_hb :: "hb_cb \<Rightarrow> dare_server \<Rightarrow> dare_server option" where
  "run_hb HbReceive s = hb_receive_cb s"
| "run_hb HbSend s = hb_send_cb s"

text \<open>The surroundings act between callbacks: a remote NIC writes to the control data, datagrams and
  completions arrive, the verbs library's results change, the proxy queues a command, and SIGINT.\<close>

inductive dare_step :: "u8 \<Rightarrow> dare_server \<Rightarrow> dare_server \<Rightarrow> bool" for srv_type where
  timer: "\<not> halted s \<Longrightarrow> timer_armed s \<Longrightarrow> run_timer srv_type remote (timer_event s) s = Some s' \<Longrightarrow> dare_step srv_type s s'"
| idle: "\<not> halted s \<Longrightarrow> poll_armed s \<Longrightarrow> polling junk snap s = Some s' \<Longrightarrow> dare_step srv_type s s'"
| heartbeat: "\<not> halted s \<Longrightarrow> hb_armed s \<Longrightarrow> run_hb (hb_event s) s = Some s' \<Longrightarrow> dare_step srv_type s s'"
| prune: "\<not> halted s \<Longrightarrow> prune_armed s \<Longrightarrow> prune_log_cb s = Some s' \<Longrightarrow> dare_step srv_type s s'"
| adjust: "\<not> halted s \<Longrightarrow> adjust_armed s \<Longrightarrow> to_adjust_cb s = Some s' \<Longrightarrow> dare_step srv_type s s'"
| remote_write: "dare_step srv_type s (do_dma d s)"
| completions: "dare_step srv_type s (s\<lparr>polls := ps, env_rcs := rs\<rparr>)"
| datagram: "dare_step srv_type s (s\<lparr>ud_in := ud_in s @ [m]\<rparr>)"
| command: "dare_step srv_type s (s\<lparr>tailq := tailq s @ [c]\<rparr>)"
| sigint: "dare_step srv_type s (int_handler s)"

end
