(* ===== verification/Dare_Inv.thy ===== *)
theory Dare_Inv
  imports Dare_Main
begin

text \<open>
  An invariant that every operation of a server keeps, with one lemma per operation.  The lemmas for the
  operations that may wait or fail have the form of proof rules for \<open>wp\<close>: a condition on every result.
\<close>

section \<open>Conditions on results\<close>

definition wp :: "'a option \<Rightarrow> ('a \<Rightarrow> bool) \<Rightarrow> bool" where
  "wp r Q = (\<forall>x. r = Some x \<longrightarrow> Q x)"

lemma wp_simps [simp]: "wp None Q" "wp (Some x) Q \<longleftrightarrow> Q x" "wp (Option.bind r f) Q \<longleftrightarrow> wp r (\<lambda>x. wp (f x) Q)"
  "wp (map_option g r) Q \<longleftrightarrow> wp r (\<lambda>x. Q (g x))"
  by (cases r; simp add: wp_def)+

lemma wp_mono: "wp r P \<Longrightarrow> (\<And>x. P x \<Longrightarrow> Q x) \<Longrightarrow> wp r Q"
  by (simp add: wp_def)

text \<open>The rules that take a program apart are \<open>wp_program\<close>; \<open>wp_intros\<close> collects those of the operations.\<close>

named_theorems wp_intros

lemma wp_program:
  "wp r (\<lambda>x. wp (f x) Q) \<Longrightarrow> wp (Option.bind r f) Q" "wp (g u v) Q \<Longrightarrow> wp (case_prod g (u, v)) Q" "Q x \<Longrightarrow> wp (Some x) Q"
  "(b \<Longrightarrow> wp r1 Q) \<Longrightarrow> (\<not> b \<Longrightarrow> wp r2 Q) \<Longrightarrow> wp (if b then r1 else r2) Q" "wp None Q"
  "(\<And>x. x = y \<Longrightarrow> wp (h x) Q) \<Longrightarrow> wp (Let y h) Q" "wp r' (\<lambda>x. Q (k x)) \<Longrightarrow> wp (map_option k r') Q"
  by (simp_all add: split_def)

lemma wpD: "wp r Q \<Longrightarrow> r = Some x \<Longrightarrow> Q x"
  by (simp add: wp_def)

section \<open>The invariant\<close>

text \<open>The steps of the log replication and the states of the queue pairs are those the header files
  define.\<close>

definition server_ok :: "server_t \<Rightarrow> bool" where
  "server_ok v = (LR_GET_WRITE \<le> next_lr_step v \<and> next_lr_step v \<le> LR_UPDATE_END \<and> (\<forall>qp. qp_state (rc_qp v qp) \<le> RC_QP_ERROR))"

text \<open>The parameters of the invariant: whether the server is recovered, a condition on its SID, an upper
  bound of the terms it can have seen, and, for the events after a given trace, the SIDs whose
  replication as a vote is allowed.\<close>

record ctx =
  cx_rec :: bool
  cx_sid :: "u64 \<Rightarrow> bool"
  cx_bnd :: nat
  cx_votes :: "u64 set"
  cx_trace :: "event list"

definition term_of :: "dare_server \<Rightarrow> nat" where
  "term_of s = unat (SID_GET_TERM (sid_of s))"

definition sid_ok :: "ctx \<Rightarrow> u64 \<Rightarrow> bool" where
  "sid_ok c x = (unat (SID_GET_TERM x) \<le> cx_bnd c)"

definition req_ok :: "ctx \<Rightarrow> vote_req_t \<Rightarrow> bool" where
  "req_ok c r = (sid_ok c (vr_sid r) \<and> (cx_rec c \<longrightarrow> \<not> SID_GET_L (vr_sid r)))"

definition ctrl_ok :: "ctx \<Rightarrow> ctrl_data_t \<Rightarrow> bool" where
  "ctrl_ok c d = (length (c_vote_req d) = MAX_SERVER_COUNT \<and> length (c_log_offsets d) = MAX_SERVER_COUNT \<and>
     length (c_sm_rep d) = MAX_SERVER_COUNT \<and> length (c_sm_req d) = MAX_SERVER_COUNT \<and> length (c_hb d) = MAX_SERVER_COUNT \<and>
     length (c_vote_ack d) = MAX_SERVER_COUNT \<and> length (c_rsid d) = MAX_SERVER_COUNT \<and>
     length (c_apply_offsets d) = MAX_SERVER_COUNT \<and> length (c_vote_sid d) = MAX_SERVER_COUNT \<and>
     (\<forall>r\<in>set (c_vote_req d). req_ok c r) \<and> (\<forall>x\<in>set (c_hb d). sid_ok c x) \<and> (\<forall>x\<in>set (c_rsid d). sid_ok c x) \<and>
     (\<forall>r\<in>set (c_sm_rep d). sid_ok c (sr_sid r)) \<and> sid_ok c (c_sid d) \<and> cx_sid c (c_sid d))"

fun dma_ok :: "ctx \<Rightarrow> dma \<Rightarrow> bool" where
  "dma_ok c (DmaVoteReq i r) = req_ok c r"
| "dma_ok c (DmaHb i x) = sid_ok c x"
| "dma_ok c (DmaRsid i x) = sid_ok c x"
| "dma_ok c (DmaSmRep i r) = sid_ok c (sr_sid r)"
| "dma_ok c _ = True"

fun poll_ok :: "ctx \<Rightarrow> poll \<Rightarrow> bool" where
  "poll_ok c (Poll ds wcs) = list_all (dma_ok c) ds"
| "poll_ok c PollError = True"

definition config_ok :: "server_config_t \<Rightarrow> bool" where
  "config_ok f = (length (cfg_servers f) = MAX_SERVER_COUNT \<and> (\<forall>v\<in>set (cfg_servers f). server_ok v))"

definition recovered :: "dare_server \<Rightarrow> bool" where
  "recovered s = (dare_state s AND 0x38 = 0x38 \<and> timer_event s \<in> {ExchangeRcInfo, UpdateRcInfo})"

definition only_votes :: "u64 set \<Rightarrow> event list \<Rightarrow> event list \<Rightarrow> bool" where
  "only_votes X t0 t = (\<exists>tr. t = t0 @ tr \<and> (\<forall>w x. Posted w \<in> set tr \<longrightarrow> wr_op w = WriteVoteSid x \<longrightarrow> x \<in> X))"

definition good :: "ctx \<Rightarrow> dare_server \<Rightarrow> bool" where
  "good c s = (ctrl_ok c (ctrl s) \<and> config_ok (config s) \<and> length (log_nc_buf (slog s)) = MAX_SERVER_COUNT \<and>
     list_all (poll_ok c) (polls s) \<and> sid_ok c (latest_hb_received s) \<and> (cx_rec c \<longrightarrow> recovered s) \<and>
     only_votes (cx_votes c) (cx_trace c) (trace s))"

text \<open>Weaker parameters.\<close>

definition ctx_le :: "ctx \<Rightarrow> ctx \<Rightarrow> bool" where
  "ctx_le c c' = ((cx_rec c' \<longrightarrow> cx_rec c) \<and> (\<forall>x. cx_sid c x \<longrightarrow> cx_sid c' x) \<and> cx_bnd c \<le> cx_bnd c' \<and>
     cx_votes c \<subseteq> cx_votes c' \<and> cx_trace c = cx_trace c')"

lemma ctx_le_refl [simp]: "ctx_le c c"
  by (simp add: ctx_le_def)

lemma poll_ok_mono: "ctx_le c c' \<Longrightarrow> poll_ok c p \<Longrightarrow> poll_ok c' p"
proof -
  assume le: "ctx_le c c'"
  have "dma_ok c d \<Longrightarrow> dma_ok c' d" for d
    using le by (cases d) (auto simp: ctx_le_def sid_ok_def req_ok_def)
  then show "poll_ok c p \<Longrightarrow> poll_ok c' p" by (cases p) (auto simp: list_all_iff)
qed

lemma good_mono: "good c s \<Longrightarrow> ctx_le c c' \<Longrightarrow> good c' s"
  using poll_ok_mono [of c c']
  by (fastforce simp: good_def ctrl_ok_def ctx_le_def sid_ok_def req_ok_def list_all_iff only_votes_def)

section \<open>Updates of the state\<close>

lemma good_upd [simp]:
  "good c (s\<lparr>ssn := a1\<rparr>) \<longleftrightarrow> good c s" "good c (s\<lparr>wa_flag := a2\<rparr>) \<longleftrightarrow> good c s" "good c (s\<lparr>env_rcs := a3\<rparr>) \<longleftrightarrow> good c s"
  "good c (s\<lparr>ud_in := a4\<rparr>) \<longleftrightarrow> good c s" "good c (s\<lparr>halted := a5\<rparr>) \<longleftrightarrow> good c s" "good c (s\<lparr>request_id := a6\<rparr>) \<longleftrightarrow> good c s"
  "good c (s\<lparr>tailq := a7\<rparr>) \<longleftrightarrow> good c s" "good c (s\<lparr>sm := a8\<rparr>) \<longleftrightarrow> good c s" "good c (s\<lparr>endpoints := a9\<rparr>) \<longleftrightarrow> good c s"
  "good c (s\<lparr>prereg_snapshot := b1\<rparr>) \<longleftrightarrow> good c s" "good c (s\<lparr>hb_timeout_tenths := b2\<rparr>) \<longleftrightarrow> good c s"
  "good c (s\<lparr>fp_count := b3\<rparr>) \<longleftrightarrow> good c s" "good c (s\<lparr>total_count := b4\<rparr>) \<longleftrightarrow> good c s" "good c (s\<lparr>poll_armed := b5\<rparr>) \<longleftrightarrow> good c s"
  "good c (s\<lparr>timer_armed := b6\<rparr>) \<longleftrightarrow> good c s" "good c (s\<lparr>adjust_armed := b7\<rparr>) \<longleftrightarrow> good c s" "good c (s\<lparr>prune_armed := b8\<rparr>) \<longleftrightarrow> good c s"
  "good c (s\<lparr>hb_armed := b9\<rparr>) \<longleftrightarrow> good c s" "good c (s\<lparr>hb_event := c1\<rparr>) \<longleftrightarrow> good c s" "good c (s\<lparr>hb_timeout_flag := c2\<rparr>) \<longleftrightarrow> good c s"
  "good c (s\<lparr>leader_failed := c3\<rparr>) \<longleftrightarrow> good c s" "good c (s\<lparr>last_cmt_write_csm_idx := c4\<rparr>) \<longleftrightarrow> good c s"
  "good c (s\<lparr>last_write_csm_idx := c5\<rparr>) \<longleftrightarrow> good c s" "good c (s\<lparr>last_applied_entry := c6\<rparr>) \<longleftrightarrow> good c s"
  "good c (s\<lparr>prev_log_entry_head := c7\<rparr>) \<longleftrightarrow> good c s"
  by (simp_all add: good_def recovered_def)

lemma good_simple [simp]: "good c (halt s) \<longleftrightarrow> good c s" "good c (next_ssn s) \<longleftrightarrow> good c s" "good c (set_cid x s) \<longleftrightarrow> good c s"
  "good c (set_owner y z s) \<longleftrightarrow> good c s"
  by (simp_all add: halt_def next_ssn_def set_cid_def set_owner_def) (simp_all add: good_def config_ok_def recovered_def)

lemma good_slog: "good c s \<Longrightarrow> length (log_nc_buf l) = length (log_nc_buf (slog s)) \<Longrightarrow> good c (s\<lparr>slog := l\<rparr>)"
  by (simp add: good_def recovered_def)

lemma good_config: "good c s \<Longrightarrow> cfg_servers f = cfg_servers (config s) \<Longrightarrow> good c (s\<lparr>config := f\<rparr>)"
  by (simp add: good_def recovered_def config_ok_def)

lemma good_ctrl: "good c s \<Longrightarrow> ctrl_ok c d \<Longrightarrow> good c (s\<lparr>ctrl := d\<rparr>)"
  by (simp add: good_def recovered_def)

lemma goodD:
  assumes "good c s"
  shows "ctrl_ok c (ctrl s)" "list_all (poll_ok c) (polls s)" "sid_ok c (latest_hb_received s)" "cx_rec c \<Longrightarrow> recovered s"
    "sid_ok c (sid_of s)" "cx_sid c (sid_of s)"
  using assms by (auto simp: good_def ctrl_ok_def)

lemma good_polls: "good c s \<Longrightarrow> list_all (poll_ok c) ps \<Longrightarrow> good c (s\<lparr>polls := ps\<rparr>)"
  by (simp add: good_def recovered_def)

lemma good_state_or [simp]: "good c s \<Longrightarrow> good c (s\<lparr>dare_state := dare_state s OR x\<rparr>)"
proof -
  have "d AND 0x38 = 0x38 \<Longrightarrow> (d OR x) AND 0x38 = (0x38 :: u64)" for d
    by (simp add: bit.conj_disj_distrib2 or.commute and.commute)
  then show "good c s \<Longrightarrow> ?thesis" by (auto simp: good_def recovered_def)
qed

lemma good_state_snapshot [simp]: "good c s \<Longrightarrow> good c (s\<lparr>dare_state := dare_state s AND NOT SNAPSHOT\<rparr>)"
proof -
  have "(d AND NOT SNAPSHOT) AND 0x38 = (d AND (0x38 :: u64))" for d
    by (simp add: SNAPSHOT_def and.assoc)
  then show "good c s \<Longrightarrow> ?thesis" by (auto simp: good_def recovered_def)
qed

lemma good_timer: "good c s \<Longrightarrow> \<not> cx_rec c \<or> cb \<in> {ExchangeRcInfo, UpdateRcInfo} \<Longrightarrow> good c (set_timer cb s)"
  by (auto simp: good_def recovered_def set_timer_def)

lemma config_ok_upd:
  assumes "config_ok f" "\<And>v. server_ok v \<Longrightarrow> server_ok (g v)"
  shows "config_ok (f\<lparr>cfg_servers := (cfg_servers f)[i := g (cfg_servers f ! i)]\<rparr>)"
proof (cases "i < length (cfg_servers f)")
  case True
  then have "server_ok (g (cfg_servers f ! i))" using assms by (auto simp: config_ok_def)
  then show ?thesis using assms(1) by (auto simp: config_ok_def dest!: set_update_subset_insert [THEN subsetD])
next
  case False
  then show ?thesis using assms(1) by (simp add: config_ok_def list_update_beyond)
qed

lemma good_upd_srv [simp]: "good c s \<Longrightarrow> (\<And>v. server_ok v \<Longrightarrow> server_ok (f v)) \<Longrightarrow> good c (upd_srv i f s)"
  using config_ok_upd [of "config s" f "unat i"] by (simp add: good_def upd_srv_def recovered_def srv_def)

lemma good_upd_qp [simp]: "good c s \<Longrightarrow> (\<And>q. qp_state q \<le> RC_QP_ERROR \<Longrightarrow> qp_state (f q) \<le> RC_QP_ERROR) \<Longrightarrow> good c (upd_qp i qp f s)"
  unfolding upd_qp_def by (rule good_upd_srv) (auto simp: server_ok_def)

lemma only_votes_emit: "only_votes X t0 t \<Longrightarrow> (\<And>w x. e = Posted w \<Longrightarrow> wr_op w = WriteVoteSid x \<Longrightarrow> x \<in> X) \<Longrightarrow> only_votes X t0 (t @ [e])"
  by (fastforce simp: only_votes_def)

lemma good_emit: "good c s \<Longrightarrow> (\<And>w x. e = Posted w \<Longrightarrow> wr_op w = WriteVoteSid x \<Longrightarrow> x \<in> cx_votes c) \<Longrightarrow> good c (emit e s)"
  by (auto simp: good_def recovered_def emit_def intro: only_votes_emit)

lemma good_posted: "good c s \<Longrightarrow> (\<And>x. wr_op w = WriteVoteSid x \<Longrightarrow> x \<in> cx_votes c) \<Longrightarrow> good c (emit (Posted w) s)"
  by (rule good_emit) auto

lemma good_emit_other [simp]: "good c s \<Longrightarrow> (\<And>w. e \<noteq> Posted w) \<Longrightarrow> good c (emit e s)"
  by (rule good_emit) auto

lemma ctrl_ok_upd:
  assumes "ctrl_ok c d"
  shows "req_ok c r \<Longrightarrow> ctrl_ok c (d\<lparr>c_vote_req := (c_vote_req d)[i := r]\<rparr>)" "ctrl_ok c (d\<lparr>c_log_offsets := (c_log_offsets d)[i := lo]\<rparr>)"
    "sid_ok c (sr_sid sr) \<Longrightarrow> ctrl_ok c (d\<lparr>c_sm_rep := (c_sm_rep d)[i := sr]\<rparr>)" "ctrl_ok c (d\<lparr>c_sm_req := (c_sm_req d)[i := x]\<rparr>)"
    "sid_ok c x \<Longrightarrow> ctrl_ok c (d\<lparr>c_hb := (c_hb d)[i := x]\<rparr>)" "ctrl_ok c (d\<lparr>c_vote_ack := (c_vote_ack d)[i := x]\<rparr>)"
    "sid_ok c x \<Longrightarrow> ctrl_ok c (d\<lparr>c_rsid := (c_rsid d)[i := x]\<rparr>)" "ctrl_ok c (d\<lparr>c_apply_offsets := (c_apply_offsets d)[i := x]\<rparr>)"
    "ctrl_ok c (d\<lparr>c_vote_sid := (c_vote_sid d)[i := x]\<rparr>)"
    "sid_ok c x \<Longrightarrow> cx_sid c x \<Longrightarrow> ctrl_ok c (d\<lparr>c_sid := x\<rparr>)"
  using assms by (auto simp: ctrl_ok_def dest!: set_update_subset_insert [THEN subsetD])

lemma sid_ok_0 [simp]: "sid_ok c 0"
  by (simp add: sid_ok_def SID_GET_TERM_def)

lemmas good_slots = good_ctrl [OF _ ctrl_ok_upd(1) [OF goodD(1)]] good_ctrl [OF _ ctrl_ok_upd(2) [OF goodD(1)]]
  good_ctrl [OF _ ctrl_ok_upd(3) [OF goodD(1)]] good_ctrl [OF _ ctrl_ok_upd(4) [OF goodD(1)]]
  good_ctrl [OF _ ctrl_ok_upd(5) [OF goodD(1)]] good_ctrl [OF _ ctrl_ok_upd(6) [OF goodD(1)]]
  good_ctrl [OF _ ctrl_ok_upd(7) [OF goodD(1)]] good_ctrl [OF _ ctrl_ok_upd(8) [OF goodD(1)]]
  good_ctrl [OF _ ctrl_ok_upd(9) [OF goodD(1)]] good_ctrl [OF _ ctrl_ok_upd(10) [OF goodD(1)]]

lemma good_do_dma: "good c s \<Longrightarrow> dma_ok c d \<Longrightarrow> good c (do_dma d s)"
  by (cases d) (auto intro!: good_slots good_slog)

lemma good_fold_dma: "good c s \<Longrightarrow> list_all (dma_ok c) ds \<Longrightarrow> good c (fold do_dma ds s)"
  by (induction ds arbitrary: s) (auto intro: good_do_dma)

lemma good_next_rc [simp]: "good c s \<Longrightarrow> good c (snd (next_rc s))"
  by (simp add: next_rc_def split: list.split)

lemma good_server_update_sid:
  "good c s \<Longrightarrow> sid_ok c x \<Longrightarrow> cx_sid c x \<Longrightarrow> good c (server_update_sid x y s)"
  by (auto simp: server_update_sid_def intro: good_slots)

section \<open>The connection layer\<close>

lemma qp_states_le [simp]: "RC_QP_ACTIVE \<le> RC_QP_ERROR" "RC_QP_BLOCKED \<le> RC_QP_ERROR"
  by (simp_all add: RC_QP_ACTIVE_def RC_QP_BLOCKED_def RC_QP_ERROR_def)

lemma good_modify_qp [simp]: "good c s \<Longrightarrow> good c (snd (modify_qp i qp st s))"
  by (simp add: modify_qp_def Let_def split_def)

lemma good_qp_steps [simp]:
  assumes "good c s"
  shows "good c (snd (rc_qp_reset i qp s))" "good c (snd (rc_qp_reset_to_init i qp s))"
    "good c (snd (rc_qp_init_to_rtr i qp s))" "good c (snd (rc_qp_rtr_to_rts i qp s))"
  using assms by (simp_all add: rc_qp_reset_def rc_qp_reset_to_init_def rc_qp_init_to_rtr_def rc_qp_rtr_to_rts_def)

lemma good_qp_restart [simp]: "good c s \<Longrightarrow> good c (snd (rc_qp_restart i qp s))"
  by (simp add: rc_qp_restart_def Let_def split_def)

lemma good_qp_reset_to_rts [simp]: "good c s \<Longrightarrow> good c (snd (rc_qp_reset_to_rts i qp s))"
  by (simp add: rc_qp_reset_to_rts_def Let_def split_def)

lemma server_ok_upd [simp]: "server_ok (v\<lparr>ep_lid := a\<rparr>) = server_ok v" "server_ok (v\<lparr>rc_connected := b\<rparr>) = server_ok v"
  "server_ok (v\<lparr>ep_ah := b\<rparr>) = server_ok v" "server_ok (v\<lparr>log_access := b\<rparr>) = server_ok v" "server_ok (v\<lparr>fail_count := d\<rparr>) = server_ok v"
  "server_ok (v\<lparr>last_get_read_ssn := e\<rparr>) = server_ok v" "server_ok (v\<lparr>send_flag := b\<rparr>) = server_ok v"
  "server_ok (v\<lparr>send_count := d\<rparr>) = server_ok v" "server_ok (v\<lparr>cached_end_offset := e\<rparr>) = server_ok v"
  "server_ok (v\<lparr>next_wr_id := e\<rparr>) = server_ok v" "server_ok (v\<lparr>ep_gid := f\<rparr>) = server_ok v"
  "server_ok (v\<lparr>ep_ud_qpn := g\<rparr>) = server_ok v" "server_ok (v\<lparr>rmt_mr := h\<rparr>) = server_ok v" "server_ok (v\<lparr>ep_mtu := g\<rparr>) = server_ok v"
  by (simp_all add: server_ok_def)

lemma lr_step_range [simp]: "LR_GET_WRITE \<le> LR_UPDATE_END" "LR_GET_WRITE \<le> LR_GET_NCE_LEN" "LR_GET_NCE_LEN \<le> LR_UPDATE_END"
  "LR_GET_WRITE \<le> LR_UPDATE_LOG" "LR_UPDATE_LOG \<le> LR_UPDATE_END"
  by (simp_all add: LR_GET_WRITE_def LR_UPDATE_END_def LR_GET_NCE_LEN_def LR_UPDATE_LOG_def)

lemma server_ok_step: "server_ok v \<Longrightarrow> LR_GET_WRITE \<le> k \<Longrightarrow> k \<le> LR_UPDATE_END \<Longrightarrow> server_ok (v\<lparr>next_lr_step := k\<rparr>)"
  by (simp add: server_ok_def)

lemma good_disconnect [simp]: "good c s \<Longrightarrow> good c (snd (rc_disconnect_server i s))" "good c s \<Longrightarrow> good c (dare_ib_disconnect_server i s)"
  by (simp_all add: rc_disconnect_server_def dare_ib_disconnect_server_def Let_def split_def)

lemma good_revoke_loop: "good c s \<Longrightarrow> good c (snd (revoke_loop is s))"
  by (induction "is" arbitrary: s) (simp_all add: Let_def split_def)

lemma good_restore_loop: "good c s \<Longrightarrow> good c (snd (restore_loop is s))"
  by (induction "is" arbitrary: s) (simp_all add: Let_def split_def)

lemma good_log_access [simp]: "good c s \<Longrightarrow> good c (snd (rc_revoke_log_access s))" "good c s \<Longrightarrow> good c (snd (rc_restore_log_access s))"
  by (simp_all add: rc_revoke_log_access_def rc_restore_log_access_def Let_def split_def good_revoke_loop good_restore_loop)

lemma server_ok_lr_advance: "server_ok v \<Longrightarrow> server_ok (lr_advance rc v)"
proof -
  have "LR_GET_WRITE \<le> k \<Longrightarrow> k \<le> LR_UPDATE_END \<Longrightarrow> k \<noteq> LR_UPDATE_END \<Longrightarrow> LR_GET_WRITE \<le> k + 1 \<and> k + 1 \<le> LR_UPDATE_END" for k
    unfolding LR_GET_WRITE_def LR_UPDATE_END_def word_le_nat_alt word_unat_eq_iff unat_word_ariths by simp
  then show "server_ok v \<Longrightarrow> ?thesis"
    by (simp add: lr_advance_def server_ok_def)
qed

lemma good_handle_lr [simp]: "good c s \<Longrightarrow> good c (handle_lr_work_completion w rc s)"
  by (simp add: handle_lr_work_completion_def Let_def server_ok_lr_advance)

lemma server_ok_qp: "server_ok v \<Longrightarrow> qp_state q \<le> RC_QP_ERROR \<Longrightarrow> server_ok (v\<lparr>rc_qp := (rc_qp v)(qp := q)\<rparr>)"
  by (simp add: server_ok_def)

lemma server_ok_signaled: "server_ok v \<Longrightarrow> server_ok (snd (snd (check_signaled qp w (note_read_ssn qp w v))))"
proof -
  have 1: "server_ok v \<Longrightarrow> server_ok (note_read_ssn qp w v)" for v by (simp add: note_read_ssn_def)
  have 2: "server_ok v \<Longrightarrow> qp_state (rc_qp v qp) \<le> RC_QP_ERROR" for v by (simp add: server_ok_def)
  have "server_ok v \<Longrightarrow> server_ok (snd (snd (check_signaled qp w v)))" for v
    by (simp add: check_signaled_def Let_def server_ok_qp 2)
  then show "server_ok v \<Longrightarrow> ?thesis" using 1 by blast
qed

lemma good_signaled [simp]:
  assumes "good c s"
  shows "good c (upd_srv i (\<lambda>_. snd (snd (check_signaled qp w (note_read_ssn qp w (srv s i))))) s)"
proof -
  let ?f = "\<lambda>v. snd (snd (check_signaled qp w (note_read_ssn qp w v)))"
  have "upd_srv i (\<lambda>_. ?f (srv s i)) s = upd_srv i ?f s" by (simp add: upd_srv_def)
  then show ?thesis using good_upd_srv [OF assms, of ?f i] server_ok_signaled by metis
qed

lemma server_ok_fail_send [simp]: "server_ok v \<Longrightarrow> server_ok (fail_send qp b v)"
  by (simp add: fail_send_def Let_def server_ok_def)

lemma good_ecq_wc: "good c (snd (snd x)) \<Longrightarrow> good c (snd (snd (ecq_wc i qp wc x)))"
  by (simp add: ecq_wc_def Let_def split_def split: wc_rc.split)

lemma good_fold_ecq: "good c (snd (snd x)) \<Longrightarrow> good c (snd (snd (fold (ecq_wc i qp) wcs x)))"
  by (induction wcs arbitrary: x) (simp_all add: good_ecq_wc)

lemma good_ecq_loop:
  "good c s \<Longrightarrow> list_all (poll_ok c) ps \<Longrightarrow> wp (ecq_loop ps i qp (w, p, s)) (\<lambda>(rc, p, s). good c s)"
proof (induction ps arbitrary: w p s)
  case (Cons q ps)
  show ?case
  proof (cases q)
    case (Poll ds wcs)
    have d: "good c (fold do_dma ds s)" using Cons.prems Poll by (auto intro: good_fold_dma)
    obtain w' p' s' where f: "fold (ecq_wc i qp) wcs (w, p, fold do_dma ds s) = (w', p', s')" by (metis prod_cases3)
    have "good c s'" using good_fold_ecq [of c "(w, p, fold do_dma ds s)"] d f by (metis snd_conv)
    then show ?thesis using Cons d Poll f by (auto intro!: good_polls)
  qed (use Cons.prems in \<open>auto intro!: good_polls\<close>)
qed (auto intro!: good_polls)

lemma good_pair: "good c (snd e) \<Longrightarrow> (\<And>r s. good c s \<Longrightarrow> wp (f r s) Q) \<Longrightarrow> wp (Let e (\<lambda>(r, s). f r s)) Q"
  by (simp add: split_def)

lemma good_let [wp_intros]: "good c a \<Longrightarrow> (\<And>s. good c s \<Longrightarrow> wp (f s) Q) \<Longrightarrow> wp (Let a f) Q"
  by simp

lemmas good_pairs [wp_intros] = good_pair [OF good_next_rc] good_pair [OF good_log_access(1)] good_pair [OF good_log_access(2)]

lemma good_empty_completion_queue [wp_intros]:
  "good c s \<Longrightarrow> (\<And>rc p s'. good c s' \<Longrightarrow> Q (rc, p, s')) \<Longrightarrow> wp (empty_completion_queue i qp w p s) Q"
  unfolding empty_completion_queue_def by (rule wp_mono [OF good_ecq_loop]) (auto dest: goodD(2))

lemma good_guard:
  assumes "guard_send_queue n w (rc_qp (srv s i) qp) = (x, y, z, q)" "good c s"
  shows "good c (upd_qp i qp (\<lambda>_. q) s)"
proof -
  let ?f = "\<lambda>q. snd (snd (snd (guard_send_queue n w q)))"
  have "qp_state (?f q) = qp_state q" for q by (simp add: guard_send_queue_def Let_def)
  moreover have "upd_qp i qp (\<lambda>_. q) s = upd_qp i qp ?f s" using assms(1) by (simp add: upd_qp_def upd_srv_def)
  ultimately show ?thesis using good_upd_qp [OF assms(2), of ?f] by metis
qed

lemma wp_case4: "(\<And>a b d e. p = (a, b, d, e) \<Longrightarrow> wp (f a b d e) Q) \<Longrightarrow> wp (Let p (\<lambda>(a, b, d, e). f a b d e)) Q"
  by (cases p) simp

lemma good_post_send [wp_intros]:
  assumes "good c s" "\<And>x. oper = WriteVoteSid x \<Longrightarrow> x \<in> cx_votes c" "\<And>rc p s'. good c s' \<Longrightarrow> Q (rc, p, s')"
  shows "wp (post_send i qp oper sg p s) Q"
  unfolding post_send_def
  by (intro wp_case4 wp_intros [where c = c] wp_program good_posted | simp only: prod.case |
      (simp add: assms good_guard; fail))+

lemma good_wfm_wc: "good c (snd (snd (snd x))) \<Longrightarrow> good c (snd (snd (snd (wfm_wc n qp st wc x))))"
  by (simp add: wfm_wc_def Let_def split_def split: wc_rc.split)

lemma good_fold_wfm: "good c (snd (snd (snd x))) \<Longrightarrow> good c (snd (snd (snd (fold (wfm_wc n qp st) wcs x))))"
  by (induction wcs arbitrary: x) (simp_all add: good_wfm_wc)

lemma good_wfo_wc: "good c (snd (snd (snd x))) \<Longrightarrow> good c (snd (snd (snd (wfo_wc qp st wc x))))"
  by (simp add: wfo_wc_def Let_def split_def split: wc_rc.split)

lemma good_fold_wfo: "good c (snd (snd (snd x))) \<Longrightarrow> good c (snd (snd (snd (fold (wfo_wc qp st) wcs x))))"
  by (induction wcs arbitrary: x) (simp_all add: good_wfo_wc)

lemma good_wfm_loop:
  "good c s \<Longrightarrow> list_all (poll_ok c) ps \<Longrightarrow> wp (wfm_loop ps n qp (k, m, p, s)) (\<lambda>(rc, a, b, p, s). good c s)"
proof (induction ps arbitrary: k m p s)
  case Nil
  then show ?case by (simp add: wfm_loop.simps good_polls)
next
  case (Cons q ps)
  show ?case
  proof (cases q)
    case (Poll ds wcs)
    let ?x = "(k, m, p, fold do_dma ds s)"
    obtain k' m' p' s' where f: "fold (wfm_wc n qp (wc_status (hd wcs))) (take (length wcs mod 256) wcs) ?x = (k', m', p', s')"
      by (metis prod_cases4)
    have "good c (fold do_dma ds s)" using Cons.prems Poll by (auto intro: good_fold_dma)
    then have "good c s'" using good_fold_wfm [of c ?x] f by (metis snd_conv)
    then show ?thesis using Cons Poll f by (simp add: wfm_loop.simps [of "_ # _"] Let_def good_polls)
  qed (use Cons.prems in \<open>simp add: wfm_loop.simps good_polls\<close>)
qed

lemma good_wfo_loop:
  "good c s \<Longrightarrow> list_all (poll_ok c) ps \<Longrightarrow> wp (wfo_loop ps qp (k, m, p, s)) (\<lambda>(rc, a, p, s). good c s)"
proof (induction ps arbitrary: k m p s)
  case Nil
  then show ?case by (simp add: wfo_loop.simps good_polls)
next
  case (Cons q ps)
  show ?case
  proof (cases q)
    case (Poll ds wcs)
    let ?x = "(k, m, p, fold do_dma ds s)"
    obtain k' m' p' s' where f: "fold (wfo_wc qp (wc_status (hd wcs))) (take (length wcs mod 256) wcs) ?x = (k', m', p', s')"
      by (metis prod_cases4)
    have "good c (fold do_dma ds s)" using Cons.prems Poll by (auto intro: good_fold_dma)
    then have "good c s'" using good_fold_wfo [of c ?x] f by (metis snd_conv)
    then show ?thesis using Cons Poll f by (auto simp: wfo_loop.simps [of "_ # _"] Let_def good_polls)
  qed (use Cons.prems in \<open>simp add: wfo_loop.simps good_polls\<close>)
qed

lemma good_wait_loops [wp_intros]:
  assumes "good c s"
  shows "(\<And>rc a b p s'. good c s' \<Longrightarrow> Q (rc, a, b, p, s')) \<Longrightarrow> wp (wfm_loop (polls s) n qp (k, m, p, s)) Q"
    "(\<And>rc a p s'. good c s' \<Longrightarrow> Q' (rc, a, p, s')) \<Longrightarrow> wp (wfo_loop (polls s) qp (k, m, p, s)) Q'"
  using good_wfm_loop [OF assms goodD(2) [OF assms], of n qp k m p] good_wfo_loop [OF assms goodD(2) [OF assms], of qp k m p]
  by (auto simp: wp_def)

lemma good_wait_for_majority [wp_intros]:
  assumes "good c s" "\<And>rc p s'. good c s' \<Longrightarrow> Q (rc, p, s')"
  shows "wp (wait_for_majority p qp s) Q"
  unfolding wait_for_majority_def
  by (intro wp_intros [where c = c] wp_program | simp only: prod.case | (simp add: assms; fail))+

lemma good_wait_for_one [wp_intros]:
  assumes "good c s" "\<And>rc p s'. good c s' \<Longrightarrow> Q (rc, p, s')"
  shows "wp (wait_for_one p qp s) Q"
  unfolding wait_for_one_def
  by (intro wp_intros [where c = c] wp_program | simp only: prod.case | (simp add: assms; fail))+

lemma good_post_all [wp_intros]:
  assumes "good c s" "\<And>x. oper = WriteVoteSid x \<Longrightarrow> x \<in> cx_votes c" "\<And>rc p s'. good c s' \<Longrightarrow> Q (rc, p, s')"
  shows "wp (post_all qp sg oper is p s) Q"
  using assms(1)
proof (induction "is" arbitrary: p s)
  case (Cons i "is")
  show ?case
    unfolding post_all.simps
    by (intro wp_intros [where c = c] wp_program Cons.IH | simp only: prod.case | (simp add: assms Cons.prems; fail))+
qed (simp add: assms)

end
