(* ===== verification/Dare_Inv_Ops.thy ===== *)
theory Dare_Inv_Ops
  imports Dare_Inv Dare_Frame
begin

text \<open>
  The invariant of \<open>Dare_Inv\<close> for the messages of the control QP, for elections, the answers to
  clients, reconfiguration, pruning and log replication.
\<close>

declare One_nat_def [simp del]

section \<open>Messages\<close>

lemma wp_any: "(\<And>x. Q x) \<Longrightarrow> wp r Q"
  by (simp add: wp_def)

lemma wp_any2: "(\<And>x y. Q (x, y)) \<Longrightarrow> wp r Q"
  by (auto simp: wp_def)

lemma wp_any3: "(\<And>x y z. Q (x, y, z)) \<Longrightarrow> wp r Q"
  by (auto simp: wp_def)

lemma good_fold [simp]: "good c s \<Longrightarrow> (\<And>i s. good c s \<Longrightarrow> good c (f i s)) \<Longrightarrow> good c (fold f is s)"
  by (induction "is" arbitrary: s) simp_all

lemma good_rc_send_hb [wp_intros]:
  assumes "good c s" "\<And>rc s'. good c s' \<Longrightarrow> Q (rc, s')"
  shows "wp (rc_send_hb s) Q"
  unfolding rc_send_hb_def
  by (intro wp_intros [where c = c] wp_program | simp only: prod.case | (simp add: assms; fail))+

lemma good_rc_send_hb_reply [wp_intros]:
  assumes "good c s" "\<And>rc s'. good c s' \<Longrightarrow> Q (rc, s')"
  shows "wp (rc_send_hb_reply i s) Q"
  unfolding rc_send_hb_reply_def
  by (intro wp_intros [where c = c] wp_program | simp only: prod.case | (simp add: assms; fail))+

text \<open>A vote request has the server's own SID; only a candidate sends it.\<close>

lemma good_rc_send_vote_request [wp_intros]:
  assumes "good c s" "cx_rec c \<Longrightarrow> \<forall>x. cx_sid c x \<longrightarrow> \<not> SID_GET_L x" "\<And>rc s'. good c s' \<Longrightarrow> Q (rc, s')"
  shows "wp (rc_send_vote_request s) Q"
proof -
  have r: "req_ok c \<lparr>vr_sid = sid_of s, vr_index = n, vr_term = t, vr_cid = d\<rparr>" for n t d
    using goodD(5,6) [OF assms(1)] assms(2) by (auto simp: req_ok_def)
  show ?thesis
    unfolding rc_send_vote_request_def
    by (intro wp_any2 [where r = "last_entry_of _"] good_slots wp_intros [where c = c] wp_program | simp only: prod.case |
        (simp add: assms r; fail))+
qed

lemma good_rc_replicate_vote [wp_intros]:
  assumes "good c s" "\<And>x. cx_sid c x \<Longrightarrow> x \<in> cx_votes c" "\<And>rc s'. good c s' \<Longrightarrow> Q (rc, s')"
  shows "wp (rc_replicate_vote s) Q"
  unfolding rc_replicate_vote_def
  by (intro good_slots wp_intros [where c = c] wp_program | simp only: prod.case |
      (simp add: assms; fail) | (auto intro!: assms(2) dest!: goodD(6); fail))+

lemma good_rc_send_vote_ack [wp_intros]:
  assumes "good c s" "\<And>rc s'. good c s' \<Longrightarrow> Q (rc, s')"
  shows "wp (rc_send_vote_ack s) Q"
  unfolding rc_send_vote_ack_def
  by (intro wp_intros [where c = c] wp_program | simp only: prod.case | (simp add: assms; fail))+

section \<open>Elections\<close>

text \<open>Conditions on the SID that a larger term keeps, and the bound after one more election.  There is
  room for an election when no term seen is the last one, or when the terms do not matter.\<close>

definition upward :: "ctx \<Rightarrow> bool" where
  "upward c = (\<forall>x y. SID_GET_TERM x \<le> SID_GET_TERM y \<longrightarrow> cx_sid c x \<longrightarrow> cx_sid c y)"

definition up :: "nat \<Rightarrow> ctx \<Rightarrow> ctx" where
  "up n c = c\<lparr>cx_bnd := cx_bnd c + n\<rparr>"

definition room :: "nat \<Rightarrow> ctx \<Rightarrow> bool" where
  "room n c = (cx_bnd c + n < 2 ^ 55 \<or> 2 ^ 55 \<le> cx_bnd c \<and> (\<forall>x. cx_sid c x))"

lemma ctx_le_up [simp]: "ctx_le c (up n c)"
  by (simp add: ctx_le_def up_def)

lemma good_up: "good c s \<Longrightarrow> good (up n c) s"
  by (rule good_mono [OF _ ctx_le_up])

lemma up_sel [simp]: "cx_rec (up n c) = cx_rec c" "cx_sid (up n c) = cx_sid c" "cx_votes (up n c) = cx_votes c"
  "cx_trace (up n c) = cx_trace c" "cx_bnd (up n c) = cx_bnd c + n" "upward (up n c) = upward c" "up m (up n c) = up (n + m) c"
  by (simp_all add: up_def upward_def)

lemma poll_ok_sid [simp]: "poll_ok (c\<lparr>cx_sid := P\<rparr>) p = poll_ok c p"
proof -
  have "dma_ok (c\<lparr>cx_sid := P\<rparr>) d = dma_ok c d" for d by (cases d) (simp_all add: sid_ok_def req_ok_def)
  then show ?thesis by (cases p) (simp_all add: list_all_iff)
qed

lemma good_set_sid:
  assumes "good c s" "cx_rec c' = cx_rec c" "cx_votes c' = cx_votes c" "cx_trace c' = cx_trace c" "cx_bnd c \<le> cx_bnd c'"
    "sid_ok c' x" "cx_sid c' x"
  shows "good c' (server_update_sid x (sid_of s) s)"
proof -
  let ?d = "c'\<lparr>cx_sid := \<lambda>_. True\<rparr>"
  have "good ?d s" by (rule good_mono [OF assms(1)]) (simp add: ctx_le_def assms)
  then have "good ?d (server_update_sid x (sid_of s) s)"
    using assms(6) by (auto intro: good_server_update_sid simp: sid_ok_def)
  then show ?thesis
    using assms(7) by (simp add: good_def ctrl_ok_def server_update_sid_def sid_ok_def req_ok_def list_all_iff)
qed

lemma candidate_sid_ok:
  assumes "good c s" "upward c" "room 1 c"
  defines "x \<equiv> SID_SET_IDX (SID_UNSET_L (SID_SET_TERM 0 (SID_GET_TERM (sid_of s) + 1))) (idx_of s)"
  shows "sid_ok (up 1 c) x" "cx_sid c x" "\<not> SID_GET_L x"
proof -
  let ?t = "SID_GET_TERM (sid_of s)"
  show "\<not> SID_GET_L x" by (simp add: x_def)
  have small: "unat (SID_GET_TERM x) = unat ?t + 1 \<and> ?t \<le> SID_GET_TERM x" if "cx_bnd c + 1 < 2 ^ 55"
  proof -
    have t: "unat ?t + 1 < 2 ^ 55" using goodD(5) [OF assms(1)] that by (simp add: sid_ok_def)
    then have "unat (?t + 1) = unat ?t + 1" by (simp add: unat_word_ariths)
    then show ?thesis using t by (simp add: x_def word_le_nat_alt)
  qed
  have "unat (SID_GET_TERM x) < 2 ^ 55" by (rule SID_GET_TERM_bound)
  then show "sid_ok (up 1 c) x"
    using small assms(3) goodD(5) [OF assms(1)] by (auto simp: room_def sid_ok_def)
  show "cx_sid c x" using small assms(2,3) goodD(6) [OF assms(1)] by (auto simp: room_def upward_def)
qed

lemma good_start_election [wp_intros]:
  assumes "good c s" "upward c" "room 1 c" "\<And>s'. good (up 1 c) s' \<Longrightarrow> Q s'"
  shows "wp (start_election s) Q"
proof -
  define x where "x = SID_SET_IDX (SID_UNSET_L (SID_SET_TERM 0 (SID_GET_TERM (sid_of s) + 1))) (idx_of s)"
  define d where "d = (up 1 c)\<lparr>cx_sid := \<lambda>y. y = x\<rparr>"
  note x = candidate_sid_ok [OF assms(1-3), folded x_def]
  have d: "good d (server_update_sid x (sid_of s) s)"
    by (rule good_set_sid [OF assms(1)]) (use x(1) in \<open>simp_all add: d_def sid_ok_def\<close>)
  have q: "good d s' \<Longrightarrow> Q s'" for s'
    by (rule assms(4), erule good_mono) (simp add: d_def ctx_le_def x(2))
  have req: "\<forall>y. cx_sid d y \<longrightarrow> \<not> SID_GET_L y" by (simp add: d_def x(3))
  have f: "good d t \<Longrightarrow> good d (fold (\<lambda>i s. upd_srv i (\<lambda>v. v\<lparr>next_lr_step := LR_GET_WRITE, send_flag := True\<rparr>)
      (s\<lparr>ctrl := (ctrl s)\<lparr>c_vote_ack := (c_vote_ack (ctrl s))[unat i := log_len (slog s)]\<rparr>\<rparr>)) is t)" for t "is"
    by (rule good_fold) (auto intro!: good_upd_srv good_slots server_ok_step)
  show ?thesis
    unfolding start_election_def x_def [symmetric] Let_def [of x]
    by (intro wp_intros [where c = d] wp_program | simp only: prod.case | (simp add: d f req q; fail))+
qed

lemma good_stop_leading [simp]: "good c (stop_leading s) \<longleftrightarrow> good c s"
  by (simp add: stop_leading_def Let_def)

lemma good_set_own_nc [simp]: "good c s \<Longrightarrow> good c (set_own_nc nc s)"
  by (simp add: set_own_nc_def good_slog)

lemma good_ack_and_wait [wp_intros]:
  assumes "good c s" "upward c" "room 1 c" "\<And>s'. good (up 1 c) s' \<Longrightarrow> Q s'"
  shows "wp (ack_and_wait s) Q"
proof -
  have q: "good c s' \<Longrightarrow> Q s'" for s' by (rule assms(4)) (rule good_up)
  show ?thesis
    unfolding ack_and_wait_def
    by (intro wp_intros [where c = c] wp_program | simp only: prod.case | (simp add: assms q; fail))+
qed

lemma good_server_to_follower [wp_intros]:
  assumes "good c s" "upward c" "room 1 c" "\<And>s'. good (up 1 c) s' \<Longrightarrow> Q s'"
  shows "wp (server_to_follower s) Q"
proof -
  have q: "good c s' \<Longrightarrow> Q s'" for s' by (rule assms(4)) (rule good_up)
  show ?thesis
    unfolding server_to_follower_def
    by (intro wp_any [where r = "log_entries_to_nc_buf _ _"] wp_intros [where c = c] wp_program | simp only: prod.case |
        (simp add: assms q; fail))+
qed

lemma unat_less_group: "i < get_group_size (cid_of s) \<Longrightarrow> fits_arrays s \<Longrightarrow> unat i < MAX_SERVER_COUNT"
  by (simp add: fits_arrays_def word_less_nat_alt)

lemma better_sid_fold:
  assumes "good c s" "fits_arrays s" "\<forall>i\<in>set is. i < get_group_size (cid_of s)" "sid_ok c x"
  shows "sid_ok c (fold (better_sid me p (c_rsid (ctrl s))) is x) \<and> x \<le> fold (better_sid me p (c_rsid (ctrl s))) is x"
  using assms(3,4)
proof (induction "is" arbitrary: x)
  case (Cons i "is")
  let ?r = "c_rsid (ctrl s) ! unat i"
  have "unat i < length (c_rsid (ctrl s))"
    using Cons.prems(1) unat_less_group [OF _ assms(2)] goodD(1) [OF assms(1)] by (simp add: ctrl_ok_def)
  then have "sid_ok c ?r" using goodD(1) [OF assms(1)] by (auto simp: ctrl_ok_def)
  then have "sid_ok c (better_sid me p (c_rsid (ctrl s)) i x)" "x \<le> better_sid me p (c_rsid (ctrl s)) i x"
    using Cons.prems(2) by (auto simp: better_sid_def)
  then show ?case using Cons.IH [of "better_sid me p (c_rsid (ctrl s)) i x"] Cons.prems(1) by auto
qed simp

lemma good_upward_sid:
  "good c s \<Longrightarrow> upward c \<Longrightarrow> sid_ok c x \<Longrightarrow> SID_GET_TERM (sid_of s) \<le> SID_GET_TERM x \<Longrightarrow> good c (server_update_sid x y s)"
  by (rule good_server_update_sid) (auto simp: upward_def dest: goodD(6))

lemma good_read_remote_sids [wp_intros]:
  assumes "good c s" "upward c"
    "\<And>rc r s'. good c s' \<Longrightarrow> (case r of Inl x \<Rightarrow> good c (server_update_sid x (sid_of s') s') | Inr _ \<Rightarrow> True) \<Longrightarrow> Q (rc, r, s')"
  shows "wp (read_remote_sids s) Q"
proof -
  have f: "good c (server_update_sid (fold (better_sid (idx_of t) p (c_rsid (ctrl t))) (group_of t) (sid_of t)) (sid_of t) t)"
    if "good c t" "fits_arrays t" for t p
    using better_sid_fold [OF that, of "group_of t" "sid_of t" "idx_of t" p] goodD(5) [OF that(1)]
    by (auto intro!: good_upward_sid [OF that(1) assms(2)] sid_le_imp_term_le)
  show ?thesis
    unfolding read_remote_sids_def
    by (intro wp_intros [where c = c] wp_program assms(3) | simp only: prod.case | (simp add: assms(1) f; fail))+
qed

lemma wp_cases:
  "(\<And>x. r = Inl x \<Longrightarrow> wp (f x) Q) \<Longrightarrow> (\<And>y. r = Inr y \<Longrightarrow> wp (g y) Q) \<Longrightarrow> wp (case_sum f g r) Q"
  "(z = None \<Longrightarrow> wp n Q) \<Longrightarrow> (\<And>y. z = Some y \<Longrightarrow> wp (h y) Q) \<Longrightarrow> wp (case_option n h z) Q"
  by (auto split: sum.split option.split)

lemma good_rc_verify_leadership [wp_intros]:
  assumes "good c s" "upward c" "room 1 c" "\<And>rc l s'. (l \<Longrightarrow> good c s') \<Longrightarrow> good (up 1 c) s' \<Longrightarrow> Q (rc, l, s')"
  shows "wp (rc_verify_leadership s) Q"
proof -
  have q: "good c s' \<Longrightarrow> Q (rc, l, s')" for rc l s' by (rule assms(4)) (simp_all add: good_up)
  have q': "good (up 1 c) s' \<Longrightarrow> Q (rc, False, s')" for rc s' by (rule assms(4)) simp_all
  show ?thesis
    unfolding rc_verify_leadership_def
    by (intro wp_intros [where c = c] wp_program wp_cases | simp only: prod.case | (simp add: assms(1-3) q q'; fail))+
qed

section \<open>Answers to clients\<close>

lemma good_send_dgram [simp]: "good c s \<Longrightarrow> (\<And>w. ev \<noteq> Posted w) \<Longrightarrow> good c (snd (send_dgram ev s))"
  by (simp add: send_dgram_def Let_def split_def)

lemma good_messages [simp]: "good c s \<Longrightarrow> good c (snd (ud_send_message lid len m s))"
  "good c s \<Longrightarrow> good c (snd (mcast_send_message len m s))"
  by (simp_all add: ud_send_message_def mcast_send_message_def)

lemmas good_message_pairs [wp_intros] = good_pair [OF good_messages(1)] good_pair [OF good_messages(2)]

lemma good_ud_clt_answer_read_request [wp_intros]:
  assumes "good c s" "\<And>s'. good c s' \<Longrightarrow> Q s'"
  shows "wp (ud_clt_answer_read_request ep s) Q"
  unfolding ud_clt_answer_read_request_def
  by (intro wp_any3 [where r = "apply_kvs_cmd _ _ _ _"] wp_intros [where c = c] wp_program | simp only: prod.case |
      (simp add: assms; fail))+

lemma good_ud_send_clt_reply [wp_intros]:
  assumes "good c s" "\<And>rc s'. good c s' \<Longrightarrow> Q (rc, s')"
  shows "wp (ud_send_clt_reply lid r t s) Q"
proof -
  have q: "good c (snd x) \<Longrightarrow> Q x" for x using assms(2) [of "snd x" "fst x"] by simp
  show ?thesis
    unfolding ud_send_clt_reply_def
    by (intro wp_any [where r = "ep_search _ _"] wp_intros [where c = c] wp_program | simp only: prod.case |
        (simp add: assms(1) q; fail))+
qed

lemma good_reply_loop:
  assumes "upward c" "room 1 c" "\<And>s'. good (up 1 c) s' \<Longrightarrow> Q s'"
  shows "good c s \<Longrightarrow> wp (reply_loop eps idx v s) Q"
proof (induction eps arbitrary: v s)
  case (Cons ep eps)
  show ?case
    unfolding reply_loop.simps
    by (intro wp_intros [where c = c] wp_program Cons.IH | simp only: prod.case |
        (simp add: assms Cons.prems good_up; fail))+
qed (simp add: assms good_up)

lemma good_ep_dp_reply_read_req [wp_intros]:
  assumes "good c s" "upward c" "room 1 c" "\<And>s'. good (up 1 c) s' \<Longrightarrow> Q s'"
  shows "wp (ep_dp_reply_read_req idx s) Q"
  unfolding ep_dp_reply_read_req_def by (rule good_reply_loop [OF assms(2,3,4,1)])

section \<open>Reconfiguration\<close>

lemma nc_buf_put_entry: "log_nc_buf (snd (log_put_entry l i t r k ty d)) = log_nc_buf l"
  by (simp add: log_put_entry_def log_finish_entry_def Let_def split: option.split)

lemma good_append_entry [wp_intros]:
  assumes "good c s" "\<And>i s'. good c s' \<Longrightarrow> Q (i, s')"
  shows "wp (append_entry r k t d s) Q"
proof -
  have "log_append_entry fuel l p tm r k t d = Some (i, l', p') \<Longrightarrow> length (log_nc_buf l') = length (log_nc_buf l)" for fuel l p tm i l' p'
    by (auto simp: log_append_entry_def Let_def split_def bind_eq_Some_conv nc_buf_put_entry split: if_splits option.splits)
  then show ?thesis
    using assms(1) by (auto simp: wp_def append_entry_def bind_eq_Some_conv intro!: assms(2) good_slog)
qed

lemma good_update_cid_loop: "good c s \<Longrightarrow> good c (update_cid_loop cid is s)"
  by (induction "is" arbitrary: s) simp_all

lemma good_update_cid [simp]: "good c s \<Longrightarrow> good c (snd (update_cid cid s))"
  by (simp add: update_cid_def Let_def good_update_cid_loop)

lemma good_poll_config_entry [simp]: "good c s \<Longrightarrow> good c (snd (poll_config_entry commit e h s))"
  by (simp add: poll_config_entry_def Let_def split_def)

lemmas good_config_pairs [wp_intros] = good_pair [OF good_update_cid] good_pair [OF good_poll_config_entry]

lemma good_poll_config_loop [wp_intros]:
  assumes "good c s" "\<And>o' h s'. good c s' \<Longrightarrow> Q (o', h, s')"
  shows "wp (poll_config_loop fuel commit offset h s) Q"
  using assms(1)
proof (induction fuel arbitrary: offset h s)
  case 0
  then show ?case by (subst poll_config_loop.simps) (simp add: assms)
next
  case (Suc fuel)
  show ?case
    by (subst poll_config_loop.simps, simp only: nat.case)
      (intro wp_intros [where c = c] wp_program wp_cases Suc.IH | simp only: prod.case | (simp add: assms Suc.prems; fail))+
qed

lemma good_poll_config_entries [wp_intros]:
  assumes "good c s" "\<And>s'. good c s' \<Longrightarrow> Q s'"
  shows "wp (poll_config_entries s) Q"
  unfolding poll_config_entries_def
  by (intro wp_intros [where c = c] wp_program | simp only: prod.case | (simp add: assms good_config good_slog; fail))+

lemma good_set_state [simp]: "good c (set_state st s) \<longleftrightarrow> good c s" "good c (drop_old_size s) \<longleftrightarrow> good c s"
  by (simp_all add: set_state_def drop_old_size_def)

lemma good_remove_servers [simp]: "good c s \<Longrightarrow> good c (remove_servers is s)"
  by (induction "is" arbitrary: s) simp_all

lemma good_apply_cmd [simp]: "good c s \<Longrightarrow> good c (apply_cmd e s)"
  by (simp add: apply_cmd_def Let_def)

lemma good_next_configuration [wp_intros]:
  assumes "good c s" "\<And>s'. good c s' \<Longrightarrow> Q s'"
  shows "wp (next_configuration e s) Q"
  unfolding next_configuration_def
  by (intro wp_intros [where c = c] wp_program | simp only: prod.case snd_conv | (simp add: assms; fail))+

lemma good_leader_entry [wp_intros]:
  assumes "good c s" "\<And>s'. good c s' \<Longrightarrow> Q s'"
  shows "wp (leader_entry e s) Q"
  unfolding leader_entry_def
  by (intro wp_intros [where c = c] wp_program | simp only: prod.case | (simp add: assms; fail))+

lemma good_apply_loop [wp_intros]:
  assumes "good c s" "\<And>s'. good c s' \<Longrightarrow> Q s'"
  shows "wp (apply_loop fuel s) Q"
  using assms(1)
proof (induction fuel arbitrary: s)
  case 0
  then show ?case by (subst apply_loop.simps) (simp add: assms)
next
  case (Suc fuel)
  show ?case
    by (subst apply_loop.simps, simp only: nat.case)
      (intro wp_intros [where c = c] wp_program wp_cases Suc.IH | simp only: prod.case | (simp add: assms Suc.prems good_slog; fail))+
qed

lemma good_apply_committed_entries [wp_intros]:
  assumes "good c s" "upward c" "room 1 c" "\<And>s'. good (up 1 c) s' \<Longrightarrow> Q s'"
  shows "wp (apply_committed_entries s) Q"
  unfolding apply_committed_entries_def
  by (intro wp_intros [where c = c] wp_program | simp only: prod.case | (simp add: assms good_up; fail))+

section \<open>Failure detection and pruning\<close>

lemma good_failure_loop: "good c s \<Longrightarrow> good c (snd (snd (failure_loop is cid n s)))"
  by (induction "is" arbitrary: cid n s) simp_all

lemma good_check_failure_count [wp_intros]:
  assumes "good c s" "\<And>s'. good c s' \<Longrightarrow> Q s'"
  shows "wp (check_failure_count s) Q"
proof -
  obtain cid n t where f: "failure_loop (upto8 (get_group_size (cid_of s))) (cid_of s) 0 s = (cid, n, t)" by (metis prod_cases3)
  have t: "good c t" using good_failure_loop [OF assms(1), of "upto8 (get_group_size (cid_of s))" "cid_of s" 0] f by simp
  show ?thesis
    unfolding check_failure_count_def Let_def f
    by (intro wp_intros [where c = c] wp_program | simp only: prod.case snd_conv | (simp add: assms t; fail))+
qed

lemma good_get_apply_loop:
  assumes "\<And>rc s'. good c s' \<Longrightarrow> Q (rc, s')"
  shows "good c s \<Longrightarrow> wp (get_apply_loop is init s) Q"
proof (induction "is" arbitrary: init s)
  case (Cons i "is")
  show ?case
    unfolding get_apply_loop.simps
    by (intro good_slots wp_intros [where c = c] wp_program Cons.IH | simp only: prod.case | (simp add: assms Cons.prems; fail))+
qed (simp add: assms)

lemma good_rc_get_remote_apply_offsets [wp_intros]:
  assumes "good c s" "\<And>rc s'. good c s' \<Longrightarrow> Q (rc, s')"
  shows "wp (rc_get_remote_apply_offsets s) Q"
  unfolding rc_get_remote_apply_offsets_def by (rule good_get_apply_loop) (use assms in auto)

lemma good_min_apply: "good c (snd x) \<Longrightarrow> good c (snd (fold min_apply_step is x))"
proof (induction "is" arbitrary: x)
  case (Cons i "is")
  have "good c (snd (min_apply_step i x))"
    using Cons.prems by (auto simp: min_apply_step_def Let_def split_def intro!: good_slots)
  then show ?case using Cons.IH by simp
qed simp

lemma good_slog_snapshot:
  "good c s \<Longrightarrow> length (log_nc_buf l) = length (log_nc_buf (slog s)) \<Longrightarrow>
    good c (s\<lparr>slog := l, dare_state := dare_state s AND NOT SNAPSHOT\<rparr>)"
  using good_state_snapshot [OF good_slog, of c s l] by simp

lemma good_log_pruning [wp_intros]:
  assumes "good c s" "\<And>rc s'. good c s' \<Longrightarrow> Q (rc, s')"
  shows "wp (log_pruning s) Q"
  unfolding log_pruning_def
  by (intro good_pair [OF good_min_apply, where c = c] wp_any [where r = "if log_offset_end_distance _ _ = 0 then _ else _"]
      good_slog_snapshot wp_intros [where c = c] wp_program | simp only: prod.case | (simp add: assms; fail))+

lemma good_prune_log_cb [wp_intros]:
  assumes "good c s" "\<And>s'. good c s' \<Longrightarrow> Q s'"
  shows "wp (prune_log_cb s) Q"
  unfolding prune_log_cb_def
  by (intro wp_intros [where c = c] wp_program | simp only: prod.case | (simp add: assms; fail))+

lemma good_force_log_pruning [wp_intros]:
  assumes "good c s" "\<And>s'. good c s' \<Longrightarrow> Q s'"
  shows "wp (force_log_pruning s) Q"
  unfolding force_log_pruning_def Let_def split_def
  by (intro good_slots wp_intros [where c = c] wp_program | simp only: prod.case snd_conv fst_conv | (simp add: assms; fail))+

end
