(* ===== verification/Dare_Inv_Main.thy ===== *)
theory Dare_Inv_Main
  imports Dare_Inv_Ops
begin

text \<open>
  The invariant of \<open>Dare_Inv\<close> for log replication, elections, recovery, joining and the callbacks of the
  event loop.
\<close>

section \<open>Log replication\<close>

lemma good_upd_offsets [simp]: "good c s \<Longrightarrow> good c (upd_offsets i f s)"
  by (auto simp: upd_offsets_def intro!: good_slots)

lemma good_commit [simp]: "good c s \<Longrightarrow> good c (set_commit x s)" "good c s \<Longrightarrow> good c (advance_commit x s)"
  by (simp_all add: set_commit_def advance_commit_def good_slog)

lemma good_adjust_step [wp_intros]:
  assumes "good c s" "\<And>p s'. good c s' \<Longrightarrow> Q (p, s')"
  shows "wp (adjust_step i s) Q"
  unfolding adjust_step_def
  by (intro wp_any [where r = "log_find_remote_end_offset _ _ _"] wp_intros [where c = c] wp_program | simp only: prod.case |
      (simp add: assms server_ok_step; fail))+

lemma good_expect_wr [simp]: "good c s \<Longrightarrow> good c (expect_wr i s)"
  by (simp add: expect_wr_def)

lemma adjust_step_op: "adjust_step i s = Some (Some p, s') \<Longrightarrow> p \<noteq> WriteVoteSid x"
  by (auto simp: adjust_step_def Let_def bind_eq_Some_conv split: if_splits)

lemma good_adjust_loop:
  assumes "\<And>rc s'. good c s' \<Longrightarrow> Q (rc, s')"
  shows "good c s \<Longrightarrow> wp (adjust_loop is init s) Q"
proof (induction "is" arbitrary: init s)
  case (Cons i "is")
  have step: "wp (adjust_step i t) (\<lambda>(p, s'). wp (case p of None \<Rightarrow> adjust_loop is b s' | Some p \<Rightarrow>
      Option.bind (post_send i LOG_QP p True None (expect_wr i s')) (\<lambda>(rc, _, s). if rc \<noteq> 0 then Some (1, s) else adjust_loop is b s)) Q)"
    if "good c t" for t b
  proof -
    have "wp (adjust_step i t) (\<lambda>(p, s'). good c s')" by (rule good_adjust_step [OF that]) simp
    then show ?thesis
      unfolding wp_def [of "adjust_step i t"]
      by (auto intro!: wp_intros [where c = c] Cons.IH simp: assms split: option.split dest: adjust_step_op)
  qed
  show ?case
    unfolding adjust_loop.simps Let_def split_def
    using step [unfolded split_def] Cons
    by (auto simp: split_def)
qed (simp add: assms)

lemma good_log_adjustment [wp_intros]:
  assumes "good c s" "\<And>rc s'. good c s' \<Longrightarrow> Q (rc, s')"
  shows "wp (log_adjustment s) Q"
  unfolding log_adjustment_def by (rule good_adjust_loop) (use assms in auto)

lemma good_update_step: "good c s \<Longrightarrow> good c (snd (update_step i s))"
  by (simp add: update_step_def Let_def)

lemma update_step_ops: "update_step i s = (Some (p, q), s') \<Longrightarrow> p \<noteq> WriteVoteSid x \<and> q \<noteq> Some (WriteVoteSid x)"
  by (auto simp: update_step_def Let_def split: if_splits)

lemma good_update_loop:
  assumes "\<And>rc s'. good c s' \<Longrightarrow> Q (rc, s')"
  shows "good c s \<Longrightarrow> wp (update_loop is init s) Q"
proof (induction "is" arbitrary: init s)
  case (Cons i "is")
  let ?s = "if init then s else next_ssn s"
  obtain r t where u: "update_step i ?s = (r, t)" by fastforce
  have t: "good c t" using good_update_step [of c ?s i] u Cons.prems by simp
  have op: "r = Some (p, q) \<Longrightarrow> p \<noteq> WriteVoteSid x \<and> q \<noteq> Some (WriteVoteSid x)" for p q x using u update_step_ops by blast
  show ?case
  proof (cases r)
    case None
    then show ?thesis using Cons u by simp
  next
    case (Some a)
    obtain p q where a: "a = (p, q)" by fastforce
    show ?thesis
      unfolding update_loop.simps u Some a prod.case option.case
      by (intro wp_intros [where c = c] wp_program wp_cases Cons.IH | simp only: prod.case |
          (simp add: assms Cons.prems t; fail) | (use op [OF Some [unfolded a]] in auto; fail))+
  qed
qed (simp add: assms)

lemma good_lazy_commit_loop:
  assumes "\<And>rc s'. good c s' \<Longrightarrow> Q (rc, s')"
  shows "good c s \<Longrightarrow> wp (lazy_commit_loop is init s) Q"
proof (induction "is" arbitrary: init s)
  case (Cons i "is")
  show ?case
    unfolding lazy_commit_loop.simps
    by (intro wp_intros [where c = c] wp_program Cons.IH | simp only: prod.case | (simp add: assms Cons.prems; fail))+
qed (simp add: assms)

lemma good_update_remote_logs [wp_intros]:
  assumes "good c s" "\<And>rc n s'. good c s' \<Longrightarrow> Q (rc, n, s')"
  shows "wp (update_remote_logs s) Q"
  unfolding update_remote_logs_def Let_def split_def
  by (intro good_update_loop [where c = c] good_lazy_commit_loop [where c = c] wp_intros [where c = c] wp_program |
      simp only: prod.case fst_conv snd_conv | (simp add: assms good_config set_commit_def good_slog; fail))+

lemma good_write_rounds:
  assumes "\<And>rc s'. good c s' \<Longrightarrow> Q (rc, s')"
  shows "good c s \<Longrightarrow> wp (write_rounds n wait s) Q"
proof (induction n arbitrary: s)
  case (Suc n)
  show ?case
    unfolding write_rounds.simps
    by (intro wp_intros [where c = c] wp_program Suc.IH | simp only: prod.case | (simp add: assms Suc.prems; fail))+
qed (simp add: assms)

lemma good_commit_new_entries [wp_intros]:
  assumes "good c s" "\<And>s'. good c s' \<Longrightarrow> Q s'"
  shows "wp (commit_new_entries s) Q"
  unfolding commit_new_entries_def rc_write_remote_logs_def
  by (intro good_write_rounds [where c = c] wp_program | simp only: prod.case snd_conv | (simp add: assms; fail))+

section \<open>Elections\<close>

lemma good_count_votes: "good c s \<Longrightarrow> good c (snd (snd (count_votes s)))"
proof -
  have "good c (snd (snd x)) \<Longrightarrow> good c (snd (snd (fold count_vote is x)))" for x :: "u8 \<times> u8 \<times> dare_server" and "is"
  proof (induction "is" arbitrary: x)
    case (Cons i "is")
    have "good c (snd (snd (count_vote i x)))"
      using Cons.prems by (simp add: count_vote_def Let_def split_def server_ok_step)
    then show ?case using Cons.IH by simp
  qed simp
  then show "good c s \<Longrightarrow> ?thesis" by (simp add: count_votes_def)
qed

lemma good_leader_blank_entry [wp_intros]:
  assumes "good c s" "\<And>s'. good c s' \<Longrightarrow> Q s'"
  shows "wp (leader_blank_entry s) Q"
  unfolding leader_blank_entry_def
  by (intro wp_any2 [where r = "find_config _ _ _ _ _"] wp_any [where r = "_ :: u64 option"] wp_intros [where c = c] wp_program |
      simp only: prod.case | (simp add: assms Let_def; fail))+

lemma good_become_leader [simp]:
  assumes "good c s"
  shows "good c (become_leader s)"
proof -
  have "length (fold (\<lambda>i a. a[unat i := x]) is a) = length a" for x :: u64 and "is" :: "u8 list" and a :: "u64 list"
    by (induction "is" arbitrary: a) simp_all
  then have "ctrl_ok c ((ctrl s)\<lparr>c_apply_offsets := fold (\<lambda>i a. a[unat i := x]) is (c_apply_offsets (ctrl s))\<rparr>)" for x and "is" :: "u8 list"
    using goodD(1) [OF assms] by (simp add: ctrl_ok_def)
  then show ?thesis
    using assms by (simp add: become_leader_def Let_def split_def good_ctrl)
qed

lemma sid_ok_fields [simp]: "sid_ok c (SID_SET_L x) = sid_ok c x" "sid_ok c (SID_SET_IDX x i) = sid_ok c x"
  by (simp_all add: sid_ok_def)

lemma good_poll_vote_count [wp_intros]:
  assumes "good c s" "upward c" "room 1 c" "\<And>s'. good (up 1 c) s' \<Longrightarrow> Q s'"
  shows "wp (poll_vote_count s) Q"
proof -
  obtain n0 n1 t where f: "count_votes s = (n0, n1, t)" by (metis prod_cases3)
  have t: "good c t" using good_count_votes [OF assms(1)] f by simp
  have l: "good c (server_update_sid (SID_SET_L (sid_of t)) (sid_of t) t)"
    using t assms(2) goodD(5) [OF t] by (simp add: good_upward_sid)
  show ?thesis
    unfolding poll_vote_count_def f Let_def prod.case
    by (intro wp_intros [where c = c] wp_program good_leader_blank_entry [where c = "up 1 c"] | simp only: prod.case |
        (simp add: assms t l good_up; fail))+
qed

text \<open>The parameters after a vote for the SID \<open>x\<close>: the term does not fall below that of \<open>x\<close> (when terms
  matter), and \<open>x\<close> is replicated.\<close>

definition vctx :: "ctx \<Rightarrow> u64 \<Rightarrow> ctx" where
  "vctx c x = c\<lparr>cx_sid := \<lambda>y. cx_sid c y \<and> (2 ^ 55 \<le> cx_bnd c \<or> SID_GET_TERM x \<le> SID_GET_TERM y),
     cx_votes := insert x (cx_votes c)\<rparr>"

lemma vctx_sel: "upward c \<Longrightarrow> upward (vctx c x)" "room n c \<Longrightarrow> room n (vctx c x)" "sid_ok (vctx c x) y = sid_ok c y"
  by (auto simp: vctx_def upward_def room_def sid_ok_def intro: order_trans)

lemma good_vote_for:
  assumes "good c s" "upward c" "room 1 c" "sid_ok c x" "cx_sid c x" "x = vr_sid best" "\<And>s'. good (up 1 (vctx c x)) s' \<Longrightarrow> Q s'"
  shows "wp (vote_for best s) Q"
proof -
  let ?d = "vctx c x"
  let ?e = "?d\<lparr>cx_sid := \<lambda>y. y = x\<rparr>"
  have le: "ctx_le ?e ?d" using assms(5) by (simp add: ctx_le_def vctx_def)
  have "good (c\<lparr>cx_votes := insert x (cx_votes c)\<rparr>) s" by (rule good_mono [OF assms(1)]) (auto simp: ctx_le_def)
  then have e: "good ?e (server_update_sid x (sid_of s) (s\<lparr>hb_armed := False\<rparr>))"
    using good_set_sid [of "c\<lparr>cx_votes := insert x (cx_votes c)\<rparr>" "s\<lparr>hb_armed := False\<rparr>" ?e x] assms(4)
    by (simp add: vctx_def sid_ok_def)
  have q: "good ?e s' \<Longrightarrow> Q s'" for s'
    by (rule assms(7), rule good_up) (rule good_mono [OF _ le])
  have v: "cx_sid ?e y \<Longrightarrow> y \<in> cx_votes ?e" for y by (simp add: vctx_def)
  show ?thesis
    unfolding vote_for_def assms(6) [symmetric]
    by (intro good_let [where c = ?e] good_pairs [where c = ?e] good_rc_replicate_vote [where c = ?e]
        good_ack_and_wait [where c = ?d] wp_program | simp only: prod.case |
        (simp add: e q; fail) | (erule v; fail) | (erule good_mono [OF _ le]; fail) |
        (simp add: vctx_sel assms(2,3); fail) | (erule assms(7); fail))+
qed

lemma cid_set_own_nc: "cid_of (set_own_nc nc s) = cid_of s"
  by (simp add: set_own_nc_def)

lemma req_ok_0: "req_ok c (r\<lparr>vr_sid := 0\<rparr>)"
  by (simp add: req_ok_def SID_GET_L_def)

lemma config_upd_req [simp]: "config (upd_req i f s) = config s"
  by (simp add: upd_req_def)

lemma good_upd_req: "good c s \<Longrightarrow> good c (upd_req i (\<lambda>r. r\<lparr>vr_sid := 0\<rparr>) s)"
  by (auto simp: upd_req_def req_ok_0 intro!: good_slots)

lemma good_request: "good c s \<Longrightarrow> unat (i :: u8) < MAX_SERVER_COUNT \<Longrightarrow> req_ok c (c_vote_req (ctrl s) ! unat i)"
  by (drule goodD(1)) (simp add: ctrl_ok_def)

lemma best_sid_fold_good:
  assumes "good c s" "\<forall>i\<in>set is. unat i < MAX_SERVER_COUNT" "sid_ok c b" "fold best_sid_step is (b, s) = (b', s')"
  shows "good c s' \<and> sid_ok c b' \<and> b \<le> b' \<and> config s' = config s"
  using assms
proof (induction "is" arbitrary: b s)
  case (Cons i "is")
  obtain b1 s1 where 1: "best_sid_step i (b, s) = (b1, s1)" by fastforce
  have "req_ok c (c_vote_req (ctrl s) ! unat i)" using Cons.prems(1,2) good_request by simp
  then have "good c s1 \<and> sid_ok c b1 \<and> b \<le> b1 \<and> config s1 = config s"
    using 1 Cons.prems(1,3) by (auto simp: best_sid_step_def Let_def req_ok_def good_upd_req split: if_splits)
  then show ?case using Cons.IH [of s1 b1] Cons.prems(2,4) 1 by auto
qed simp

lemma best_request_fold_good:
  assumes "good c s" "\<forall>i\<in>set is. unat i < MAX_SERVER_COUNT" "vr_sid b = o' \<or> req_ok c b" "o' \<le> vr_sid b"
    "unat h \<le> cx_bnd c" "unat h < 2 ^ 55" "fold best_request_step is (h, b, s) = (h', b', s')"
  shows "good c s' \<and> (vr_sid b' = o' \<or> req_ok c b') \<and> o' \<le> vr_sid b' \<and> unat h' \<le> cx_bnd c \<and> unat h' < 2 ^ 55 \<and> h \<le> h'"
  using assms
proof (induction "is" arbitrary: h b s)
  case (Cons i "is")
  let ?r = "c_vote_req (ctrl s) ! unat i"
  obtain h1 b1 s1 where 1: "best_request_step i (h, b, s) = (h1, b1, s1)" by (metis prod_cases3)
  have r: "req_ok c ?r" using Cons.prems(1,2) good_request by simp
  have "good c s1" using 1 Cons.prems(1) by (auto simp: best_request_step_def Let_def good_upd_req split: if_splits)
  moreover have "vr_sid b1 = o' \<or> req_ok c b1" "o' \<le> vr_sid b1"
    using 1 Cons.prems(3,4) r by (auto simp: best_request_step_def Let_def split: if_splits)
  moreover have "unat h1 \<le> cx_bnd c" "unat h1 < 2 ^ 55" "h \<le> h1"
    using 1 Cons.prems(5,6) r SID_GET_TERM_bound [of "vr_sid ?r"]
    by (auto simp: best_request_step_def Let_def req_ok_def sid_ok_def split: if_splits)
  ultimately show ?case using Cons.IH [of s1 b1 h1] Cons.prems(2,7) 1 by auto
qed simp

text \<open>The second pass and what follows it, for a server \<open>v\<close> whose SID is still \<open>sid\<close>: either the term is
  raised, or there is a vote for a SID above \<open>sid\<close> with the leader flag set.\<close>

lemma good_second_pass:
  assumes c: "upward c" "room 1 c" "cx_sid c sid" and v: "good (c\<lparr>cx_sid := \<lambda>y. y = sid\<rparr>) v"
    and grp: "\<forall>i\<in>set (group_of v). unat i < MAX_SERVER_COUNT" and best: "sid_ok c best" "SID_SET_L sid \<le> best"
    and q: "\<And>s'. good (up 1 c) s' \<Longrightarrow> Q s'"
      "\<And>x s'. SID_SET_L sid < x \<Longrightarrow> (cx_rec c \<Longrightarrow> \<not> SID_GET_L x) \<Longrightarrow> good (up 1 (vctx c x)) s' \<Longrightarrow> Q s'"
  shows "wp (case fold best_request_step (group_of v) (SID_GET_TERM best,
        \<lparr>vr_sid = SID_SET_L sid, vr_index = i, vr_term = tm, vr_cid = cid_of v\<rparr>, v) of (highest_term, b, s) \<Rightarrow>
      if vr_sid b = SID_SET_L sid
      then Some (server_update_sid (SID_SET_IDX (SID_SET_TERM (sid_of s) highest_term) (idx_of s)) (sid_of s) s)
      else vote_for b s) Q"
proof -
  let ?e = "c\<lparr>cx_sid := \<lambda>y. y = sid\<rparr>" and ?o = "SID_SET_L sid"
  obtain h b w where f: "fold best_request_step (group_of v) (SID_GET_TERM best,
      \<lparr>vr_sid = ?o, vr_index = i, vr_term = tm, vr_cid = cid_of v\<rparr>, v) = (h, b, w)" by (metis prod_cases3)
  have J: "good ?e w \<and> (vr_sid b = ?o \<or> req_ok ?e b) \<and> ?o \<le> vr_sid b \<and> unat h \<le> cx_bnd c \<and> unat h < 2 ^ 55 \<and> SID_GET_TERM best \<le> h"
    using best_request_fold_good [OF v grp _ _ _ _ f, of ?o] best(1) SID_GET_TERM_bound [of best] by (simp add: sid_ok_def)
  have w: "good c w" "sid_of w = sid"
    using J goodD(6) [of ?e w] good_mono [of ?e w c] c(3) by (simp_all add: ctx_le_def)
  have o: "SID_GET_TERM sid \<le> SID_GET_TERM y" if "?o \<le> y" for y
    using sid_le_imp_term_le [OF that] by simp
  have "good c (server_update_sid (SID_SET_IDX (SID_SET_TERM (sid_of w) h) (idx_of w)) (sid_of w) w)"
    by (rule good_upward_sid [OF w(1) c(1)]) (use J o [OF best(2)] w(2) in \<open>auto simp: sid_ok_def\<close>)
  then have raise: "Q (server_update_sid (SID_SET_IDX (SID_SET_TERM (sid_of w) h) (idx_of w)) (sid_of w) w)"
    by (intro q(1) good_up)
  have "wp (vote_for b w) Q" if "vr_sid b \<noteq> ?o"
  proof (rule good_vote_for [OF w(1) c(1,2) _ _ refl])
    show "sid_ok c (vr_sid b)" "cx_sid c (vr_sid b)"
      using J that o [of "vr_sid b"] c(1,3) by (auto simp: req_ok_def sid_ok_def upward_def)
    show "Q s'" if "good (up 1 (vctx c (vr_sid b))) s'" for s'
      by (rule q(2) [OF _ _ that]) (use J \<open>vr_sid b \<noteq> ?o\<close> in \<open>auto simp: req_ok_def\<close>)
  qed
  with raise show ?thesis by (simp add: f)
qed

lemma good_poll_vote_requests:
  assumes "good c s" "upward c" "room 1 c" "\<And>s'. good (up 1 c) s' \<Longrightarrow> Q s'"
    "\<And>x s'. SID_SET_L (sid_of s) < x \<Longrightarrow> (cx_rec c \<Longrightarrow> \<not> SID_GET_L x) \<Longrightarrow> good (up 1 (vctx c x)) s' \<Longrightarrow> Q s'"
  shows "wp (poll_vote_requests s) Q"
proof -
  define e where "e = c\<lparr>cx_sid := \<lambda>y. y = sid_of s\<rparr>"
  have ec: "ctx_le e c" using goodD(6) [OF assms(1)] by (simp add: ctx_le_def e_def)
  have e: "good e s" using assms(1) by (simp add: good_def ctrl_ok_def e_def sid_ok_def req_ok_def list_all_iff)
  have q: "good e t \<Longrightarrow> Q t" for t by (rule assms(4), rule good_up) (erule good_mono [OF _ ec])
  have follow: "Q (server_update_sid hb (sid_of s) s)" if "SID_GET_TERM hb = SID_GET_TERM (sid_of s)" for hb
    by (rule assms(4), rule good_up, rule good_upward_sid [OF assms(1,2)]) (use that goodD(5) [OF assms(1)] in \<open>simp_all add: sid_ok_def\<close>)
  obtain best t where f: "fold best_sid_step (group_of s) (SID_SET_L (sid_of s), s) = (best, t)" by fastforce
  obtain rc u where rv: "rc_revoke_log_access t = (rc, u)" by fastforce
  show ?thesis
  proof (cases "fits_arrays s")
    case True
    have grp: "\<forall>i\<in>set (group_of s). unat i < MAX_SERVER_COUNT" using unat_less_group [OF _ True] by simp
    have F: "good e t \<and> sid_ok e best \<and> SID_SET_L (sid_of s) \<le> best \<and> config t = config s"
      using best_sid_fold_good [OF e grp _ f] goodD(5) [OF e] by simp
    have u: "good e u" "cid_of u = cid_of s"
      using good_log_access(1) [of e t] coreD(2) [OF core_log_access(1) [of t]] F rv by simp_all
    have v: "good (c\<lparr>cx_sid := \<lambda>y. y = sid_of s\<rparr>) (set_own_nc nc u)" "sid_ok c best" "SID_SET_L (sid_of s) \<le> best"
        "\<forall>i\<in>set (group_of (set_own_nc nc u)). unat i < MAX_SERVER_COUNT" for nc
      using u F grp by (simp_all add: e_def sid_ok_def cid_set_own_nc)
    show ?thesis
      unfolding poll_vote_requests_def Let_def f rv prod.case
      by (intro wp_any [where r = "log_entries_to_nc_buf _ _"] wp_any2 [where r = "local_last _ _"]
          good_second_pass [OF assms(2,3) goodD(6) [OF assms(1)] v(1,4,2,3) assms(4,5)] wp_program |
          simp only: prod.case | (simp add: q e u follow F; fail))+
  next
    case False
    then show ?thesis using follow q e by (simp add: poll_vote_requests_def Let_def)
  qed
qed

section \<open>Heartbeats\<close>

lemma good_hb: "good c s \<Longrightarrow> good c (s\<lparr>latest_hb_received := x\<rparr>) \<longleftrightarrow> sid_ok c x"
  by (simp add: good_def recovered_def)

lemma good_fetch_hb:
  assumes "good c s" "unat i < MAX_SERVER_COUNT" "fetch_hb i s = (hb, s')"
  shows "good c s'" "sid_ok c hb"
proof -
  show "good c s'" using assms(1,3) by (auto simp: fetch_hb_def intro!: good_slots)
  have "hb \<in> set (c_hb (ctrl s))" using assms goodD(1) [OF assms(1)] by (auto simp: fetch_hb_def ctrl_ok_def)
  then show "sid_ok c hb" using goodD(1) [OF assms(1)] by (auto simp: ctrl_ok_def)
qed

lemma good_take_hb:
  assumes "good c s" "unat i < MAX_SERVER_COUNT" "take_hb leader i s = (hb, s')"
  shows "good c s' \<and> sid_ok c hb"
proof (cases "i = leader \<and> latest_hb_received s = 0")
  case True
  obtain x t where f: "fetch_hb leader s = (x, t)" by fastforce
  then show ?thesis using good_fetch_hb [OF assms(1) _ f] assms(2,3) True by (auto simp: take_hb_def Let_def good_hb)
next
  case False
  then show ?thesis
    using assms good_fetch_hb [OF assms(1,2)] goodD(3) [OF assms(1)] by (auto simp: take_hb_def Let_def good_hb split: if_splits)
qed

lemma good_hb_receive_loop:
  assumes "\<And>to new s'. good c s' \<Longrightarrow> sid_ok c new \<Longrightarrow> x \<le> new \<Longrightarrow> Q (to, new, s')"
  shows "good c s \<Longrightarrow> \<forall>i\<in>set is. unat i < MAX_SERVER_COUNT \<Longrightarrow> sid_ok c new \<Longrightarrow> x \<le> new \<Longrightarrow>
    wp (hb_receive_loop leader is to new s) Q"
proof (induction "is" arbitrary: to new s)
  case (Cons i "is")
  obtain hb t where f: "take_hb leader i s = (hb, t)" by fastforce
  have t: "good c t" "sid_ok c hb" using good_take_hb [OF Cons.prems(1) _ f] Cons.prems(2) by simp_all
  show ?case
    unfolding hb_receive_loop.simps f Let_def prod.case
    by (intro wp_intros [where c = c] wp_program Cons.IH | simp only: prod.case |
        (use Cons.prems t in auto; fail))+
qed (simp add: assms)

lemma good_hb_receive_cb [wp_intros]:
  assumes "good c s" "upward c" "room 1 c" "\<And>s'. good (up 1 c) s' \<Longrightarrow> Q s'"
  shows "wp (hb_receive_cb s) Q"
proof (cases "fits_arrays s")
  case True
  define e where "e = c\<lparr>cx_sid := \<lambda>y. y = sid_of s\<rparr>"
  define t where "t = s\<lparr>slog := (slog s)\<lparr>log_tail := log_len (slog s)\<rparr>\<rparr>"
  have ec: "ctx_le e c" using goodD(6) [OF assms(1)] by (simp add: ctx_le_def e_def)
  have "good e s" using assms(1) by (simp add: good_def ctrl_ok_def e_def sid_ok_def req_ok_def list_all_iff)
  then have t: "good e t" "sid_of t = sid_of s" by (simp_all add: t_def good_slog)
  have w: "good c u" if "good e u" for u using that by (rule good_mono [OF _ ec])
  have q: "good c u \<Longrightarrow> Q u" for u by (intro assms(4) good_up)
  have upd: "good c (server_update_sid new (sid_of u) u)" if "good e u" "sid_ok e new" "sid_of s \<le> new" for u new
    by (rule good_upward_sid [OF w [OF that(1)] assms(2)])
      (use that goodD(6) [OF that(1)] sid_le_imp_term_le [OF that(3)] in \<open>simp_all add: e_def sid_ok_def\<close>)
  have grp: "\<forall>i\<in>set (group_of s). unat i < MAX_SERVER_COUNT" using unat_less_group [OF _ True] by simp
  have sid: "sid_ok e (sid_of s)" using goodD(5) [OF t(1)] t(2) by simp
  show ?thesis
    unfolding hb_receive_cb_def Let_def t_def [symmetric]
    by (intro good_hb_receive_loop [where c = e and x = "sid_of s"] good_start_election [where c = c]
        good_server_to_follower [where c = c] wp_program | simp only: prod.case |
        (simp add: assms t w q upd True grp [simplified] sid; fail))+
qed (use assms good_up in \<open>simp add: hb_receive_cb_def Let_def\<close>)

lemma good_hb_send_loop: "good c s \<Longrightarrow> sid_of s = x \<Longrightarrow> good c (snd (hb_send_loop x is s))"
proof (induction "is" arbitrary: s)
  case (Cons i "is")
  obtain hb t where f: "fetch_hb i s = (hb, t)" by fastforce
  have t: "good c t" "sid_of t = x" using f Cons.prems by (auto simp: fetch_hb_def intro!: good_slots)
  have "good c (server_update_sid x (sid_of t) t)"
    by (rule good_server_update_sid [OF t(1)]) (use goodD(5,6) [OF t(1)] t(2) in simp_all)
  then show ?case using Cons.IH [OF t] Cons by (simp add: f)
qed simp

lemma good_hb_send_cb [wp_intros]:
  assumes "good c s" "upward c" "room 1 c" "\<And>s'. good (up 1 c) s' \<Longrightarrow> Q s'"
  shows "wp (hb_send_cb s) Q"
proof -
  have l: "good c (snd (hb_send_loop (sid_of s) is s))" for "is" by (rule good_hb_send_loop [OF assms(1) refl])
  show ?thesis
    unfolding hb_send_cb_def
    by (intro good_pair [OF l] wp_intros [where c = c] wp_program | simp only: prod.case | (simp add: assms good_up; fail))+
qed

lemma good_to_adjust_cb [wp_intros]:
  assumes "good c s" "\<And>s'. good c s' \<Longrightarrow> Q s'"
  shows "wp (to_adjust_cb s) Q"
proof -
  obtain hb t where f: "fetch_hb (SID_GET_IDX (sid_of s)) (s\<lparr>total_count := total_count s + 1\<rparr>) = (hb, t)" by fastforce
  have "leader_slot s \<Longrightarrow> good c t \<and> sid_ok c hb"
    using good_fetch_hb [OF _ _ f, of c] assms(1) by (simp add: leader_slot_def)
  then show ?thesis
    using assms f by (simp add: to_adjust_cb_def Let_def good_hb)
qed

end
