(* ===== verification/Dare_Inv_Step.thy ===== *)
theory Dare_Inv_Step
  imports Dare_Inv_Main
begin

text \<open>
  The invariant of \<open>Dare_Inv\<close> for recovery, joining and the event loop, and for every step of a server.
\<close>

section \<open>Recovery\<close>

text \<open>During recovery the SID may fall; then only the types are kept.\<close>

definition types_only :: "ctx \<Rightarrow> bool" where
  "types_only c = (\<not> cx_rec c \<and> (\<forall>x. cx_sid c x) \<and> 2 ^ 55 \<le> cx_bnd c)"

lemma types_only_sid: "types_only c \<Longrightarrow> sid_ok c x"
  using SID_GET_TERM_bound [of x] by (simp add: types_only_def sid_ok_def)

lemma types_onlyD: "types_only c \<Longrightarrow> cx_sid c x" "types_only c \<Longrightarrow> \<not> cx_rec c" "types_only c \<Longrightarrow> upward c" "types_only c \<Longrightarrow> room n c"
  by (simp_all add: types_only_def upward_def room_def)

lemmas types_only_simps = types_only_sid types_onlyD

lemma good_timers: "good c s \<Longrightarrow> good c (stop_timer s)" "good c s \<Longrightarrow> types_only c \<Longrightarrow> good c (set_timer cb s)"
  by (simp_all add: stop_timer_def good_timer types_onlyD)

lemma good_adopt_rsid: "types_only c \<Longrightarrow> good c s \<Longrightarrow> good c (adopt_rsid p i s)"
  unfolding adopt_rsid_def
  by (auto intro!: good_ctrl simp: types_only_simps ctrl_ok_def dest: goodD(1) dest!: set_update_subset_insert [THEN subsetD])

lemma good_rc_get_replicated_vote:
  assumes "good c s" "types_only c" "\<And>rc s'. good c s' \<Longrightarrow> Q (rc, s')"
  shows "wp (rc_get_replicated_vote s) Q"
  unfolding rc_get_replicated_vote_def
  by (intro wp_intros [where c = c] wp_program | simp only: prod.case | (simp add: assms good_adopt_rsid; fail))+

lemma good_get_replicated_vote_cb:
  assumes "good c s" "types_only c" "\<And>s'. good c s' \<Longrightarrow> Q s'"
  shows "wp (get_replicated_vote_cb s) Q"
  unfolding get_replicated_vote_cb_def
  by (intro good_slots good_rc_get_replicated_vote [where c = c] wp_intros [where c = c] wp_program | simp only: prod.case |
      (simp add: assms good_timers types_only_simps; fail))+

lemma good_send_sm_request_cb:
  assumes "good c s" "types_only c" "\<And>s'. good c s' \<Longrightarrow> Q s'"
  shows "wp (send_sm_request_cb s) Q"
  unfolding send_sm_request_cb_def rc_send_sm_request_def
  by (intro good_slots wp_intros [where c = c] wp_program | simp only: prod.case | (simp add: assms good_timers; fail))+

lemma good_triple: "good c (snd (snd e)) \<Longrightarrow> (\<And>a k s. good c s \<Longrightarrow> wp (f a k s) Q) \<Longrightarrow> wp (Let e (\<lambda>(a, k, s). f a k s)) Q"
  by (simp add: split_def)

lemma good_rc_send_sm_reply [wp_intros]:
  assumes "good c s" "\<And>rc s'. good c s' \<Longrightarrow> Q (rc, s')"
  shows "wp (rc_send_sm_reply i snap b s) Q"
  unfolding rc_send_sm_reply_def
  by (intro good_triple [where c = c] good_pair [where c = c and e = "if _ then _ else _"] good_slots wp_intros [where c = c] wp_program |
      simp only: prod.case | (simp add: assms goodD(5) [where c = c] Let_def split_def split: snapshot_ref.split; fail))+

lemma good_make_snapshot:
  assumes "good c s"
  shows "case make_snapshot b s of Inl t \<Rightarrow> good c t | Inr (_, _, t) \<Rightarrow> good c t"
proof -
  have "good c t \<Longrightarrow> good c ((emit CreateSnapshot t)\<lparr>prereg_snapshot := p, dare_state := dare_state t OR x\<rparr>)" for t p x
    using good_state_or [of c "(emit CreateSnapshot t)\<lparr>prereg_snapshot := p\<rparr>" x] good_emit_other [of c t CreateSnapshot]
    by (simp add: emit_def)
  then show ?thesis using assms by (simp add: make_snapshot_def Let_def split_def)
qed

lemma good_sm_requests_loop:
  assumes "\<And>s'. good c s' \<Longrightarrow> Q s'"
  shows "good c s \<Longrightarrow> wp (sm_requests_loop is snap b s) Q"
proof (induction "is" arbitrary: snap b s)
  case (Cons i "is")
  let ?t = "s\<lparr>ctrl := (ctrl s)\<lparr>c_sm_req := (c_sm_req (ctrl s))[unat i := 0]\<rparr>\<rparr>"
  have t: "good c ?t" using Cons.prems by (intro good_slots)
  have go: "wp (rc_send_sm_reply i r m u) (\<lambda>x. wp (case x of (rc, s) \<Rightarrow> if rc \<noteq> 0 then Some (halt s)
      else sm_requests_loop is (Some r) m s) Q)" if "good c u" for r m u
    by (rule good_rc_send_sm_reply [OF that]) (simp add: assms Cons.IH)
  consider "i = idx_of s \<or> c_sm_req (ctrl s) ! unat i = 0" | t' where "make_snapshot b ?t = Inl t'"
    | r m u where "make_snapshot b ?t = Inr (r, m, u)" by (metis prod_cases3 sum.exhaust)
  then show ?case
    using Cons.prems Cons.IH go [OF t] good_make_snapshot [OF t, of b] go
    by cases (simp_all add: Let_def assms split: option.split)
qed (simp add: assms)

lemma good_poll_sm_requests [wp_intros]:
  assumes "good c s" "\<And>s'. good c s' \<Longrightarrow> Q s'"
  shows "wp (poll_sm_requests s) Q"
  unfolding poll_sm_requests_def by (rule good_sm_requests_loop) (use assms in auto)

lemma good_rc_recover_sm:
  assumes "good c s" "\<And>rc s'. good c s' \<Longrightarrow> Q (rc, s')"
  shows "wp (rc_recover_sm i snap s) Q"
  unfolding rc_recover_sm_def
  by (intro good_pair [where c = c and e = "if _ then _ else _"] wp_intros [where c = c] wp_program | simp only: prod.case |
      (simp add: assms good_slog Let_def split_def; fail))+

lemma good_reset_replies:
  assumes "good c s"
  shows "good c (s\<lparr>ctrl := (ctrl s)\<lparr>c_sm_rep := c_sm_rep ctrl_init\<rparr>, dare_state := dare_state s OR x\<rparr>)"
proof -
  have "ctrl_ok c ((ctrl s)\<lparr>c_sm_rep := c_sm_rep ctrl_init\<rparr>)"
    using goodD(1) [OF assms] by (simp add: ctrl_init_def ctrl_ok_def)
  from good_state_or [OF good_ctrl [OF assms this], of x] show ?thesis by simp
qed

lemma good_poll_sm_reply:
  assumes "good c s" "types_only c" "\<And>s'. good c s' \<Longrightarrow> Q s'"
  shows "wp (poll_sm_reply snap s) Q"
  unfolding poll_sm_reply_def
  by (intro good_slots good_rc_recover_sm [where c = c] wp_intros [where c = c] wp_program wp_cases | simp only: prod.case |
      (simp add: assms good_timers types_only_simps good_reset_replies; fail))+

lemma good_adopt_offsets [simp]: "good c s \<Longrightarrow> good c (adopt_offsets i s)"
  by (auto simp: adopt_offsets_def Let_def intro!: good_slog good_slots)

lemma good_rc_recover_log:
  assumes "good c s" "\<And>rc s'. good c s' \<Longrightarrow> Q (rc, s')"
  shows "wp (rc_recover_log remote s) Q"
  unfolding rc_recover_log_def
  by (intro wp_intros [where c = c] wp_program | simp only: prod.case | (simp add: assms good_slog; fail))+

lemma good_recover_log_cb:
  assumes "good c s" "types_only c" "\<And>s'. good (up 1 c) s' \<Longrightarrow> Q s'"
  shows "wp (recover_log_cb remote s) Q"
  unfolding recover_log_cb_def
  by (intro good_rc_recover_log [where c = c] wp_intros [where c = c] wp_program | simp only: prod.case |
      (simp add: assms good_up good_timers types_only_simps; fail))+

section \<open>Joining\<close>

lemma good_drain_tailq:
  assumes "\<And>s'. good c s' \<Longrightarrow> Q s'"
  shows "good c s \<Longrightarrow> wp (drain_tailq ns s) Q"
proof (induction ns arbitrary: s)
  case (Cons n ns)
  show ?case
    unfolding drain_tailq.simps
    by (intro wp_intros [where c = c] wp_program Cons.IH | simp only: prod.case | (simp add: assms Cons.prems; fail))+
qed (simp add: assms)

lemma good_get_tailq_message [wp_intros]:
  assumes "good c s" "\<And>s'. good c s' \<Longrightarrow> Q s'"
  shows "wp (get_tailq_message s) Q"
  unfolding get_tailq_message_def by (rule good_drain_tailq) (use assms in auto)

lemma good_wc_to_ud_ep [simp]: "good c s \<Longrightarrow> good c (wc_to_ud_ep i n g l s)"
  by (simp add: wc_to_ud_ep_def Let_def split_def)

lemma good_rc_connect_server [simp]: "good c s \<Longrightarrow> good c (snd (rc_connect_server i qp s))"
  by (simp add: rc_connect_server_def Let_def split_def)

lemma good_exchange [simp]: "good c s \<Longrightarrow> good c (snd (ud_join_cluster s))" "good c s \<Longrightarrow> good c (snd (ud_exchange_rc_info s))"
  "good c s \<Longrightarrow> good c (snd (ud_update_rc_info s))"
  by (simp_all add: ud_join_cluster_def ud_exchange_rc_info_def ud_update_rc_info_def Let_def)

lemma good_init_new_server [simp]:
  assumes "good c s"
  shows "good c (init_new_server i s)"
proof -
  have "ctrl_ok c ((ctrl s)\<lparr>c_vote_ack := (c_vote_ack (ctrl s))[j := x], c_apply_offsets := (c_apply_offsets (ctrl s))[j := y]\<rparr>)" for j x y
    using goodD(1) [OF assms] by (simp add: ctrl_ok_def)
  then show ?thesis by (simp add: init_new_server_def Let_def good_ctrl server_ok_step assms)
qed

lemma good_handle_server_join_request [wp_intros]:
  assumes "good c s" "\<And>rc s'. good c s' \<Longrightarrow> Q (rc, s')"
  shows "wp (handle_server_join_request lid n r sl g junk s) Q"
  unfolding handle_server_join_request_def
  by (intro wp_any [where r = "_ :: ep_db option"] wp_any [where r = "ep_search _ _"] wp_intros [where c = c] wp_program wp_cases |
      simp only: prod.case | (simp add: assms; fail))+

lemma good_handle_server_join_reply [simp]: "good c s \<Longrightarrow> good c (handle_server_join_reply r s)"
  by (auto simp: handle_server_join_reply_def intro!: good_slog good_config)

lemma good_set_remote [simp]: "good c s \<Longrightarrow> good c (set_remote m q s)"
  by (simp add: set_remote_def)

lemma good_connect_qps [simp]: "good c s \<Longrightarrow> good c (snd (connect_qps i s))"
  by (simp add: connect_qps_def Let_def split_def)

lemma good_handle_rc_syn [wp_intros]:
  assumes "good c s" "\<And>rc s'. good c s' \<Longrightarrow> Q (rc, s')"
  shows "wp (handle_rc_syn n m s) Q"
proof -
  have q: "wp (case x of (rc, s) \<Rightarrow> F rc s) Q" if "good c (snd x)" "\<And>rc s. good c s \<Longrightarrow> wp (F rc s) Q" for x and F :: "int \<Rightarrow> dare_server \<Rightarrow> (int \<times> dare_server) option"
    using that by (simp add: split_def)
  show ?thesis
    unfolding handle_rc_syn_def
    by (intro q wp_intros [where c = c] wp_program | simp only: prod.case | (simp add: assms; fail))+
qed

lemma good_handle_rc_synack [wp_intros]:
  assumes "good c s" "\<And>rc s'. good c s' \<Longrightarrow> Q (rc, s')"
  shows "wp (handle_rc_synack n m s) Q"
  unfolding handle_rc_synack_def list.case_eq_if
  by (intro good_pair [OF good_connect_qps, where c = c] wp_intros [where c = c] wp_program | simp only: prod.case | (simp add: assms; fail))+

lemma good_handle_rc_ack [wp_intros]:
  assumes "good c s" "\<And>rc s'. good c s' \<Longrightarrow> Q (rc, s')"
  shows "wp (handle_rc_ack i s) Q"
  unfolding handle_rc_ack_def
  by (intro wp_intros [where c = c] wp_program | simp only: prod.case | (simp add: assms; fail))+

lemma good_handle_message [wp_intros]:
  assumes "good c s" "\<And>ty s'. good c s' \<Longrightarrow> Q (ty, s')"
  shows "wp (handle_message_from_client junk lid n m s) Q"
  by (cases m; simp only: handle_message_from_client.simps;
      (intro wp_intros [where c = c] wp_program | simp only: prod.case | (simp add: assms; fail))+)

lemma good_get_message:
  assumes "\<And>ty s'. good c s' \<Longrightarrow> Q (ty, s')"
  shows "good c s \<Longrightarrow> wp (get_message junk ps s) Q"
proof (induction ps arbitrary: s)
  case (Cons p ps)
  then show ?case by (cases p) (auto simp: assms intro!: good_handle_message [where c = c])
qed (simp add: assms)

lemma good_ud_get_message [wp_intros]:
  assumes "good c s" "\<And>ty s'. good c s' \<Longrightarrow> Q (ty, s')"
  shows "wp (ud_get_message junk s) Q"
  unfolding ud_get_message_def by (rule good_get_message) (use assms in auto)

section \<open>The event loop\<close>

lemma good_calls [simp]: "good c s \<Longrightarrow> good c (snd (calls n s))"
  by (induction n arbitrary: s) (simp_all add: Let_def split_def)

lemma server_ok_zero_ep: "server_ok v \<Longrightarrow> server_ok (zero_ep v)"
  by (simp add: server_ok_def zero_ep_def server_init_def)

lemma good_init_eps: "good c s \<Longrightarrow> good c (snd (init_eps is s))"
  by (induction "is" arbitrary: s) (simp_all add: Let_def split_def server_ok_zero_ep)

lemma good_create_qp [simp]: "good c s \<Longrightarrow> good c (snd (create_qp i qp s))" "good c s \<Longrightarrow> good c (snd (rc_qp_create i s))"
  by (simp_all add: create_qp_def rc_qp_create_def Let_def split_def)

lemma good_create_qps: "good c s \<Longrightarrow> good c (snd (create_qps is s))"
  by (induction "is" arbitrary: s) (simp_all add: Let_def split_def)

lemma good_set_up [simp]:
  assumes "good c s"
  shows "good c (snd (dare_init_ib_device s))" "good c (snd (dare_init_ib_srv_data s))" "good c (snd (rc_init s))"
  using assms by (simp_all add: dare_init_ib_device_def dare_init_ib_srv_data_def rc_init_def Let_def split_def good_init_eps good_create_qps)

lemma good_init_network_cb:
  assumes "good c s" "types_only c"
  shows "good c (init_network_cb t s)"
proof -
  have "good c u \<Longrightarrow> good c (u\<lparr>dare_state := dare_state u OR INIT, poll_armed := True,
      ctrl := (ctrl u)\<lparr>c_sid := x\<rparr>, timer_armed := False\<rparr>)" for u x
    using good_slots(10) [of c "u\<lparr>dare_state := dare_state u OR INIT, poll_armed := True\<rparr>" u x] assms(2)
    by (simp add: types_only_simps)
  then show ?thesis
    using assms by (simp add: init_network_cb_def Let_def split_def good_timers)
qed

lemma good_timer_cbs:
  assumes "good c s"
  shows "types_only c \<Longrightarrow> good c (join_cluster_cb s)" "good c (exchange_rc_info_cb s)" "good c (update_rc_info_cb s)"
  using assms by (simp_all add: join_cluster_cb_def exchange_rc_info_cb_def update_rc_info_cb_def Let_def split_def good_timers good_timer)

lemma recovered_bits:
  assumes "recovered s"
  shows "dare_state s AND RC_ESTABLISHED \<noteq> 0" "dare_state s AND SM_RECOVERED \<noteq> 0" "dare_state s AND LOG_RECOVERED \<noteq> 0"
proof -
  have "dare_state s AND m \<noteq> 0" if "0x38 AND m = m" "m \<noteq> 0" for m
  proof -
    have "dare_state s AND m = (dare_state s AND 0x38) AND m" by (simp add: and.assoc that(1))
    then show ?thesis using assms that by (simp add: recovered_def)
  qed
  from this [of RC_ESTABLISHED] this [of SM_RECOVERED] this [of LOG_RECOVERED]
  show "dare_state s AND RC_ESTABLISHED \<noteq> 0" "dare_state s AND SM_RECOVERED \<noteq> 0" "dare_state s AND LOG_RECOVERED \<noteq> 0"
    by (simp_all add: RC_ESTABLISHED_def SM_RECOVERED_def LOG_RECOVERED_def)
qed

lemma good_poll_ud:
  assumes "good c s" "upward c" "room 1 c" "\<And>s'. good (up 1 c) s' \<Longrightarrow> Q s'"
  shows "wp (poll_ud junk s) Q"
proof -
  have q: "good c t \<Longrightarrow> Q t" for t by (intro assms(4) good_up)
  have rec: "good c t \<Longrightarrow> dare_state t AND RC_ESTABLISHED = 0 \<Longrightarrow> \<not> cx_rec c" for t
    using recovered_bits(1) [of t] goodD(4) [of c t] by auto
  show ?thesis
    unfolding poll_ud_def
    by (intro wp_intros [where c = c] wp_program | simp only: prod.case |
        (simp add: assms q good_timer; fail) | (auto intro!: q good_timer dest: rec; fail))+
qed

lemma wp_unless_halted: "(halted s \<Longrightarrow> Q s) \<Longrightarrow> (\<not> halted s \<Longrightarrow> wp (f s) Q) \<Longrightarrow> wp (unless_halted f s) Q"
  by (simp add: unless_halted_def)

lemma good_last_phase:
  assumes "good c s" "\<And>s'. good c s' \<Longrightarrow> Q s'"
  shows "wp (unless_halted (\<lambda>s. if IS_LEADER s then force_log_pruning s else Some s) s) Q"
  by (intro wp_unless_halted wp_intros [where c = c] wp_program | (simp add: assms; fail))+

lemma room_up: "room k c \<Longrightarrow> n + m \<le> k \<Longrightarrow> room m (up n c)"
  by (auto simp: room_def up_def)

lemma vctx_up: "room n c \<Longrightarrow> vctx (up n c) x = up n (vctx c x)"
  by (auto simp: vctx_def up_def room_def)

lemma wp_phase:
  assumes "\<And>t. good d t \<Longrightarrow> wp (f t) (good d')" "ctx_le d d'" "good d s" "\<And>s'. good d' s' \<Longrightarrow> Q s'"
  shows "wp (unless_halted f s) Q"
  using assms(2-4) wp_mono [OF assms(1), of s Q] good_mono [of d s d'] by (simp add: unless_halted_def)

text \<open>One round of \<open>polling\<close> runs at most four elections.\<close>

lemma good_polling:
  assumes c: "good c s" "upward c" "room 4 c" "cx_rec c \<or> types_only c"
    and q: "\<And>s'. good (up 4 c) s' \<Longrightarrow> Q s'"
      "\<And>x y s'. cx_sid c y \<Longrightarrow> SID_SET_L y < x \<Longrightarrow> (cx_rec c \<Longrightarrow> \<not> SID_GET_L x) \<Longrightarrow> good (up 4 (vctx c x)) s' \<Longrightarrow> Q s'"
  shows "wp (polling junk snap s) Q"
proof -
  let ?sm = "\<lambda>s. if dare_state s AND RC_ESTABLISHED \<noteq> 0 \<and> dare_state s AND SM_RECOVERED = 0 then poll_sm_reply snap s else Some s"
  let ?log = "\<lambda>s. if IS_LEADER s then commit_new_entries s else poll_config_entries s"
  have r: "room 1 c" "room 1 (up 1 c)" "room 1 (up 2 c)" "room 1 (up 3 c)" "room 3 c"
    using c(3) by (auto simp: room_def up_def)
  have le: "n \<le> m \<Longrightarrow> ctx_le (up n c) (up m c)" for n m by (simp add: ctx_le_def)
  have q4: "good (up n c) t \<Longrightarrow> n \<le> 4 \<Longrightarrow> Q t" for n t by (rule q(1), erule good_mono [OF _ le])
  have p1: "wp (?sm t) (good (up 1 c))" if "good (up 1 c) t" for t
  proof (cases "cx_rec c")
    case True
    then show ?thesis using goodD(4) [OF that] recovered_bits(2) [of t] that by simp
  next
    case False
    then have "types_only (up 1 c)" using c(4) by (simp add: types_only_def)
    then show ?thesis using good_poll_sm_reply [OF that] that by simp
  qed
  have p2: "wp (if \<not> IS_LEADER t then poll_sm_requests t else Some t) (good (up 1 c))" "wp (check_failure_count t) (good (up 1 c))"
    "wp (?log t) (good (up 1 c))" "wp (apply_committed_entries t) (good (up 2 c))" if "good (up 1 c) t" for t
    using that good_apply_committed_entries [OF that, of "good (up 2 c)"]
    by (simp_all add: wp_intros [where c = "up 1 c"] c r)
  have p3: "wp (if IS_CANDIDATE t then poll_vote_count t else Some t) (good (up 3 c))" if "good (up 2 c) t" for t
    using that good_poll_vote_count [OF that, of "good (up 3 c)"] good_mono [OF that le [of 2 3]] by (simp add: c r)
  have p4: "wp (unless_halted poll_vote_requests t) (\<lambda>s. wp (unless_halted (\<lambda>s. if IS_LEADER s then force_log_pruning s else Some s) s) Q)"
    if t: "good (up 3 c) t" for t
  proof (rule wp_unless_halted, goal_cases)
    case 1
    show ?case by (rule good_last_phase [OF t]) (erule q4, simp)
  next
    case 2
    show ?case
      by (rule good_poll_vote_requests [OF t])
        (use c(2) r goodD(6) [OF t] vctx_up [OF r(5)] q in \<open>auto intro: good_last_phase\<close>)
  qed
  show ?thesis
    unfolding polling_def
    by (intro p4 good_poll_ud [where c = c] wp_phase [where f = ?sm, OF p1] wp_phase [OF p2(1)] wp_phase [OF p2(2)]
        wp_phase [where f = ?log, OF p2(3)] wp_phase [OF p2(4)] wp_phase [OF p3] wp_program |
        (simp add: c r le q(1) good_up; fail) | (erule q4, simp; fail))+
qed

section \<open>Steps\<close>

text \<open>The inputs a step may take from other servers.\<close>

definition inputs_ok :: "ctx \<Rightarrow> dare_server \<Rightarrow> bool" where
  "inputs_ok c s = ((\<forall>r\<in>set (c_vote_req (ctrl s)). req_ok c r) \<and> (\<forall>x\<in>set (c_hb (ctrl s)). sid_ok c x) \<and>
     (\<forall>x\<in>set (c_rsid (ctrl s)). sid_ok c x) \<and> (\<forall>r\<in>set (c_sm_rep (ctrl s)). sid_ok c (sr_sid r)) \<and> list_all (poll_ok c) (polls s))"

lemma good_tighten:
  assumes "good d s" "inputs_ok c s" "sid_ok c (sid_of s)" "sid_ok c (latest_hb_received s)" "cx_rec c \<Longrightarrow> recovered s"
    "cx_sid d = cx_sid c" "cx_votes d = cx_votes c" "cx_trace d = cx_trace c"
  shows "good c s"
  using assms unfolding good_def ctrl_ok_def inputs_ok_def by simp

lemma do_dma_keeps [simp]: "sid_of (do_dma d s) = sid_of s" "latest_hb_received (do_dma d s) = latest_hb_received s"
  "recovered (do_dma d s) = recovered s" "recovered (s\<lparr>polls := ps\<rparr>) = recovered s" "recovered (s\<lparr>env_rcs := rs\<rparr>) = recovered s"
  by (cases d; simp add: recovered_def)+

lemma good_inputs:
  assumes "good c s" "inputs_ok c s'" "s' = do_dma d s \<or> s' = s\<lparr>polls := ps, env_rcs := rs\<rparr>"
  shows "good c s'"
proof -
  define T where "T = c\<lparr>cx_rec := False, cx_bnd := max (cx_bnd c) (2 ^ 55)\<rparr>"
  have ok: "sid_ok T x" for x using SID_GET_TERM_bound [of x] by (simp add: sid_ok_def T_def)
  have dma: "dma_ok T e" for e by (cases e) (simp_all add: ok req_ok_def, simp add: T_def)
  have poll: "poll_ok T p" for p by (cases p) (simp_all add: dma list_all_iff)
  have "good T s" by (rule good_mono [OF assms(1)]) (simp add: ctx_le_def T_def)
  then have "good T s'" using assms(3) by (auto intro!: good_do_dma [OF _ dma] good_polls simp: list_all_iff poll)
  then show ?thesis
    by (rule good_tighten [OF _ assms(2)])
      (use assms(3) goodD(3,4,5) [OF assms(1)] in \<open>auto simp: T_def\<close>)
qed

lemma good_run_timer:
  assumes "good c s" "cx_rec c \<or> types_only c" "\<And>s'. good (up 1 c) s' \<Longrightarrow> Q s'"
  shows "wp (run_timer t remote (timer_event s) s) Q"
proof (cases "types_only c")
  case True
  have q: "good c t \<Longrightarrow> Q t" for t by (intro assms(3) good_up)
  show ?thesis using assms(1,3) q True
    by (cases "timer_event s") (auto simp: good_init_network_cb good_timer_cbs
        intro: good_get_replicated_vote_cb good_send_sm_request_cb good_recover_log_cb)
next
  case False
  then have "timer_event s \<in> {ExchangeRcInfo, UpdateRcInfo}" using assms(1,2) goodD(4) [of c s] by (simp add: recovered_def)
  then show ?thesis using assms(1,3) by (auto simp: good_timer_cbs good_up)
qed

text \<open>The SIDs a server with parameters \<open>c\<close> may vote for.\<close>

definition votable :: "ctx \<Rightarrow> u64 \<Rightarrow> bool" where
  "votable c x = (\<exists>y. cx_sid c y \<and> SID_SET_L y < x \<and> (cx_rec c \<longrightarrow> \<not> SID_GET_L x))"

lemma good_step:
  assumes st: "dare_step t s s'" and c: "good c s" "upward c" "room 4 c" "cx_rec c \<or> types_only c" and i: "inputs_ok c s'"
  shows "good (up 4 c) s' \<or> (\<exists>x. votable c x \<and> good (up 4 (vctx c x)) s')"
proof -
  have up14: "good (up 1 c) s' \<Longrightarrow> good (up 4 c) s'" by (erule good_mono) (simp add: ctx_le_def)
  from st show ?thesis
  proof cases
  case (timer remote)
  have "good (up 1 c) s'" by (rule wpD [OF good_run_timer [OF c(1,4)] timer(3)])
  then show ?thesis using up14 by blast
next
  case (idle junk snap)
  show ?thesis
    by (rule wpD [OF good_polling [OF c] idle(3)]) (auto simp: votable_def)
next
  case heartbeat
  have "room 1 c" using room_up [OF c(3), of 0 1] by (simp add: up_def)
  then have "wp (run_hb (hb_event s) s) (good (up 1 c))"
    using good_hb_receive_cb [OF c(1,2), of "good (up 1 c)"] good_hb_send_cb [OF c(1,2), of "good (up 1 c)"] by (cases "hb_event s") simp_all
  then have "good (up 1 c) s'" using heartbeat(3) by (rule wpD)
  then show ?thesis using up14 by blast
next
  case prune
  show ?thesis using wpD [OF good_prune_log_cb [OF c(1)] prune(3)] by (blast intro: good_up)
next
  case adjust
  show ?thesis using wpD [OF good_to_adjust_cb [OF c(1)] adjust(3)] by (blast intro: good_up)
qed (use c(1) i good_inputs [OF c(1) i] in \<open>auto intro!: good_up simp: int_handler_def\<close>)
qed

end
