(* ===== verification/Dare_Runs.thy ===== *)
theory Dare_Runs
  imports Dare_Inv_Step Dare_Samples
begin

text \<open>
  Whole runs of a server: from start-up the types of its state are kept, and a recovered server neither
  lowers its term nor votes twice in one.
\<close>

section \<open>Types\<close>

text \<open>The lengths of the arrays of the control data, of the configuration and of the log, and the
  ranges of the per-server state.\<close>

definition well_typed :: "dare_server \<Rightarrow> bool" where
  "well_typed s = (let d = ctrl s in
     length (c_vote_req d) = MAX_SERVER_COUNT \<and> length (c_log_offsets d) = MAX_SERVER_COUNT \<and>
     length (c_sm_rep d) = MAX_SERVER_COUNT \<and> length (c_sm_req d) = MAX_SERVER_COUNT \<and> length (c_hb d) = MAX_SERVER_COUNT \<and>
     length (c_vote_ack d) = MAX_SERVER_COUNT \<and> length (c_rsid d) = MAX_SERVER_COUNT \<and>
     length (c_apply_offsets d) = MAX_SERVER_COUNT \<and> length (c_vote_sid d) = MAX_SERVER_COUNT \<and>
     length (log_nc_buf (slog s)) = MAX_SERVER_COUNT \<and> length (cfg_servers (config s)) = MAX_SERVER_COUNT \<and>
     list_all server_ok (cfg_servers (config s)))"

definition any_ctx :: ctx where
  "any_ctx = \<lparr>cx_rec = False, cx_sid = (\<lambda>_. True), cx_bnd = 2 ^ 55, cx_votes = UNIV, cx_trace = []\<rparr>"

lemma any_ctx_sel [simp]: "\<not> cx_rec any_ctx" "cx_sid any_ctx = (\<lambda>_. True)" "cx_bnd any_ctx = 2 ^ 55" "cx_votes any_ctx = UNIV"
  "cx_trace any_ctx = []" "types_only any_ctx"
  by (simp_all add: any_ctx_def types_only_def)

lemma any_ok [simp]: "sid_ok any_ctx x" "req_ok any_ctx r" "dma_ok any_ctx d" "poll_ok any_ctx p" "inputs_ok any_ctx s"
proof -
  show s: "sid_ok any_ctx x" for x by (rule types_only_sid) simp
  show "req_ok any_ctx r" by (simp add: req_ok_def s)
  show d: "dma_ok any_ctx d" for d by (cases d) (simp_all add: s req_ok_def)
  show p: "poll_ok any_ctx p" for p by (cases p) (simp_all add: d list_all_iff)
  show "inputs_ok any_ctx s" by (simp add: inputs_ok_def s p req_ok_def list_all_iff)
qed

lemma well_typed_iff: "well_typed s \<longleftrightarrow> good any_ctx s"
  by (auto simp: well_typed_def good_def ctrl_ok_def config_ok_def only_votes_def Let_def list_all_iff)

lemma well_typed_step: "dare_step t s s' \<Longrightarrow> well_typed s \<Longrightarrow> well_typed s'"
proof -
  assume st: "dare_step t s s'" and w: "well_typed s"
  have t: "good any_ctx s'" if "good (up 4 c) s'" "cx_votes c = UNIV" "cx_trace c = []" "cx_sid c = (\<lambda>_. True)" for c
    using that(1) by (rule good_tighten) (simp_all add: that)
  have "good (up 4 any_ctx) s' \<or> (\<exists>x. votable any_ctx x \<and> good (up 4 (vctx any_ctx x)) s')"
    by (rule good_step [OF st]) (use w types_onlyD [of any_ctx] in \<open>simp_all add: well_typed_iff\<close>)
  then show "well_typed s'" using t [of any_ctx] t [of "vctx any_ctx x" for x] by (auto simp: well_typed_iff vctx_def)
qed

lemma init_well_typed: "init_server_data g i (new_server d m) = Some s \<Longrightarrow> well_typed s"
  by (auto simp: well_typed_def init_server_data_def new_server_def ctrl_init_def log_new_def Let_def
      server_ok_def server_init_def list_all_iff LR_GET_WRITE_def LR_UPDATE_END_def RC_QP_ERROR_def
      RC_QP_ACTIVE_def MAX_SERVER_COUNT_def split: if_splits)



section \<open>Terms and votes\<close>

text \<open>No SID a server holds or is about to receive has a term beyond \<open>b\<close>, and no vote request has the
  leader flag, which candidates never set.\<close>

fun dma_below :: "nat \<Rightarrow> dma \<Rightarrow> bool" where
  "dma_below b (DmaVoteReq i r) = (unat (SID_GET_TERM (vr_sid r)) \<le> b \<and> \<not> SID_GET_L (vr_sid r))"
| "dma_below b (DmaHb i x) = (unat (SID_GET_TERM x) \<le> b)"
| "dma_below b (DmaRsid i x) = (unat (SID_GET_TERM x) \<le> b)"
| "dma_below b (DmaSmRep i r) = (unat (SID_GET_TERM (sr_sid r)) \<le> b)"
| "dma_below b _ = True"

fun poll_below :: "nat \<Rightarrow> poll \<Rightarrow> bool" where
  "poll_below b (Poll ds wcs) = list_all (dma_below b) ds"
| "poll_below b PollError = True"

definition calm :: "nat \<Rightarrow> dare_server \<Rightarrow> bool" where
  "calm b s = (let below = \<lambda>x. unat (SID_GET_TERM x) \<le> b; d = ctrl s in
     below (c_sid d) \<and> below (latest_hb_received s) \<and> list_all below (c_hb d) \<and> list_all below (c_rsid d) \<and>
     list_all (\<lambda>r. below (sr_sid r)) (c_sm_rep d) \<and> list_all (\<lambda>r. below (vr_sid r) \<and> \<not> SID_GET_L (vr_sid r)) (c_vote_req d) \<and>
     list_all (poll_below b) (polls s))"

text \<open>The runs of a recovered server in which no term passes \<open>b\<close>.\<close>

inductive dare_run :: "u8 \<Rightarrow> nat \<Rightarrow> dare_server \<Rightarrow> dare_server \<Rightarrow> bool" for srv_type b s0 where
  start: "well_typed s0 \<Longrightarrow> recovered s0 \<Longrightarrow> calm b s0 \<Longrightarrow> dare_run srv_type b s0 s0"
| step: "dare_run srv_type b s0 s \<Longrightarrow> dare_step srv_type s s' \<Longrightarrow> calm b s' \<Longrightarrow> dare_run srv_type b s0 s'"

text \<open>The SIDs replicated as votes between two states.\<close>

definition votes :: "dare_server \<Rightarrow> dare_server \<Rightarrow> u64 set" where
  "votes s s' = {x. \<exists>w. Posted w \<in> set (new_events s s') \<and> wr_op w = WriteVoteSid x}"

text \<open>The parameters of the invariant after the votes \<open>X\<close> of a run that began in \<open>s0\<close>.\<close>

definition run_ctx :: "nat \<Rightarrow> dare_server \<Rightarrow> u64 set \<Rightarrow> ctx" where
  "run_ctx b s0 X = \<lparr>cx_rec = True, cx_sid = (\<lambda>y. SID_GET_TERM (sid_of s0) \<le> SID_GET_TERM y \<and> (\<forall>x\<in>X. SID_GET_TERM x \<le> SID_GET_TERM y)),
     cx_bnd = b, cx_votes = X, cx_trace = trace s0\<rparr>"

lemma run_ctx_sel [simp]: "cx_rec (run_ctx b s0 X)" "cx_bnd (run_ctx b s0 X) = b" "cx_votes (run_ctx b s0 X) = X"
  "cx_trace (run_ctx b s0 X) = trace s0" "upward (run_ctx b s0 X)" "b + 4 < 2 ^ 55 \<Longrightarrow> room 4 (run_ctx b s0 X)"
  by (auto simp: run_ctx_def upward_def room_def)

lemma run_ctx_ok: "sid_ok (run_ctx b s0 X) x \<longleftrightarrow> unat (SID_GET_TERM x) \<le> b"
  "req_ok (run_ctx b s0 X) r \<longleftrightarrow> unat (SID_GET_TERM (vr_sid r)) \<le> b \<and> \<not> SID_GET_L (vr_sid r)"
  "dma_ok (run_ctx b s0 X) d \<longleftrightarrow> dma_below b d" "poll_ok (run_ctx b s0 X) p \<longleftrightarrow> poll_below b p"
proof -
  show s: "sid_ok (run_ctx b s0 X) x \<longleftrightarrow> unat (SID_GET_TERM x) \<le> b" for x by (simp add: sid_ok_def)
  show r: "req_ok (run_ctx b s0 X) r \<longleftrightarrow> unat (SID_GET_TERM (vr_sid r)) \<le> b \<and> \<not> SID_GET_L (vr_sid r)" for r by (simp add: s req_ok_def)
  show d: "dma_ok (run_ctx b s0 X) d \<longleftrightarrow> dma_below b d" for d by (cases d) (simp_all add: s r)
  show "poll_ok (run_ctx b s0 X) p \<longleftrightarrow> poll_below b p" by (cases p) (simp_all add: d list_all_iff)
qed

lemma calm_inputs: "calm b s \<Longrightarrow> inputs_ok (run_ctx b s0 X) s"
  by (simp add: calm_def inputs_ok_def run_ctx_ok Let_def list_all_iff)

lemma good_calm: "good c s \<Longrightarrow> calm b s \<Longrightarrow> recovered s \<Longrightarrow> cx_sid c = cx_sid (run_ctx b s0 X) \<Longrightarrow> cx_votes c = X \<Longrightarrow>
    cx_trace c = trace s0 \<Longrightarrow> good (run_ctx b s0 X) s"
  by (erule good_tighten [OF _ calm_inputs]) (simp_all add: run_ctx_ok, simp_all add: calm_def Let_def)

lemma votable_newer: "votable (run_ctx b s0 X) x \<Longrightarrow> SID_GET_TERM (sid_of s0) < SID_GET_TERM x \<and> (\<forall>y\<in>X. SID_GET_TERM y < SID_GET_TERM x)"
proof -
  assume "votable (run_ctx b s0 X) x"
  then obtain y where y: "cx_sid (run_ctx b s0 X) y" "SID_SET_L y < x" "\<not> SID_GET_L x" by (auto simp: votable_def)
  then have "SID_GET_TERM y < SID_GET_TERM x"
    using sid_le_iff_lex [of "SID_SET_L y" x] by (auto simp: less_le)
  then show ?thesis using y(1) by (auto simp: run_ctx_def)
qed

lemma run_ctx_vote: "b + 4 < 2 ^ 55 \<Longrightarrow> vctx (run_ctx b s0 X) x = run_ctx b s0 (insert x X)"
  by (auto simp: vctx_def run_ctx_def fun_eq_iff)

text \<open>Along a run the invariant holds for the votes so far, whose terms differ.\<close>

lemma run_good:
  assumes "dare_run t b s0 s" "b + 4 < 2 ^ 55"
  shows "\<exists>X. inj_on SID_GET_TERM X \<and> good (run_ctx b s0 X) s"
  using assms(1)
proof (induction rule: dare_run.induct)
  case start
  have "good (run_ctx b s0 {}) s0"
    using start calm_inputs [OF start(3), of s0 "{}"]
    by (simp add: well_typed_def good_def ctrl_ok_def config_ok_def inputs_ok_def only_votes_def calm_def run_ctx_ok Let_def list_all_iff)
      (simp add: run_ctx_def)
  then show ?case by (intro exI [of _ "{}"]) simp
next
  case (step s s')
  then obtain X where X: "inj_on SID_GET_TERM X" "good (run_ctx b s0 X) s" by blast
  have "good (up 4 (run_ctx b s0 X)) s' \<or> (\<exists>x. votable (run_ctx b s0 X) x \<and> good (up 4 (vctx (run_ctx b s0 X) x)) s')"
    by (rule good_step [OF step.hyps(2) X(2)]) (simp_all add: run_ctx_sel(6) [OF assms(2)] calm_inputs [OF step.hyps(3)])
  then have "good (up 4 (run_ctx b s0 X)) s' \<or> (\<exists>x. votable (run_ctx b s0 X) x \<and> good (up 4 (run_ctx b s0 (insert x X))) s')"
    unfolding run_ctx_vote [OF assms(2)] .
  moreover have t: "good (run_ctx b s0 Y) s'" if "good (up 4 (run_ctx b s0 Y)) s'" for Y
    by (rule good_calm [OF that step.hyps(3) goodD(4) [OF that]]) simp_all
  moreover have "inj_on SID_GET_TERM (insert x X)" if "votable (run_ctx b s0 X) x" for x
    unfolding inj_on_insert using X(1) votable_newer [OF that] by (metis (no_types, lifting) DiffD1 imageE less_irrefl)
  ultimately show ?case using X(1) by blast
qed



section \<open>A sample run\<close>

text \<open>The recovered server with a vote request of server 1 for term 2, in its idle event.\<close>

definition running_server :: dare_server where
  "running_server = voting_server\<lparr>ctrl := (ctrl voting_server)\<lparr>c_vote_ack := replicate MAX_SERVER_COUNT 480\<rparr>, dare_state := 0x3A, timer_event := UpdateRcInfo, poll_armed := True\<rparr>"

lemma running_server_votes:
  "case polling (0, []) snap running_server of None \<Rightarrow> False
   | Some s' \<Rightarrow> calm 2 s' \<and> 1025 \<in> votes running_server s' \<and> sid_of s' = 1025"
  by (simp add: eval_simps sample_simps polling_def poll_ud_def unless_halted_def get_tailq_message_def ud_get_message_def
      MSG_NONE_def MSG_ERROR_def CFG_REPLY_def RC_SYNACK_def RC_ACK_def poll_sm_requests_def check_failure_count_def failure_loop.simps
      running_server_def voting_server_def new_events_def votes_def calm_def TERMINATE_def LOG_RECOVERED_def RC_ESTABLISHED_def SM_RECOVERED_def
      cong: eval_cong) (simp add: replicate_servers [unfolded MAX_SERVER_COUNT_def] conj_disj_distribR ex_disj_distrib
      word_le_nat_alt)

lemma running_server_starts: "well_typed running_server" "recovered running_server" "calm 2 running_server"
  by (simp_all add: well_typed_def recovered_def calm_def running_server_def voting_server_def eval_simps sample_simps server_ok_def
      replicate_servers [unfolded MAX_SERVER_COUNT_def] Let_def)

lemma running_server_runs: "\<exists>s'. dare_run 1 2 running_server s' \<and> 1025 \<in> votes running_server s' \<and> sid_of s' = 1025"
proof -
  obtain s' where s': "polling (0, []) undefined running_server = Some s'" "calm 2 s'" "1025 \<in> votes running_server s'" "sid_of s' = 1025"
    using running_server_votes [of undefined] by (auto split: option.splits)
  have "dare_step 1 running_server s'"
    by (rule dare_step.idle [OF _ _ s'(1)]) (simp_all add: running_server_def voting_server_def sample_server_def new_server_def Let_def)
  then have "dare_run 1 2 running_server s'"
    by (rule dare_run.step [OF dare_run.start [OF running_server_starts] _ s'(2)])
  then show ?thesis using s'(3,4) by blast
qed



end
