(* ===== verification/Tpl.thy ===== *)
theory Tpl
  imports Con_Manager
begin

text \<open>
  The serialisation of connection records and commands (vpb/tpl.c and vpb/common.c, and their copies in the
  guest): parsing a format, the image of packed data, the check of an image and unpacking it, on the
  little-endian machines of the system.  Formats with arrays (A), buffers (B) and repeated structures, which
  the program does not use, are not followed (\<open>None\<close>).
\<close>

section \<open>Formats\<close>

text \<open>A child of the root of a format: elements of a fixed size, or strings, and their number.\<close>

datatype tpl_node = Atom nat nat | Str nat

fun tpl_type_size :: "char \<Rightarrow> nat option" where
  "tpl_type_size c =
    (if c = CHR ''c'' then Some 1
     else if c = CHR ''j'' \<or> c = CHR ''v'' then Some 2
     else if c = CHR ''i'' \<or> c = CHR ''u'' then Some 4
     else if c = CHR ''I'' \<or> c = CHR ''U'' \<or> c = CHR ''f'' then Some 8
     else None)"

record map_state =
  lparen_level :: int
  expect_lparen :: bool
  in_structure :: int
  in_nested :: int
  children :: "tpl_node list"
  fxlens :: "nat list"

definition map_start :: map_state where
  "map_start = \<lparr>lparen_level = 0, expect_lparen = False, in_structure = 0, in_nested = 0, children = [], fxlens = []\<rparr>"

text \<open>A character of the format other than \<open>#\<close>, after the character \<open>prev\<close>.\<close>

definition map_char :: "char \<Rightarrow> char \<Rightarrow> map_state \<Rightarrow> map_state option" where
  "map_char prev c s =
    (case tpl_type_size c of
       Some n \<Rightarrow> if expect_lparen s then None else Some (s\<lparr>children := children s @ [Atom n 1]\<rparr>)
     | None \<Rightarrow>
        if c = CHR ''s'' then (if expect_lparen s then None else Some (s\<lparr>children := children s @ [Str 1]\<rparr>))
        else if c = CHR ''S'' then
          (if in_structure s \<noteq> 0 then None else Some (s\<lparr>expect_lparen := True, in_structure := 1 + lparen_level s\<rparr>))
        else if c = CHR ''$'' then
          (if in_structure s = 0 then None else Some (s\<lparr>expect_lparen := True, in_nested := in_nested s + 1\<rparr>))
        else if c = CHR '')'' then
          (let s = s\<lparr>lparen_level := lparen_level s - 1\<rparr> in
           if lparen_level s < 0 \<or> prev = CHR ''('' then None
           else if in_nested s \<noteq> 0 then Some (s\<lparr>in_nested := in_nested s - 1\<rparr>)
           else if in_structure s \<noteq> 0 \<and> in_structure s - 1 = lparen_level s then Some (s\<lparr>in_structure := 0\<rparr>)
           else None)
        else if c = CHR ''('' then
          (if \<not> expect_lparen s then None else Some (s\<lparr>expect_lparen := False, lparen_level := lparen_level s + 1\<rparr>))
        else None)"

fun set_num :: "nat \<Rightarrow> tpl_node \<Rightarrow> tpl_node" where
  "set_num n (Atom sz _) = Atom sz n"
| "set_num n (Str _) = Str n"

text \<open>A run of \<open>#\<close> with the numbers given for them, whose product is an \<open>int\<close>.\<close>

definition map_pound :: "char \<Rightarrow> nat \<Rightarrow> int list \<Rightarrow> map_state \<Rightarrow> map_state option" where
  "map_pound prev k nums s =
    (if children s = [] \<or> prev = CHR '')'' then None
     else if length nums < k \<or> k > 10 \<or> (\<exists>n\<in>set (take k nums). n < 1) then None
     else let ns = map nat (take k nums) in
       if prod_list ns \<ge> 2 ^ 31 then None
       else Some (s\<lparr>children := butlast (children s) @ [set_num (prod_list ns) (last (children s))], fxlens := fxlens s @ ns\<rparr>))"

function map_loop :: "char \<Rightarrow> string \<Rightarrow> int list \<Rightarrow> map_state \<Rightarrow> map_state option" where
  "map_loop prev [] nums s = (if lparen_level s \<noteq> 0 then None else Some s)"
| "map_loop prev (c # cs) nums s =
    (if c = CHR ''#'' then
       let k = Suc (length (takeWhile (\<lambda>c. c = CHR ''#'') cs))
       in do { s \<leftarrow> map_pound prev k nums s; map_loop CHR ''#'' (dropWhile (\<lambda>c. c = CHR ''#'') cs) (drop k nums) s }
     else do { s \<leftarrow> map_char prev c s; map_loop c cs nums s })"
  by pat_completeness auto
termination
  by (relation "measure (\<lambda>(p, cs, n, s). length cs)") (auto simp: less_Suc_eq_le length_dropWhile_le)

text \<open>\<open>tpl_map\<close>: the nodes of a format and the lengths given for its \<open>#\<close>.\<close>

definition tpl_map :: "string \<Rightarrow> int list \<Rightarrow> (tpl_node list \<times> nat list) option" where
  "tpl_map fmt nums = map_option (\<lambda>s. (children s, fxlens s)) (map_loop CHR 0x00 fmt nums map_start)"

section \<open>Packing\<close>

text \<open>The data of a node: the bytes of its elements in memory, or its strings (\<open>None\<close> for the null pointer).\<close>

datatype tpl_val = VBytes "u8 list" | VStrs "u8 list option list"

definition TPL_MAGIC :: "u8 list" where "TPL_MAGIC = map of_char ''tpl''"

fun str_len :: "u8 list option \<Rightarrow> nat" where
  "str_len None = 0"
| "str_len (Some cs) = length cs"

fun dump_str :: "u8 list option \<Rightarrow> u8 list" where
  "dump_str None = le_enc 4 0"
| "dump_str (Some cs) = le_enc 4 (length cs + 1) @ cs"

fun dump_val :: "tpl_val \<Rightarrow> u8 list" where
  "dump_val (VBytes bs) = bs"
| "dump_val (VStrs ss) = concat (map dump_str ss)"

fun ser_val :: "tpl_val \<Rightarrow> nat" where
  "ser_val (VBytes bs) = length bs"
| "ser_val (VStrs ss) = sum_list (map (\<lambda>s. 4 + str_len s) ss)"

definition tpl_ser_osz :: "string \<Rightarrow> nat list \<Rightarrow> tpl_val list \<Rightarrow> nat" where
  "tpl_ser_osz fmt fx vals = 4 + (length fmt + 1) + 4 + 4 * length fx + sum_list (map ser_val vals)"

definition tpl_dump_to_mem :: "string \<Rightarrow> nat list \<Rightarrow> tpl_val list \<Rightarrow> nat \<Rightarrow> u8 list" where
  "tpl_dump_to_mem fmt fx vals sz =
    TPL_MAGIC @ [if CHR ''s'' \<in> set fmt then 2 else 0] @ le_enc 4 sz @ map of_char fmt @ [0] @
    concat (map (le_enc 4) fx) @ concat (map dump_val vals)"

definition tpl_dump :: "string \<Rightarrow> nat list \<Rightarrow> tpl_val list \<Rightarrow> u8 list" where
  "tpl_dump fmt fx vals = tpl_dump_to_mem fmt fx vals (tpl_ser_osz fmt fx vals)"

section \<open>Checking an image\<close>

definition tpl_fmt_chars :: string where "tpl_fmt_chars = ''AS($)BiucsfIUjv#''"

abbreviation ERR_NOT_MINSIZE :: int where "ERR_NOT_MINSIZE \<equiv> -1"

abbreviation ERR_MAGIC_MISMATCH :: int where "ERR_MAGIC_MISMATCH \<equiv> -2"

abbreviation ERR_INCONSISTENT_SZ :: int where "ERR_INCONSISTENT_SZ \<equiv> -3"

abbreviation ERR_FMT_INVALID :: int where "ERR_FMT_INVALID \<equiv> -4"

abbreviation ERR_FMT_MISSING_NUL :: int where "ERR_FMT_MISSING_NUL \<equiv> -5"

abbreviation ERR_FMT_MISMATCH :: int where "ERR_FMT_MISMATCH \<equiv> -6"

abbreviation ERR_FLEN_MISMATCH :: int where "ERR_FLEN_MISMATCH \<equiv> -7"

abbreviation ERR_INCONSISTENT_SZ2 :: int where "ERR_INCONSISTENT_SZ2 \<equiv> -8"

abbreviation ERR_INCONSISTENT_SZ3 :: int where "ERR_INCONSISTENT_SZ3 \<equiv> -9"

abbreviation ERR_INCONSISTENT_SZ4 :: int where "ERR_INCONSISTENT_SZ4 \<equiv> -10"

abbreviation ERR_UNSUPPORTED_FLAGS :: int where "ERR_UNSUPPORTED_FLAGS \<equiv> -11"

text \<open>A 32-bit number of an image, whose bytes are swapped when it comes from a big-endian machine.\<close>

definition tpl_word :: "bool \<Rightarrow> u8 list \<Rightarrow> nat" where
  "tpl_word swap bs = le_dec (if swap then rev (take 4 bs) else take 4 bs)"

definition tpl_needs_endian_swap :: "u8 list \<Rightarrow> bool" where
  "tpl_needs_endian_swap d = (d ! 3 AND 1 \<noteq> 0)"

text \<open>The search for the end of the format: its length and the number of \<open>#\<close> in it.\<close>

fun scan_fmt :: "u8 list \<Rightarrow> int + nat \<times> nat" where
  "scan_fmt [] = Inl ERR_FMT_MISSING_NUL"
| "scan_fmt (b # bs) =
    (if b = 0 then Inr (0, 0)
     else if b \<notin> of_char ` set tpl_fmt_chars then Inl ERR_FMT_INVALID
     else case scan_fmt bs of Inl e \<Rightarrow> Inl e | Inr (n, k) \<Rightarrow> Inr (Suc n, if b = of_char CHR ''#'' then Suc k else k))"

fun serlen_strs :: "bool \<Rightarrow> bool \<Rightarrow> nat \<Rightarrow> u8 list \<Rightarrow> nat option" where
  "serlen_strs swap old 0 bs = Some 0"
| "serlen_strs swap old (Suc n) bs =
    (if length bs < 4 then None
     else let slen = tpl_word swap bs; slen = (if old then slen else if slen > 1 then slen - 1 else 0) in
       if length bs - 4 < slen then None
       else map_option (\<lambda>l. 4 + slen + l) (serlen_strs swap old n (drop (4 + slen) bs)))"

fun serlen_node :: "bool \<Rightarrow> bool \<Rightarrow> tpl_node \<Rightarrow> u8 list \<Rightarrow> nat option" where
  "serlen_node swap old (Atom sz n) bs = (if length bs < sz * n then None else Some (sz * n))"
| "serlen_node swap old (Str n) bs = serlen_strs swap old n bs"

fun tpl_serlen :: "bool \<Rightarrow> bool \<Rightarrow> tpl_node list \<Rightarrow> u8 list \<Rightarrow> nat option" where
  "tpl_serlen swap old [] bs = Some 0"
| "tpl_serlen swap old (c # cs) bs =
    do { l \<leftarrow> serlen_node swap old c bs; map_option (\<lambda>k. l + k) (tpl_serlen swap old cs (drop l bs)) }"

fun fxlens_eq :: "bool \<Rightarrow> nat list \<Rightarrow> u8 list \<Rightarrow> bool" where
  "fxlens_eq swap [] bs = True"
| "fxlens_eq swap (n # ns) bs = (tpl_word swap bs = n \<and> fxlens_eq swap ns (drop 4 bs))"

definition tpl_sanity :: "string \<Rightarrow> tpl_node list \<Rightarrow> nat list \<Rightarrow> u8 list \<Rightarrow> int" where
  "tpl_sanity fmt nodes fx d =
    (if length d < 4 + 4 + 1 then ERR_NOT_MINSIZE
     else if take 3 d \<noteq> TPL_MAGIC then ERR_MAGIC_MISMATCH
     else
       let swap = tpl_needs_endian_swap d in
       if d ! 3 AND NOT 3 \<noteq> 0 then ERR_UNSUPPORTED_FLAGS
       else if tpl_word swap (drop 4 d) \<noteq> length d then ERR_INCONSISTENT_SZ
       else case scan_fmt (drop 8 d) of Inl e \<Rightarrow> e
         | Inr (n, k) \<Rightarrow>
            if take n (drop 8 d) \<noteq> map of_char fmt then ERR_FMT_MISMATCH
            else if 8 + n + 1 + k * 4 > length d then ERR_INCONSISTENT_SZ4
            else if \<not> fxlens_eq swap fx (drop (8 + n + 1) d) then ERR_FLEN_MISMATCH
            else let start = 8 + n + 1 + 4 * length fx in
              case tpl_serlen swap (d ! 3 AND 2 = 0) nodes (drop start d) of
                None \<Rightarrow> ERR_INCONSISTENT_SZ2
              | Some serlen \<Rightarrow> if serlen + start \<noteq> length d then ERR_INCONSISTENT_SZ3 else 0)"

section \<open>Unpacking\<close>

definition tpl_load :: "string \<Rightarrow> tpl_node list \<Rightarrow> nat list \<Rightarrow> u8 list \<Rightarrow> int" where
  "tpl_load fmt nodes fx d = (if tpl_sanity fmt nodes fx d \<noteq> 0 then -1 else 0)"

text \<open>\<open>tpl_byteswap\<close> of each element of \<open>sz\<close> bytes.\<close>

fun swap_elems :: "nat \<Rightarrow> nat \<Rightarrow> u8 list \<Rightarrow> u8 list" where
  "swap_elems sz 0 bs = []"
| "swap_elems sz (Suc n) bs = rev (take sz bs) @ swap_elems sz n (drop sz bs)"

fun unpack_strs :: "bool \<Rightarrow> nat \<Rightarrow> u8 list \<Rightarrow> (u8 list option list \<times> u8 list) option" where
  "unpack_strs swap 0 bs = Some ([], bs)"
| "unpack_strs swap (Suc n) bs =
    (let slen = tpl_word swap bs in
     if length bs < 4 + (slen - 1) then None
     else do {
       (ss, bs') \<leftarrow> unpack_strs swap n (drop (slen - 1) (drop 4 bs));
       Some ((if slen = 0 then None else Some (take (slen - 1) (drop 4 bs))) # ss, bs')
     })"

fun unpack_nodes :: "bool \<Rightarrow> tpl_node list \<Rightarrow> u8 list \<Rightarrow> tpl_val list option" where
  "unpack_nodes swap [] bs = Some []"
| "unpack_nodes swap (Atom sz n # cs) bs =
    (if length bs < sz * n then None
     else do {
       vs \<leftarrow> unpack_nodes swap cs (drop (sz * n) bs);
       Some (VBytes (if swap then swap_elems sz n bs else take (sz * n) bs) # vs)
     })"
| "unpack_nodes swap (Str n # cs) bs =
    do { (ss, bs) \<leftarrow> unpack_strs swap n bs; vs \<leftarrow> unpack_nodes swap cs bs; Some (VStrs ss # vs) }"

text \<open>\<open>tpl_find_data_start\<close> and \<open>tpl_unpack\<close> of an image that \<open>tpl_load\<close> accepted, which has cleared the flag of
  the old string format.  A read past the end of the image is not followed (\<open>None\<close>).\<close>

definition tpl_find_data_start :: "u8 list \<Rightarrow> u8 list" where
  "tpl_find_data_start d = (case scan_fmt (drop 8 d) of Inl _ \<Rightarrow> [] | Inr (n, k) \<Rightarrow> drop (8 + n + 1 + 4 * k) d)"

definition tpl_unpack :: "tpl_node list \<Rightarrow> u8 list \<Rightarrow> tpl_val list option" where
  "tpl_unpack nodes d = unpack_nodes (tpl_needs_endian_swap d) nodes (tpl_find_data_start d)"

section \<open>Connection records and commands\<close>

definition con_info_fmt :: string where "con_info_fmt = ''S($(uvuv)uuvuuuuvv)''"

definition con_info_vals :: "con_info_type \<Rightarrow> tpl_val list" where
  "con_info_vals ci = map VBytes [le_enc 4 (unat (src_ip (con_id ci))), le_enc 2 (unat (src_port (con_id ci))),
     le_enc 4 (unat (dst_ip (con_id ci))), le_enc 2 (unat (dst_port (con_id ci))), le_enc 4 (unat (send_seq ci)),
     le_enc 4 (unat (recv_seq ci)), le_enc 2 (unat (has_timestamp ci)), le_enc 4 (unat (timestamp ci)),
     le_enc 4 (unat (mss_clamp ci)), le_enc 4 (unat (snd_wscale ci)), le_enc 4 (unat (rcv_wscale ci)),
     le_enc 2 (unat (has_rcv_wscale ci)), le_enc 2 (unat (con_type ci))]"

definition con_info_serialize :: "con_info_type \<Rightarrow> u8 list" where
  "con_info_serialize ci = tpl_dump con_info_fmt (snd (the (tpl_map con_info_fmt []))) (con_info_vals ci)"

text \<open>The fields of the record are overwritten, its padding stays.\<close>

fun val16 :: "tpl_val \<Rightarrow> u16" where
  "val16 (VBytes bs) = of_nat (le_dec bs)"
| "val16 (VStrs ss) = 0"

fun val32 :: "tpl_val \<Rightarrow> u32" where
  "val32 (VBytes bs) = of_nat (le_dec bs)"
| "val32 (VStrs ss) = 0"

definition con_info_of :: "con_info_type \<Rightarrow> tpl_val list \<Rightarrow> con_info_type" where
  "con_info_of old vs = old\<lparr>con_id := (con_id old)\<lparr>src_ip := val32 (vs ! 0), src_port := val16 (vs ! 1), dst_ip := val32 (vs ! 2),
       dst_port := val16 (vs ! 3)\<rparr>, send_seq := val32 (vs ! 4), recv_seq := val32 (vs ! 5), has_timestamp := val16 (vs ! 6),
     timestamp := val32 (vs ! 7), mss_clamp := val32 (vs ! 8), snd_wscale := val32 (vs ! 9), rcv_wscale := val32 (vs ! 10),
     has_rcv_wscale := val16 (vs ! 11), con_type := val16 (vs ! 12)\<rparr>"

text \<open>The result of \<open>tpl_load\<close> is not tested; what unpacking an image that is not valid reads is not followed.\<close>

definition con_info_deserialize :: "con_info_type \<Rightarrow> u8 list \<Rightarrow> con_info_type option" where
  "con_info_deserialize old buf =
    do {
      (nodes, fx) \<leftarrow> tpl_map con_info_fmt [];
      if tpl_load con_info_fmt nodes fx buf \<noteq> 0 then None else map_option (con_info_of old) (tpl_unpack nodes buf)
    }"

definition command_t_serialize :: "u8 list option list \<Rightarrow> u8 list option" where
  "command_t_serialize argv =
    do {
      (nodes, fx) \<leftarrow> tpl_map ''s#'' [int (length argv)];
      Some (le_enc 4 (length argv) @ tpl_dump ''s#'' fx [VStrs argv])
    }"

definition command_t_deserialize :: "u8 list \<Rightarrow> u8 list option list option" where
  "command_t_deserialize buf =
    do {
      let argc = sint (of_nat (le_dec (take 4 buf)) :: u32);
      (nodes, fx) \<leftarrow> tpl_map ''s#'' [argc];
      if tpl_load ''s#'' nodes fx (drop 4 buf) \<noteq> 0 then None
      else case tpl_unpack nodes (drop 4 buf) of Some [VStrs argv] \<Rightarrow> Some argv | _ \<Rightarrow> None
    }"

end
