(* ===== verification/Proxy.thy ===== *)
theory Proxy
  imports Packet_Buffer Dare_State Tpl
begin

text \<open>
  The proxy between the application, the consensus module and the guest (proxy/proxy.c), with the record
  store it keeps the applied requests in (db/db-interface.c).  The hash tables are lists with the entry
  added last in front, which is the one \<open>HASH_FIND\<close> returns.  The store itself, Berkeley DB, is a parameter:
  \<open>put\<close> appends a record to the database and returns its error code, \<open>walk\<close> is what a cursor returns.
  Where the code dereferences a null pointer or overruns a buffer there is no result (\<open>None\<close>).
\<close>

definition CONNECT :: u8 where "CONNECT = 4"

definition SEND :: u8 where "SEND = 5"

definition CLOSE :: u8 where "CLOSE = 6"

definition RAW :: u8 where "RAW = 7"

definition TCPNEWCON :: u8 where "TCPNEWCON = 8"

lemmas action_defs = CONNECT_def SEND_def CLOSE_def RAW_def TCPNEWCON_def

record socket_pair =
  clt_id :: int
  sp_req_id :: u64
  sp_connection_id :: u16
  p_s :: int

text \<open>What the proxy does to the sockets of the local application.\<close>

datatype sock_op = OpConnect int | OpWrite int "u8 list" | OpClose int

record 'd proxy_node =
  leader_hash_map :: "socket_pair list"
  follower_hash_map :: "socket_pair list"
  highest_rec :: u64
  cur_rec :: u64
  pair_count :: u8
  db_ptr :: "'d option"
  records_len :: u32
  tailhead :: "tailq_entry_t list"
  new_sockets :: "int list"
  sock_ops :: "sock_op list"

text \<open>\<open>proxy_init\<close> with an open database; the results of the later calls of \<open>socket\<close> are an argument.\<close>

definition proxy_init :: "'d option \<Rightarrow> int list \<Rightarrow> 'd proxy_node" where
  "proxy_init db socks = \<lparr>leader_hash_map = [], follower_hash_map = [], highest_rec = 0, cur_rec = 0, pair_count = 0,
     db_ptr = db, records_len = 0, tailhead = [], new_sockets = socks, sock_ops = []\<rparr>"

fun hash_del :: "('a \<Rightarrow> bool) \<Rightarrow> 'a list \<Rightarrow> 'a list" where
  "hash_del P [] = []"
| "hash_del P (x # xs) = (if P x then xs else x # hash_del P xs)"

section \<open>Requests of the leader\<close>

definition gen_key :: "u8 \<Rightarrow> u8 \<Rightarrow> u16" where
  "gen_key node_id node_count = (0 OR push_bit 8 (ucast node_id)) OR ucast node_count"

text \<open>\<open>sizeof(tailq_cmd_t.cmd)\<close>.\<close>

definition TAILQ_CMD_SIZE :: nat where "TAILQ_CMD_SIZE = 87380"

text \<open>The request and connection identifiers of types other than the three that have a connection are not
  initialised (\<open>junk\<close>).  The result is the number the caller waits for and the new state.\<close>

definition submit_pair ::
  "u8 \<Rightarrow> u64 \<times> u16 \<Rightarrow> u8 \<Rightarrow> int \<Rightarrow> 'd proxy_node \<Rightarrow> (u64 \<times> u16 \<times> 'd proxy_node) option" where
  "submit_pair node_id junk type clt p =
    (if type = CONNECT then
       let pair = \<lparr>clt_id = clt, sp_req_id = 1, sp_connection_id = gen_key node_id (pair_count p), p_s = 0\<rparr>
       in Some (1, sp_connection_id pair, p\<lparr>pair_count := pair_count p + 1, leader_hash_map := pair # leader_hash_map p\<rparr>)
     else if type = SEND \<or> type = CLOSE then
       (case find (\<lambda>x. clt_id x = clt) (leader_hash_map p) of
          None \<Rightarrow> None
        | Some pair \<Rightarrow>
           let pair = pair\<lparr>sp_req_id := sp_req_id pair + 1\<rparr>; rest = hash_del (\<lambda>x. clt_id x = clt) (leader_hash_map p)
           in Some (sp_req_id pair, sp_connection_id pair,
                p\<lparr>leader_hash_map := if type = SEND then pair # rest else rest\<rparr>))
     else Some (fst junk, snd junk, p))"

definition leader_handle_submit_req ::
  "u8 \<Rightarrow> u64 \<times> u16 \<Rightarrow> u8 \<Rightarrow> u8 list \<Rightarrow> int \<Rightarrow> 'd proxy_node \<Rightarrow> (u64 \<times> 'd proxy_node) option" where
  "leader_handle_submit_req node_id junk type buf clt p =
    do {
      let p = p\<lparr>cur_rec := cur_rec p + 1\<rparr>;
      (req_id, connection_id, p) \<leftarrow> submit_pair node_id junk type clt p;
      if length buf > TAILQ_CMD_SIZE then None
      else Some (cur_rec p, p\<lparr>tailhead := tailhead p @ [\<lparr>tq_type = type, tq_connection_id = connection_id, tq_req_id = req_id,
             tq_cmd = \<lparr>cmd_len = of_nat (length buf), cmd_cmd = buf\<rparr>\<rparr>]\<rparr>)
    }"

text \<open>The end of the wait of a submitter.\<close>

definition submit_done :: "u64 \<Rightarrow> 'd proxy_node \<Rightarrow> bool" where
  "submit_done rec p = (\<not> rec > highest_rec p)"

definition update_highest_rec :: "'d proxy_node \<Rightarrow> 'd proxy_node" where
  "update_highest_rec p = p\<lparr>highest_rec := highest_rec p + 1\<rparr>"

text \<open>The hooks of the application; a thread of the proxy itself (\<open>inner\<close>) is let through, and a server that
  does not lead submits nothing.  The result has the number to wait for, if any.\<close>

definition submit_if ::
  "bool \<Rightarrow> bool \<Rightarrow> u8 \<Rightarrow> u64 \<times> u16 \<Rightarrow> u8 \<Rightarrow> u8 list \<Rightarrow> int \<Rightarrow> 'd proxy_node \<Rightarrow> (u64 option \<times> 'd proxy_node) option" where
  "submit_if inner leader node_id junk type buf clt p =
    (if inner \<or> \<not> leader then Some (None, p)
     else map_option (\<lambda>(r, p). (Some r, p)) (leader_handle_submit_req node_id junk type buf clt p))"

definition proxy_on_read where
  "proxy_on_read inner leader node_id junk buf fd p = submit_if inner leader node_id junk SEND buf fd p"

definition proxy_on_accept where
  "proxy_on_accept inner leader node_id junk fd p = submit_if inner leader node_id junk CONNECT [] fd p"

definition proxy_on_close where
  "proxy_on_close inner leader node_id junk fd p = submit_if inner leader node_id junk CLOSE [] fd p"

definition msg_handle where
  "msg_handle leader node_id junk buf p = submit_if False leader node_id junk RAW buf 0 p"

definition tcpnewcon_handle where
  "tcpnewcon_handle leader node_id junk buf p = submit_if False leader node_id junk TCPNEWCON buf 0 p"

section \<open>Sockets of the follower\<close>

definition find_follower :: "u16 \<Rightarrow> 'd proxy_node \<Rightarrow> socket_pair option" where
  "find_follower conn p = find (\<lambda>x. sp_connection_id x = conn) (follower_hash_map p)"

definition do_action_connect :: "u16 \<Rightarrow> 'd proxy_node \<Rightarrow> 'd proxy_node" where
  "do_action_connect conn p =
    (case find_follower conn p of
       Some _ \<Rightarrow> p
     | None \<Rightarrow>
        (case new_sockets p of
           [] \<Rightarrow> p
         | fd # fds \<Rightarrow>
            if fd < 0 then p\<lparr>new_sockets := fds\<rparr>
            else p\<lparr>new_sockets := fds, sock_ops := sock_ops p @ [OpConnect fd],
                   follower_hash_map := \<lparr>clt_id = 0, sp_req_id = 0, sp_connection_id = conn, p_s = fd\<rparr> # follower_hash_map p\<rparr>))"

definition do_action_send :: "u16 \<Rightarrow> u8 list \<Rightarrow> 'd proxy_node \<Rightarrow> 'd proxy_node" where
  "do_action_send conn data p =
    (case find_follower conn p of None \<Rightarrow> p | Some pair \<Rightarrow> p\<lparr>sock_ops := sock_ops p @ [OpWrite (p_s pair) data]\<rparr>)"

definition do_action_close :: "u16 \<Rightarrow> 'd proxy_node \<Rightarrow> 'd proxy_node" where
  "do_action_close conn p =
    (case find_follower conn p of None \<Rightarrow> p
     | Some pair \<Rightarrow> p\<lparr>sock_ops := sock_ops p @ [OpClose (p_s pair)],
         follower_hash_map := hash_del (\<lambda>x. sp_connection_id x = conn) (follower_hash_map p)\<rparr>)"

section \<open>Stable storage\<close>

definition PROXY_CONNECT_MSG_SIZE :: nat where "PROXY_CONNECT_MSG_SIZE = 4"

definition PROXY_CLOSE_MSG_SIZE :: nat where "PROXY_CLOSE_MSG_SIZE = 4"

text \<open>The length of the command is at offset 8 of the message, after the header and its padding, and the
  union it is a member of takes 16 bytes.\<close>

definition PROXY_SEND_MSG_SIZE :: "memory \<Rightarrow> nat \<Rightarrow> nat" where
  "PROXY_SEND_MSG_SIZE m a = unat (load16 m (a + 8)) + 24"

definition store_record :: "('d \<Rightarrow> u8 list \<Rightarrow> int \<times> 'd) \<Rightarrow> u8 list \<Rightarrow> 'd proxy_node \<Rightarrow> 'd proxy_node" where
  "store_record put data p =
    (case db_ptr p of None \<Rightarrow> p
     | Some d \<Rightarrow> p\<lparr>records_len := records_len p + of_nat (length data), db_ptr := Some (snd (put d data))\<rparr>)"

definition stablestorage_save_request :: "('d \<Rightarrow> u8 list \<Rightarrow> int \<times> 'd) \<Rightarrow> memory \<Rightarrow> nat \<Rightarrow> 'd proxy_node \<Rightarrow> 'd proxy_node" where
  "stablestorage_save_request put m a p =
    (if m (a + 2) = CONNECT then store_record put (mem_read m a PROXY_CONNECT_MSG_SIZE) p
     else if m (a + 2) = SEND then store_record put (mem_read m a (PROXY_SEND_MSG_SIZE m a)) p
     else if m (a + 2) = CLOSE then store_record put (mem_read m a PROXY_CLOSE_MSG_SIZE) p
     else p)"

definition stablestorage_get_records_len :: "'d proxy_node \<Rightarrow> u32" where
  "stablestorage_get_records_len p = records_len p"

definition stablestorage_dump_records :: "('d \<Rightarrow> u8 list list) \<Rightarrow> 'd proxy_node \<Rightarrow> u8 list option" where
  "stablestorage_dump_records walk p = map_option (\<lambda>d. concat (walk d)) (db_ptr p)"

text \<open>The loop over the records of a snapshot at the start of \<open>m\<close>.  A record with another action does not
  advance the offset: the loop does not end.\<close>

partial_function (option) load_loop ::
  "('d \<Rightarrow> u8 list \<Rightarrow> int \<times> 'd) \<Rightarrow> memory \<Rightarrow> u32 \<Rightarrow> u32 \<Rightarrow> 'd proxy_node \<Rightarrow> 'd proxy_node option" where
  "load_loop put m sz len p =
    (if len < sz then
       let a = unat len; conn = load16 m a; n = PROXY_SEND_MSG_SIZE m a in
       if m (a + 2) = SEND
       then load_loop put m sz (len + of_nat n)
              (do_action_send conn (mem_read m (a + 10) (unat (load16 m (a + 8)))) (store_record put (mem_read m a n) p))
       else if m (a + 2) = CONNECT
       then load_loop put m sz (len + of_nat PROXY_CONNECT_MSG_SIZE)
              (do_action_connect conn (store_record put (mem_read m a PROXY_CONNECT_MSG_SIZE) p))
       else if m (a + 2) = CLOSE
       then load_loop put m sz (len + of_nat PROXY_CLOSE_MSG_SIZE)
              (do_action_close conn (store_record put (mem_read m a PROXY_CLOSE_MSG_SIZE) p))
       else load_loop put m sz len p
     else Some p)"

definition stablestorage_load_records ::
  "('d \<Rightarrow> u8 list \<Rightarrow> int \<times> 'd) \<Rightarrow> memory \<Rightarrow> u32 \<Rightarrow> 'd proxy_node \<Rightarrow> 'd proxy_node option" where
  "stablestorage_load_records put m sz p = load_loop put m sz 0 p"

section \<open>Actions of the host\<close>

text \<open>What an applied request does besides: packets for the guest and connections for its manager.  The
  connections that are reported to the guest's manager are collected.\<close>

record 'd host =
  node :: "'d proxy_node"
  cmgr :: con_mgr
  pbufs :: packet_buffers
  reported :: "u8 list list"

definition TH_SYN :: u8 where "TH_SYN = 2"

definition SERVICE_PORT :: u16 where "SERVICE_PORT = 4321"

text \<open>The identifier of the connection of a frame, seen from its sender and from its receiver; the padding
  is not initialised (\<open>pad\<close>).\<close>

definition frame_con :: "u16 \<times> u16 \<Rightarrow> memory \<Rightarrow> con_id_type" where
  "frame_con pad m = \<lparr>src_ip = load32 m (iph + 12), src_port = load16 m (tcph m), src_pad = fst pad,
     dst_ip = load32 m (iph + 16), dst_port = load16 m (tcph m + 2), dst_pad = snd pad\<rparr>"

definition frame_con_rev :: "u16 \<times> u16 \<Rightarrow> memory \<Rightarrow> con_id_type" where
  "frame_con_rev pad m = \<lparr>src_ip = load32 m (iph + 16), src_port = load16 m (tcph m + 2), src_pad = fst pad,
     dst_ip = load32 m (iph + 12), dst_port = load16 m (tcph m), dst_pad = snd pad\<rparr>"

definition do_action_raw :: "u16 \<times> u16 \<Rightarrow> u32 \<Rightarrow> memory \<Rightarrow> nat \<Rightarrow> 'd host \<Rightarrow> 'd host option" where
  "do_action_raw pad guest_vm_ip data sz h =
    (if sz > MSG_OFF + eth_hdr_len \<and> data (iph + 9) = 0x06 then
       if data (tcph data + 13) AND TH_SYN = TH_SYN
       then Some (h\<lparr>cmgr := save_isn (cmgr h) (be32 data (tcph data + 4) + 1) (frame_con_rev pad data)\<rparr>)
       else if load32 data (iph + 16) \<noteq> guest_vm_ip then Some h
       else if be16 data (tcph data) = SERVICE_PORT then Some h
       else map_option (\<lambda>(_, pb). h\<lparr>pbufs := pb\<rparr>)
              (write_to_tcp_buffer (pbufs h) (frame_con pad data) (be32 data (tcph data + 8)) (mem_read data 0 sz))
     else map_option (\<lambda>(_, pb). h\<lparr>pbufs := pb\<rparr>) (write_to_packet_buffer (pbufs h) (mem_read data 0 sz)))"

text \<open>An agreed connection: its receive sequence number becomes the one saved for it, and the record goes to the
  guest's manager.  \<open>garbage\<close> is the uninitialised value of \<open>isn\<close> that is used when there is none.\<close>

definition zero_con_info :: con_info_type where
  "zero_con_info = \<lparr>con_id = \<lparr>src_ip = 0, src_port = 0, src_pad = 0, dst_ip = 0, dst_port = 0, dst_pad = 0\<rparr>, send_seq = 0,
     recv_seq = 0, has_timestamp = 0, timestamp = 0, mss_clamp = 0, snd_wscale = 0, rcv_wscale = 0, has_rcv_wscale = 0,
     con_type = 0\<rparr>"

definition handle_consensused_con :: "u32 \<Rightarrow> con_mgr \<Rightarrow> u8 list \<Rightarrow> u8 list option" where
  "handle_consensused_con garbage cm buf =
    do {
      con_info \<leftarrow> con_info_deserialize zero_con_info buf;
      let isn = (case get_isn cm (con_id con_info) of Some i \<Rightarrow> i | None \<Rightarrow> garbage);
      Some (con_info_serialize (con_info\<lparr>recv_seq := isn\<rparr>))
    }"

text \<open>What the actions take from elsewhere: the uninitialised padding and sequence number, and the address of
  the guest.\<close>

record action_env =
  env_pad :: "u16 \<times> u16"
  env_garbage :: u32
  guest_vm_ip :: u32

definition do_action_tcpnewcon :: "action_env \<Rightarrow> u8 list \<Rightarrow> 'd host \<Rightarrow> 'd host option" where
  "do_action_tcpnewcon env data h =
    map_option (\<lambda>buf. h\<lparr>reported := reported h @ [buf]\<rparr>) (handle_consensused_con (env_garbage env) (cmgr h) data)"

definition do_action_to_server :: "action_env \<Rightarrow> u16 \<Rightarrow> u8 \<Rightarrow> memory \<Rightarrow> nat \<Rightarrow> 'd host \<Rightarrow> 'd host option" where
  "do_action_to_server env conn type data sz h =
    (if type = CONNECT then Some (h\<lparr>node := do_action_connect conn (node h)\<rparr>)
     else if type = SEND then Some (h\<lparr>node := do_action_send conn (mem_read data 0 sz) (node h)\<rparr>)
     else if type = CLOSE then Some (h\<lparr>node := do_action_close conn (node h)\<rparr>)
     else if type = RAW then do_action_raw (env_pad env) (guest_vm_ip env) data sz h
     else if type = TCPNEWCON then do_action_tcpnewcon env (mem_read data 0 sz) h
     else Some h)"

section \<open>The thread that hands TCP packets over\<close>

text \<open>One pass of either loop of \<open>handle_tcp_buffer\<close>: the phase it is in, the last result of \<open>dump_tcp_buffer\<close>
  (at first not initialised, \<open>None\<close>), and the condition it waits for.\<close>

datatype tcp_phase = Following | Leading | Exited

datatype tcp_wait = Running | WaitNoEmpty | WaitOutgoing

record tcp_thread =
  th_phase :: tcp_phase
  th_ret :: "int option"
  th_wait :: tcp_wait

definition handle_tcp_pass :: "bool \<Rightarrow> u16 \<times> u16 \<Rightarrow> tcp_thread \<Rightarrow> 'd host \<Rightarrow> (tcp_thread \<times> 'd host) option" where
  "handle_tcp_pass leader pad t h =
    (case th_phase t of
       Following \<Rightarrow>
         if leader then Some (t\<lparr>th_phase := Leading\<rparr>, h)
         else do {
           (ret, pb) \<leftarrow> dump_tcp_buffer True pad (cmgr h) (pbufs h);
           Some (t\<lparr>th_ret := Some ret, th_wait := if ret = 0 then WaitNoEmpty else if ret = -1 then WaitOutgoing else Running\<rparr>,
                 h\<lparr>pbufs := pb\<rparr>)
         }
     | Leading \<Rightarrow>
         (case th_ret t of None \<Rightarrow> None
          | Some r \<Rightarrow>
             if r = -99 then Some (t\<lparr>th_phase := Exited\<rparr>, h)
             else do {
               (ret, pb) \<leftarrow> dump_tcp_buffer True pad (cmgr h) (pbufs h);
               Some (t\<lparr>th_ret := Some ret, th_wait := if ret = -1 then WaitOutgoing else Running\<rparr>, h\<lparr>pbufs := pb\<rparr>)
             })
     | Exited \<Rightarrow> None)"

end
