(* ===== verification/Proxy_Proofs.thy ===== *)
theory Proxy_Proofs
  imports Proxy
begin

text \<open>
  Properties of the proxy: the identifiers and the waits of the leader's requests, the sockets of a follower,
  the recovery of a server from the stored requests, and how the host holds back the packets of a new
  connection.
\<close>

section \<open>Requests\<close>

lemma leader_handle_connect:
  "leader_handle_submit_req n junk CONNECT [] clt p = Some (cur_rec p + 1,
     p\<lparr>cur_rec := cur_rec p + 1, pair_count := pair_count p + 1,
       leader_hash_map := \<lparr>clt_id = clt, sp_req_id = 1, sp_connection_id = gen_key n (pair_count p), p_s = 0\<rparr> # leader_hash_map p,
       tailhead := tailhead p @ [\<lparr>tq_type = CONNECT, tq_connection_id = gen_key n (pair_count p), tq_req_id = 1,
         tq_cmd = \<lparr>cmd_len = 0, cmd_cmd = []\<rparr>\<rparr>]\<rparr>)"
  by (simp add: leader_handle_submit_req_def submit_pair_def Let_def)

text \<open>The proxy after a number of accepted connections.\<close>

fun accept_all :: "u8 \<Rightarrow> u64 \<times> u16 \<Rightarrow> int list \<Rightarrow> 'd proxy_node \<Rightarrow> 'd proxy_node option" where
  "accept_all n junk [] p = Some p"
| "accept_all n junk (fd # fds) p = do { (_, p) \<leftarrow> proxy_on_accept False True n junk fd p; accept_all n junk fds p }"

lemma accept_all_ids:
  "\<exists>p'. accept_all n junk fds p = Some p' \<and> map tq_connection_id (tailhead p') =
     map tq_connection_id (tailhead p) @ map (\<lambda>i. gen_key n (pair_count p + of_nat i)) [0..<length fds]"
proof (induction fds arbitrary: p)
  case (Cons fd fds)
  have u: "[0..<Suc (length fds)] = 0 # map Suc [0..<length fds]" by (simp add: map_Suc_upt upt_conv_Cons del: upt_Suc)
  obtain r q where q: "leader_handle_submit_req n junk CONNECT [] fd p = Some (r, q)" "pair_count q = pair_count p + 1"
    "map tq_connection_id (tailhead q) = map tq_connection_id (tailhead p) @ [gen_key n (pair_count p)]"
    by (simp add: leader_handle_connect)
  show ?case
    using Cons.IH [of q] q by (simp add: proxy_on_accept_def submit_if_def u o_def algebra_simps del: upt_Suc)
qed simp

lemma gen_key_count: "gen_key n a = gen_key n b \<longleftrightarrow> a = b"
proof -
  have "ucast (gen_key n c) = c" for c
    by (rule bit_word_eqI) (simp add: gen_key_def bit_simps)
  then show ?thesis by metis
qed

text \<open>Property C33: the leader numbers the connections it accepts with the eight bits of \<open>pair_count\<close>: the
  identifiers of the connections are different from each other exactly as long as there are at most 256
  of them; the next one gets the identifier of an older connection, which may still be open.\<close>

theorem connection_ids_distinct:
  "\<exists>p. accept_all n junk fds (proxy_init db socks) = Some p \<and>
     (distinct (map tq_connection_id (tailhead p)) \<longleftrightarrow> length fds \<le> 256)"
proof -
  obtain p where p: "accept_all n junk fds (proxy_init db socks) = Some p"
    "map tq_connection_id (tailhead p) = map (\<lambda>i. gen_key n (of_nat i)) [0..<length fds]"
    using accept_all_ids [of n junk fds "proxy_init db socks"] by (auto simp: proxy_init_def)
  have "distinct (map (\<lambda>i. gen_key n (of_nat i)) [0..<length fds]) \<longleftrightarrow> inj_on (of_nat :: nat \<Rightarrow> u8) {0..<length fds}"
    by (simp add: distinct_map inj_on_def gen_key_count)
  also have "\<dots> \<longleftrightarrow> length fds \<le> 256"
  proof
    assume inj: "inj_on (of_nat :: nat \<Rightarrow> u8) {0..<length fds}"
    have "\<not> 256 < length fds" using inj_onD [OF inj, of 0 256] by (cases fds) auto
    then show "length fds \<le> 256" by simp
  next
    assume "length fds \<le> 256"
    then show "inj_on (of_nat :: nat \<Rightarrow> u8) {0..<length fds}"
      by (auto simp: inj_on_def of_nat_eq_iff word_unat_eq_iff unat_of_nat_small)
  qed
  finally show ?thesis using p by (intro exI [of _ p]) simp
qed

text \<open>Property C30: the thread that submits a request is released exactly when as many requests have been applied
  as were submitted up to it: it waits for every earlier request and for its own, and no longer.\<close>

theorem submit_released:
  assumes "leader_handle_submit_req n junk type buf clt p = Some (r, p')" "highest_rec p \<le> cur_rec p" "cur_rec p < 2 ^ 64 - 1"
    "k \<le> unat (cur_rec p - highest_rec p) + 1"
  shows "submit_done r ((update_highest_rec ^^ k) p') \<longleftrightarrow> k = unat (cur_rec p - highest_rec p) + 1"
proof -
  have "submit_pair n junk type clt q = Some (x, y, q') \<Longrightarrow> cur_rec q' = cur_rec q \<and> highest_rec q' = highest_rec q" for q q' x y
    by (auto simp: submit_pair_def Let_def split: if_splits option.splits)
  then have r: "r = cur_rec p + 1" "highest_rec p' = highest_rec p"
    using assms(1) by (fastforce simp: leader_handle_submit_req_def Let_def split: if_splits Option.bind_splits)+
  have h: "highest_rec ((update_highest_rec ^^ k) q) = highest_rec q + of_nat k" for k and q :: "'a proxy_node"
    by (induction k arbitrary: q) (simp_all add: update_highest_rec_def algebra_simps)
  have u: "unat (cur_rec p + 1) = unat (cur_rec p) + 1" "unat (highest_rec p) \<le> unat (cur_rec p)"
    "unat (cur_rec p - highest_rec p) = unat (cur_rec p) - unat (highest_rec p)"
    using assms(2,3) by (simp_all add: unat_plus_fits unat_diff_le word_le_nat_alt word_less_nat_alt)
  have "unat (highest_rec p + of_nat k) = unat (highest_rec p) + k"
    using assms(3,4) u by (subst unat_plus_fits) (auto simp: unat_of_nat_small word_less_nat_alt)
  then show ?thesis
    using u assms(4) by (auto simp: submit_done_def r h word_less_nat_alt)
qed

text \<open>A leader with two applied requests that accepts a connection.\<close>

theorem submit_released_witness:
  "let p = (proxy_init (None :: unit option) [])\<lparr>cur_rec := 3, highest_rec := 2\<rparr>
   in \<exists>p'. leader_handle_submit_req 1 (0, 0) CONNECT [] 7 p = Some (4, p') \<and>
        \<not> submit_done 4 ((update_highest_rec ^^ 1) p') \<and> submit_done 4 ((update_highest_rec ^^ 2) p')"
proof -
  let ?p = "(proxy_init (None :: unit option) [])\<lparr>cur_rec := 3, highest_rec := 2\<rparr>"
  obtain p' where p': "leader_handle_submit_req 1 (0, 0) CONNECT [] 7 ?p = Some (4, p')" by (simp add: leader_handle_connect)
  have "submit_done 4 ((update_highest_rec ^^ k) p') \<longleftrightarrow> k = 2" if "k \<le> 2" for k
    using submit_released [OF p', of k] that by (simp add: proxy_init_def) presburger
  from this [of 1] this [of 2] p' show ?thesis by auto
qed

section \<open>The sockets of a follower\<close>

datatype app_action = AConnect u16 | ASend u16 "u8 list" | AClose u16

fun do_app :: "app_action \<Rightarrow> 'd proxy_node \<Rightarrow> 'd proxy_node" where
  "do_app (AConnect c) p = do_action_connect c p"
| "do_app (ASend c bs) p = do_action_send c bs p"
| "do_app (AClose c) p = do_action_close c p"

text \<open>The abstract follower: the socket of each open connection, the sockets the system will hand out, and what
  has been done to the sockets.\<close>

type_synonym app_view = "(u16 \<rightharpoonup> int) \<times> int list \<times> sock_op list"

fun app_spec :: "app_action \<Rightarrow> app_view \<Rightarrow> app_view" where
  "app_spec (AConnect c) (f, fds, ops) =
    (if f c \<noteq> None \<or> fds = [] then (f, fds, ops)
     else if hd fds < 0 then (f, tl fds, ops)
     else (f(c \<mapsto> hd fds), tl fds, ops @ [OpConnect (hd fds)]))"
| "app_spec (ASend c bs) (f, fds, ops) = (f, fds, case f c of None \<Rightarrow> ops | Some fd \<Rightarrow> ops @ [OpWrite fd bs])"
| "app_spec (AClose c) (f, fds, ops) = (f(c := None), fds, case f c of None \<Rightarrow> ops | Some fd \<Rightarrow> ops @ [OpClose fd])"

definition sock_of :: "'d proxy_node \<Rightarrow> u16 \<Rightarrow> int option" where
  "sock_of p c = map_option p_s (find_follower c p)"

definition app_abs :: "'d proxy_node \<Rightarrow> app_view" where
  "app_abs p = (sock_of p, new_sockets p, sock_ops p)"

definition app_inv :: "'d proxy_node \<Rightarrow> bool" where
  "app_inv p = distinct (map sp_connection_id (follower_hash_map p))"

lemma find_hash_del:
  "distinct (map f xs) \<Longrightarrow> find (\<lambda>x. f x = b) (hash_del (\<lambda>x. f x = a) xs) = (if b = a then None else find (\<lambda>x. f x = b) xs)"
  by (induction xs) (auto simp: find_None_iff image_iff)

lemma set_hash_del: "set (hash_del P xs) \<subseteq> set xs"
  by (induction xs) auto

lemma distinct_hash_del: "distinct (map f xs) \<Longrightarrow> distinct (map f (hash_del P xs))"
  by (induction xs) (use set_hash_del in fastforce)+

lemma find_Some_set: "find P xs = Some x \<Longrightarrow> x \<in> set xs \<and> P x"
  by (auto simp: find_Some_iff)

lemma do_app_refines: "app_inv p \<Longrightarrow> app_inv (do_app a p) \<and> app_abs (do_app a p) = app_spec a (app_abs p)"
proof (cases a)
  case (AConnect c)
  assume "app_inv p"
  then show ?thesis using AConnect
    by (cases "new_sockets p")
      (auto simp: do_action_connect_def app_abs_def app_inv_def sock_of_def find_follower_def find_None_iff fun_eq_iff split: option.splits
        dest: find_Some_set)
next
  case (ASend c bs)
  assume "app_inv p"
  then show ?thesis using ASend
    by (auto simp: do_action_send_def app_abs_def app_inv_def sock_of_def find_follower_def fun_eq_iff split: option.splits)
next
  case (AClose c)
  assume "app_inv p"
  then show ?thesis using AClose
    by (auto simp: do_action_close_def app_abs_def app_inv_def sock_of_def find_follower_def fun_eq_iff find_hash_del distinct_hash_del
        split: option.splits)
qed



section \<open>Recovery from the stored requests\<close>

text \<open>The record that \<open>stablestorage_save_request\<close> stores for the request at an address, if any, and what the
  request does to the sockets of a follower.\<close>

definition saved_record :: "memory \<times> nat \<Rightarrow> u8 list option" where
  "saved_record e = (case e of (m, a) \<Rightarrow>
     if m (a + 2) = CONNECT then Some (mem_read m a PROXY_CONNECT_MSG_SIZE)
     else if m (a + 2) = SEND then Some (mem_read m a (PROXY_SEND_MSG_SIZE m a))
     else if m (a + 2) = CLOSE then Some (mem_read m a PROXY_CLOSE_MSG_SIZE) else None)"

definition request_action :: "memory \<times> nat \<Rightarrow> app_action" where
  "request_action e = (case e of (m, a) \<Rightarrow>
     if m (a + 2) = CONNECT then AConnect (load16 m a)
     else if m (a + 2) = SEND then ASend (load16 m a) (mem_read m (a + 10) (unat (load16 m (a + 8))))
     else AClose (load16 m a))"

definition saved :: "memory \<times> nat \<Rightarrow> bool" where
  "saved e = (saved_record e \<noteq> None)"

lemma save_request_eq:
  "stablestorage_save_request put m a p = (case saved_record (m, a) of None \<Rightarrow> p | Some r \<Rightarrow> store_record put r p)"
  by (simp add: stablestorage_save_request_def saved_record_def)

lemma mem_read_part: "mem_read m a n = mem_read m' b n \<Longrightarrow> i + k \<le> n \<Longrightarrow> mem_read m (a + i) k = mem_read m' (b + i) k"
proof (rule nth_equalityI)
  fix j assume eq: "mem_read m a n = mem_read m' b n" and ik: "i + k \<le> n" and "j < length (mem_read m (a + i) k)"
  then have "i + j < n" "j < k" by auto
  then show "mem_read m (a + i) k ! j = mem_read m' (b + i) k ! j"
    using arg_cong [OF eq, of "\<lambda>xs. xs ! (i + j)"] by (simp add: add.assoc)
qed simp

lemma mem_read_byte: "mem_read m a n = mem_read m' b n \<Longrightarrow> i < n \<Longrightarrow> m (a + i) = m' (b + i)"
  using mem_read_part [of m a n m' b i 1] by (simp add: mem_read_def)

text \<open>One pass of the loop over a record in the snapshot.\<close>

lemma load_loop_record:
  assumes r: "saved_record (m', a) = Some r" and at: "mem_read m (unat len) (length r) = r" and len: "unat len + length r \<le> unat sz"
  shows "load_loop put m sz len p = load_loop put m sz (len + of_nat (length r)) (do_app (request_action (m', a)) (store_record put r p))"
proof -
  have eq: "mem_read m (unat len) (length r) = mem_read m' a (length r)" and n: "4 \<le> length r" "m' (a + 2) = SEND \<Longrightarrow> 24 \<le> length r"
    "m' (a + 2) = SEND \<Longrightarrow> length r = unat (load16 m' (a + 8)) + 24"
    using r at by (auto simp: saved_record_def PROXY_CONNECT_MSG_SIZE_def PROXY_CLOSE_MSG_SIZE_def PROXY_SEND_MSG_SIZE_def action_defs
        split: if_splits)
  have b: "m (unat len + 2) = m' (a + 2)" "load16 m (unat len) = load16 m' a"
    using mem_read_byte [OF eq, of 2] mem_read_part [OF eq, of 0 2] n(1) by (simp_all add: load16_def)
  have c: "load16 m (unat len + 8) = load16 m' (a + 8)" "mem_read m (unat len + 10) k = mem_read m' (a + 10) k"
    if "m' (a + 2) = SEND" "k = unat (load16 m' (a + 8))" for k
    using mem_read_part [OF eq, of 8 2] mem_read_part [OF eq, of 10 k] n that by (simp_all add: load16_def)
  have "len < sz" using len n(1) by (simp add: word_less_nat_alt)
  then show ?thesis
    using r at b c by (subst load_loop.simps)
      (auto simp: saved_record_def request_action_def PROXY_CONNECT_MSG_SIZE_def PROXY_CLOSE_MSG_SIZE_def PROXY_SEND_MSG_SIZE_def
        action_defs Let_def split: if_splits)
qed

text \<open>What a recovering server does for one stored request.\<close>

definition replay :: "('d \<Rightarrow> u8 list \<Rightarrow> int \<times> 'd) \<Rightarrow> memory \<times> nat \<Rightarrow> 'd proxy_node \<Rightarrow> 'd proxy_node" where
  "replay put e p = do_app (request_action e) (store_record put (the (saved_record e)) p)"

lemma load_loop_replays:
  "\<forall>e\<in>set es. saved e \<Longrightarrow> bs = concat (map (the \<circ> saved_record) es) \<Longrightarrow> mem_read m (unat len) (length bs) = bs \<Longrightarrow>
    unat len + length bs = unat sz \<Longrightarrow> load_loop put m sz len p = Some (fold (replay put) es p)"
proof (induction es arbitrary: bs len p)
  case Nil
  then have "len = sz" by (simp add: word_unat_eq_iff)
  then show ?case by (simp add: load_loop.simps)
next
  case (Cons e es)
  obtain m' a where e: "e = (m', a)" by (cases e)
  obtain r where r: "saved_record (m', a) = Some r" using Cons.prems(1) e by (auto simp: saved_def)
  define cs where "cs = concat (map (the \<circ> saved_record) es)"
  have bs: "bs = r @ cs" using Cons.prems(2) by (simp add: cs_def e r comp_def)
  have rd: "mem_read m (unat len) (length r) = r" "mem_read m (unat len + length r) (length cs) = cs"
    using Cons.prems(3) unfolding bs by (simp_all add: mem_read_def upt_add_eq_append [of "unat len" "unat len + length r"] add.assoc [symmetric])
  have u: "unat (len + of_nat (length r)) = unat len + length r"
    using Cons.prems(4) unat_less_power [of sz] by (subst unat_plus_fits) (simp_all add: bs unat_of_nat_small)
  have "load_loop put m sz len p = load_loop put m sz (len + of_nat (length r)) (replay put e p)"
    using load_loop_record [OF r rd(1), of sz put p] Cons.prems(4) by (simp add: bs e r replay_def)
  also have "\<dots> = Some (fold (replay put) es (replay put e p))"
    by (rule Cons.IH [OF _ cs_def]) (use Cons.prems(1,4) rd(2) u in \<open>simp_all add: bs\<close>)
  finally show ?case by simp
qed

lemma save_all:
  assumes "\<And>d x. walk (snd (put d x)) = walk d @ [x]"
  shows "db_ptr p = Some d \<Longrightarrow> \<exists>d'. db_ptr (fold (\<lambda>(m, a). stablestorage_save_request put m a) es p) = Some d' \<and>
    walk d' = walk d @ map (the \<circ> saved_record) (filter saved es) \<and>
    records_len (fold (\<lambda>(m, a). stablestorage_save_request put m a) es p) =
      records_len p + of_nat (length (concat (map (the \<circ> saved_record) (filter saved es))))"
proof (induction es arbitrary: p d)
  case (Cons e es)
  obtain m a where e: "e = (m, a)" by (cases e)
  show ?case
  proof (cases "saved_record e")
    case None
    then show ?thesis using Cons.IH [OF Cons.prems] by (simp add: e save_request_eq saved_def)
  next
    case (Some r)
    have s: "db_ptr (store_record put r p) = Some (snd (put d r))" "records_len (store_record put r p) = records_len p + of_nat (length r)"
      using Cons.prems by (simp_all add: store_record_def)
    show ?thesis using Cons.IH [OF s(1)] s(2) Some by (simp add: e save_request_eq saved_def assms comp_def add.assoc)
  qed
qed simp

text \<open>Property C31: recovery from a snapshot.  A server stores the requests it applies; another one that loads the
  snapshot made of them (the stored records one after the other, with the size that
  \<open>get_records_len\<close> reports) stores the same records and does to its sockets what the requests say, in order.  The store
  must return the records in the order they were put; RAW and TCPNEWCON requests are not stored.\<close>

theorem snapshot_replays:
  assumes store: "\<And>d x. walk (snd (put d x)) = walk d @ [x]" "walk d0 = []"
    and p: "db_ptr p0 = Some d0" "records_len p0 = 0" "p = fold (\<lambda>(m, a). stablestorage_save_request put m a) es p0"
    and bs: "stablestorage_dump_records walk p = Some bs" "length bs < 2 ^ 32" "mem_read m 0 (length bs) = bs"
  shows "stablestorage_load_records put m (stablestorage_get_records_len p) q = Some (fold (replay put) (filter saved es) q)"
proof -
  have r: "bs = concat (map (the \<circ> saved_record) (filter saved es))" "records_len p = of_nat (length bs)"
    using save_all [OF store(1) p(1), of es] p bs(1) store(2) by (auto simp: stablestorage_dump_records_def)
  show ?thesis
    unfolding stablestorage_load_records_def stablestorage_get_records_len_def
    by (rule load_loop_replays [OF _ r(1)]) (use bs r(2) in \<open>simp_all add: unat_of_nat_small\<close>)
qed

text \<open>The two requests of a connection with the identifier 258, and a list of records as the store.\<close>

definition sample_request :: "u8 \<Rightarrow> u8 list \<Rightarrow> memory" where
  "sample_request type cmd = mem_write (\<lambda>_. 0) 0 ([2, 1, type, 0, 0, 0, 0, 0] @ le_enc 2 (length cmd) @ cmd)"

lemma le_enc_2: "le_enc 2 x = [of_nat (x mod 256), of_nat (x div 256 mod 256)]"
  by (simp add: numeral_2_eq_2)

lemma sample_requests:
  "saved_record (sample_request CONNECT [], 0) = Some [2, 1, 4, 0]"
  "saved_record (sample_request SEND [9], 0) = Some [2, 1, 5, 0, 0, 0, 0, 0, 1, 0, 9, 0, 0, 0, 0, 0, 0, 0, 0, 0, 0, 0, 0, 0, 0]"
  "request_action (sample_request CONNECT [], 0) = AConnect 258" "request_action (sample_request SEND [9], 0) = ASend 258 [9]"
  by (simp_all add: saved_record_def request_action_def sample_request_def PROXY_CONNECT_MSG_SIZE_def PROXY_SEND_MSG_SIZE_def action_defs
      load16_def mem_read_def mem_write_def upt_rec le_enc_2)

theorem snapshot_replays_witness:
  "let put = (\<lambda>d x. (0, d @ [x])); es = [(sample_request CONNECT [], 0), (sample_request SEND [9], 0)];
       p = fold (\<lambda>(m, a). stablestorage_save_request put m a) es (proxy_init (Some []) [])
   in \<exists>bs q. stablestorage_dump_records id p = Some bs \<and> length bs = 29 \<and>
     stablestorage_load_records put (mem_write (\<lambda>_. 0) 0 bs) (stablestorage_get_records_len p) (proxy_init (Some []) [5]) = Some q \<and>
     sock_ops q = [OpConnect 5, OpWrite 5 [9]]"
proof -
  let ?put = "\<lambda>d x. (0, d @ [x])" and ?es = "[(sample_request CONNECT [], 0), (sample_request SEND [9], 0)]"
  let ?p0 = "proxy_init (Some []) []"
  let ?p = "fold (\<lambda>(m, a). stablestorage_save_request ?put m a) ?es ?p0"
  obtain bs where bs: "stablestorage_dump_records id ?p = Some bs" "length bs = 29"
    by (simp add: save_request_eq sample_requests stablestorage_dump_records_def store_record_def proxy_init_def)
  have "stablestorage_load_records ?put (mem_write (\<lambda>_. 0) 0 bs) (stablestorage_get_records_len ?p) (proxy_init (Some []) [5]) =
      Some (fold (replay ?put) (filter saved ?es) (proxy_init (Some []) [5]))"
    by (rule snapshot_replays [where p0 = ?p0 and walk = id, OF _ _ _ _ refl bs(1)])
      (use bs(2) in \<open>simp_all add: proxy_init_def mem_read_write_same\<close>)
  then show ?thesis
    using bs by (simp add: replay_def saved_def sample_requests store_record_def proxy_init_def do_action_connect_def do_action_send_def
        find_follower_def)
qed

section \<open>The packets of a new connection\<close>

lemma copy_in_tail: "copy_in rb src = Inr rb' \<Longrightarrow> rb_tail rb' = rb_tail rb \<and> rb_size rb' = rb_size rb"
proof (induction rb src rule: copy_in.induct)
  case (1 rb src)
  show ?case using 1(1) [OF _ _ refl] 1(2) by (subst (asm) copy_in.simps) (auto simp: Let_def split: if_splits)
qed

lemma rb_put_tail:
  assumes "rb_put q bs = Some q'" "rb_inv q" "length (rb_list q) + length bs \<le> ringbuf_capacity q"
  shows "rb_tail q' = rb_tail q \<and> rb_size q' = rb_size q"
proof -
  have "\<not> ringbuf_bytes_free q < length bs" using assms(2,3) by (simp add: ringbuf_bytes_used_def)
  then show ?thesis
    using assms(1) copy_in_tail [of q bs] by (auto simp: rb_put_def ringbuf_memcpy_into_def fix_overflow_def Let_def split: sum.splits)
qed

lemma write_to_tcp_buffer_queue:
  assumes "tcp_queue pb ts" "length p < 2 ^ 31" "length (rb_list (tcp_buffer pb)) + 28 + length p \<le> ringbuf_capacity (tcp_buffer pb)"
  shows "\<exists>pb'. write_to_tcp_buffer pb con ack p = Some (int (length p), pb') \<and> tcp_queue pb' (ts @ [(con, ack, p)]) \<and>
    outgoing_buffer pb' = outgoing_buffer pb \<and> rb_tail (tcp_buffer pb') = rb_tail (tcp_buffer pb) \<and>
    rb_size (tcp_buffer pb') = rb_size (tcp_buffer pb)"
proof -
  have inv: "rb_inv (tcp_buffer pb)" "length (con_id_bytes con) = 16" using assms(1) by (simp_all add: tcp_queue_def con_id_bytes_def)
  have put: "\<exists>q'. rb_put q bs = Some q' \<and> rb_inv q' \<and> ringbuf_capacity q' = ringbuf_capacity q \<and> rb_list q' = rb_list q @ bs \<and>
      rb_tail q' = rb_tail q \<and> rb_size q' = rb_size q" if "rb_inv q" "length (rb_list q) + length bs \<le> ringbuf_capacity q" for q bs
    using rb_put_ok [OF that] rb_put_tail [OF _ that] by blast
  obtain q1 where 1: "rb_put (tcp_buffer pb) (con_id_bytes con) = Some q1" "rb_inv q1" "ringbuf_capacity q1 = ringbuf_capacity (tcp_buffer pb)"
    "rb_list q1 = rb_list (tcp_buffer pb) @ con_id_bytes con" "rb_tail q1 = rb_tail (tcp_buffer pb)" "rb_size q1 = rb_size (tcp_buffer pb)"
    using put [OF inv(1), of "con_id_bytes con"] assms(3) inv(2) by auto
  obtain q2 where 2: "rb_put q1 (le_enc 4 (unat ack)) = Some q2" "rb_inv q2" "ringbuf_capacity q2 = ringbuf_capacity q1"
    "rb_list q2 = rb_list q1 @ le_enc 4 (unat ack)" "rb_tail q2 = rb_tail q1" "rb_size q2 = rb_size q1"
    using put [OF 1(2), of "le_enc 4 (unat ack)"] assms(3) inv(2) 1(3,4) by auto
  obtain q3 where 3: "rb_put q2 (size_bytes (length p)) = Some q3" "rb_inv q3" "ringbuf_capacity q3 = ringbuf_capacity q2"
    "rb_list q3 = rb_list q2 @ size_bytes (length p)" "rb_tail q3 = rb_tail q2" "rb_size q3 = rb_size q2"
    using put [OF 2(2), of "size_bytes (length p)"] assms(3) inv(2) 1(3,4) 2(3,4) by auto
  obtain q4 where 4: "rb_put q3 p = Some q4" "rb_inv q4" "rb_list q4 = rb_list q3 @ p" "rb_tail q4 = rb_tail q3" "rb_size q4 = rb_size q3"
    using put [OF 3(2), of p] assms(3) inv(2) 1(3,4) 2(3,4) 3(3,4) by auto
  show ?thesis using 1 2 3 4 assms(1,2) by (auto simp: write_to_tcp_buffer_def tcp_queue_def tcp_bytes_def to_int_small)
qed

lemma empty_queue_used: "tcp_queue pb [] \<Longrightarrow> ringbuf_bytes_used (tcp_buffer pb) = 0"
  using length_rb_list [of "tcp_buffer pb"] by (simp add: tcp_queue_def)

text \<open>Frames of one direction of a TCP connection.\<close>

definition tcp_frame :: "memory \<Rightarrow> nat \<Rightarrow> bool" where
  "tcp_frame m n = (MSG_OFF + eth_hdr_len < n \<and> m (iph + 9) = 0x06)"

definition syn_frame :: "memory \<Rightarrow> bool" where
  "syn_frame m = (m (tcph m + 13) AND TH_SYN = TH_SYN)"

definition guest_out :: "con_mgr \<Rightarrow> (memory \<times> nat) list \<Rightarrow> con_mgr" where
  "guest_out = foldl (\<lambda>cm (m, n). watch_guest_out_step cm m n)"

lemma guest_out_isn [simp]: "con_isn_list (guest_out cm fs) = con_isn_list cm"
proof (induction fs arbitrary: cm)
  case (Cons f fs)
  have "con_isn_list (watch_guest_out_step cm m n) = con_isn_list cm" for m n by (simp add: watch_guest_out_step_def Let_def)
  then show ?case using Cons by (cases f) (simp add: guest_out_def)
qed (simp add: guest_out_def)

lemma reverse_frame_con: "reverse_con pad (frame_con pad m) = frame_con_rev pad m"
  by (simp add: reverse_con_def frame_con_def frame_con_rev_def)

text \<open>Property C32: the host keeps the guest of a backup in step with its clients.  Once the SYN of a client has
  been applied, a later packet of the same connection that is addressed to the guest goes into the TCP
  queue, and while its acknowledgement number is beyond what the guest has been seen to send, the
  thread that empties the queue leaves it there; as soon as it is not, the packet is handed over
  unchanged.  (The padding of the identifiers on the stack is the same in every call, the queue was
  empty and its buffer has room.)\<close>

theorem new_connection_waits:
  assumes syn: "do_action_raw pad ip m1 n1 h = Some h1" "tcp_frame m1 n1" "syn_frame m1" "frame_con pad m2 = frame_con pad m1"
    and data: "do_action_raw pad ip m2 n2 (h1\<lparr>cmgr := guest_out (cmgr h1) fs\<rparr>) = Some h2" "tcp_frame m2 n2" "\<not> syn_frame m2"
      "load32 m2 (iph + 16) = ip" "be16 m2 (tcph m2) \<noteq> SERVICE_PORT" "n2 < 2 ^ 16" "load32 m2 (iph + 12) \<noteq> 0xFFFFFFFF"
    and seq: "con_out_seq_list (cmgr h2) (clear_pad (frame_con pad m2)) = Some seq"
    and queue: "tcp_queue (pbufs h) []" "out_queue (pbufs h) items" "out_room (pbufs h) (8 + n2)" "n2 + 28 \<le> ringbuf_capacity (tcp_buffer (pbufs h))"
      "rb_tail (tcp_buffer (pbufs h)) + 20 \<le> rb_size (tcp_buffer (pbufs h))"
  shows "if be32 m2 (tcph m2 + 8) \<le> seq + 1
    then \<exists>pb. dump_tcp_buffer True pad (cmgr h2) (pbufs h2) = Some (int n2, pb) \<and> out_queue pb (items @ [Packet (mem_read m2 0 n2)])
    else dump_tcp_buffer True pad (cmgr h2) (pbufs h2) = Some (-1, pbufs h2)"
proof -
  let ?con = "frame_con pad m2" and ?p = "mem_read m2 0 n2" and ?ack = "be32 m2 (tcph m2 + 8)"
  have h1: "h1 = h\<lparr>cmgr := save_isn (cmgr h) (be32 m1 (tcph m1 + 4) + 1) (frame_con_rev pad m1)\<rparr>"
    using syn by (simp add: do_action_raw_def tcp_frame_def syn_frame_def)
  obtain pb where pb: "write_to_tcp_buffer (pbufs h) ?con ?ack ?p = Some (int n2, pb)" "tcp_queue pb [(?con, ?ack, ?p)]"
    "outgoing_buffer pb = outgoing_buffer (pbufs h)" "rb_tail (tcp_buffer pb) = rb_tail (tcp_buffer (pbufs h))"
    "rb_size (tcp_buffer pb) = rb_size (tcp_buffer (pbufs h))"
    using write_to_tcp_buffer_queue [OF queue(1), of ?p ?con ?ack] queue(4) data(6) empty_queue_used [OF queue(1)] by auto
  have h2: "h2 = h\<lparr>cmgr := guest_out (cmgr h1) fs, pbufs := pb\<rparr>"
    using data pb(1) by (auto simp: do_action_raw_def tcp_frame_def syn_frame_def h1)
  have "con_isn_list (cmgr h2) (reverse_con pad ?con) = Some (be32 m1 (tcph m1 + 4) + 1)"
    using syn(4) by (simp add: reverse_frame_con [symmetric] h2 h1 save_isn_def Let_def)
  then have cb: "check_block True pad (cmgr h2) ?ack ?con = Some (if ?ack \<le> seq + 1 then 0 else 1)"
    using seq by (simp add: check_block_def get_isn_def get_con_out_seq_def not_less)
  have ok: "item_ok (Packet ?p)" using data(6) by (simp add: TCP_DONE_FLAG_def UDP_DONE_FLAG_def)
  have ip: "src_ip ?con \<noteq> 0xFFFFFFFF" using data(7) by (simp add: frame_con_def)
  have "out_queue pb items" "out_room pb (8 + length ?p)" using queue(2,3) pb(3) by (simp_all add: out_queue_def out_room_def)
  from dump_tcp_head [OF pb(2) this(1) ok this(2) _ ip cb] queue(5) pb(4,5) show ?thesis by (auto simp: h2 split: if_splits)
qed

text \<open>A SYN from port 9 of the client 10 to port 80 of the guest 20, and a later packet that acknowledges 5.\<close>

definition sample_frame :: "u8 \<Rightarrow> u8 \<Rightarrow> memory" where
  "sample_frame flags ack = (\<lambda>_. 0)(24 := 0x45, 33 := 6, 36 := 10, 40 := 20, 45 := 9, 47 := 80, 55 := ack, 57 := flags)"

definition sample_host :: "unit host" where
  "sample_host = \<lparr>node = proxy_init None [], cmgr = con_manager_init, pbufs = \<lparr>outgoing_buffer = filled_ring [] 200,
     tcp_buffer = filled_ring [] 200, udp_done = False, tcp_done = False\<rparr>, reported = []\<rparr>"

lemmas frame_evals = sample_frame_def tcp_frame_def syn_frame_def tcph_def iph_def MSG_OFF_def eth_hdr_len_def ip_header_size_def
  load32_def load16_def be16_def be32_def mem_read_def upt_rec TH_SYN_def SERVICE_PORT_def

lemma sample_frames:
  "tcp_frame (sample_frame 2 0) 60" "syn_frame (sample_frame 2 0)" "tcp_frame (sample_frame 16 5) 60" "\<not> syn_frame (sample_frame 16 5)"
  "load32 (sample_frame 16 5) (iph + 16) = 20" "load32 (sample_frame 16 5) (iph + 12) = 10"
  "be16 (sample_frame 16 5) (tcph (sample_frame 16 5)) = 9" "be32 (sample_frame 16 5) (tcph (sample_frame 16 5) + 8) = 5"
  "frame_con (0, 0) (sample_frame 16 5) = frame_con (0, 0) (sample_frame 2 0)"
  by (simp_all add: frame_evals frame_con_def)

theorem new_connection_waits_witness:
  "\<exists>h1 h2. do_action_raw (0, 0) 20 (sample_frame 2 0) 60 sample_host = Some h1 \<and>
     do_action_raw (0, 0) 20 (sample_frame 16 5) 60 h1 = Some h2 \<and> dump_tcp_buffer True (0, 0) (cmgr h2) (pbufs h2) = Some (-1, pbufs h2)"
proof -
  obtain h1 where h1: "do_action_raw (0, 0) 20 (sample_frame 2 0) 60 sample_host = Some h1" "pbufs h1 = pbufs sample_host"
    "con_out_seq_list (cmgr h1) (clear_pad (frame_con (0, 0) (sample_frame 16 5))) = Some 0"
    using sample_frames(1,2,9) by (simp add: do_action_raw_def tcp_frame_def syn_frame_def save_isn_def flush_con_out_seq_def Let_def
        frame_con_rev_def frame_con_def clear_pad_def reverse_con_def)
  have q: "tcp_queue (pbufs sample_host) []" "out_queue (pbufs sample_host) []" "out_room (pbufs sample_host) 68"
    "88 \<le> ringbuf_capacity (tcp_buffer (pbufs sample_host))" "rb_tail (tcp_buffer (pbufs sample_host)) + 20 \<le> rb_size (tcp_buffer (pbufs sample_host))"
    using filled_ring [of "[]" 200]
    by (simp_all add: sample_host_def tcp_queue_def out_queue_def out_room_def filled_ring_def ringbuf_capacity_def)
  obtain pb where "write_to_tcp_buffer (pbufs h1) (frame_con (0, 0) (sample_frame 16 5)) 5 (mem_read (sample_frame 16 5) 0 60) = Some (60, pb)"
    using write_to_tcp_buffer_queue [OF q(1), of "mem_read (sample_frame 16 5) 0 60" "frame_con (0, 0) (sample_frame 16 5)" 5] q(4) h1(2)
      empty_queue_used [OF q(1)] by auto
  then obtain h2 where h2: "do_action_raw (0, 0) 20 (sample_frame 16 5) 60 h1 = Some h2" "cmgr h2 = cmgr h1"
    using sample_frames(3-8) by (simp add: do_action_raw_def tcp_frame_def syn_frame_def SERVICE_PORT_def)
  have "if (5 :: u32) \<le> 0 + 1 then \<exists>pb. dump_tcp_buffer True (0, 0) (cmgr h2) (pbufs h2) = Some (int 60, pb) \<and>
      out_queue pb ([] @ [Packet (mem_read (sample_frame 16 5) 0 60)])
    else dump_tcp_buffer True (0, 0) (cmgr h2) (pbufs h2) = Some (-1, pbufs h2)"
    using new_connection_waits [OF h1(1) sample_frames(1,2,9), of 60 "[]" h2 0 "[]"] h1 h2 q sample_frames(3-8)
    by (simp add: guest_out_def SERVICE_PORT_def)
  then show ?thesis using h1(1) h2(1) by (auto simp: word_le_nat_alt split: if_splits)
qed

end
