(* ===== verification/Framing.thy ===== *)
theory Framing
  imports Dare_Prelude
begin

text \<open>
  The length-prefixed messages between the managers and the intercepting library (common.c of the guest
  and vpb/common.c of the host).  A connected socket is the bytes that are still to arrive, the bytes
  sent, and what the kernel does with each call of \<open>recv\<close> and \<open>send\<close>: a negative number is an error, any
  other one the largest number of bytes it moves.  When a schedule is used up \<open>recv\<close> reports the end of
  the stream, and \<open>send\<close> waits forever (\<open>None\<close>).
\<close>

record sock =
  incoming :: "u8 list"
  outgoing :: "u8 list"
  recv_sched :: "int list"
  send_sched :: "int list"

definition recv :: "nat \<Rightarrow> sock \<Rightarrow> int \<times> u8 list \<times> sock" where
  "recv n s =
    (case recv_sched s of
       [] \<Rightarrow> (0, [], s)
     | k # ks \<Rightarrow>
        if k < 0 then (k, [], s\<lparr>recv_sched := ks\<rparr>)
        else let bs = take (min (nat k) n) (incoming s)
             in (int (length bs), bs, s\<lparr>incoming := drop (length bs) (incoming s), recv_sched := ks\<rparr>))"

definition send :: "u8 list \<Rightarrow> sock \<Rightarrow> (int \<times> sock) option" where
  "send data s =
    (case send_sched s of
       [] \<Rightarrow> None
     | k # ks \<Rightarrow>
        if k < 0 then Some (k, s\<lparr>send_sched := ks\<rparr>)
        else let bs = take (nat k) data in Some (int (length bs), s\<lparr>outgoing := outgoing s @ bs, send_sched := ks\<rparr>))"

text \<open>\<open>htonl\<close> and \<open>ntohl\<close> of a 32-bit length in memory.\<close>

definition be32_enc :: "nat \<Rightarrow> u8 list" where
  "be32_enc n = rev (le_enc 4 n)"

definition be32_dec :: "u8 list \<Rightarrow> int" where
  "be32_dec bs = sint (of_nat (le_dec (rev bs)) :: u32)"

section \<open>Sending\<close>

lemma send_sched_less: "send data s = Some (ret, s') \<Longrightarrow> length (send_sched s') < length (send_sched s)"
  by (auto simp: send_def Let_def split: list.splits if_splits)

function send_loop :: "u8 list \<Rightarrow> sock \<Rightarrow> (int \<times> sock) option" where
  "send_loop data s =
    (case send data s of
       None \<Rightarrow> None
     | Some (ret, s) \<Rightarrow>
        if ret < 0 then Some (-1, s)
        else if length data - nat ret > 0 then send_loop (drop (nat ret) data) s
        else Some (0, s))"
  by pat_completeness auto
termination
  by (relation "measure (\<lambda>(data, s). length (send_sched s))") (auto dest: send_sched_less)

declare send_loop.simps [simp del]

definition send_bytes :: "u8 list \<Rightarrow> sock \<Rightarrow> (int \<times> sock) option" where
  "send_bytes buf s = send_loop (be32_enc (length buf) @ buf) s"

section \<open>Receiving\<close>

lemma recv_sched_less: "recv n s = (ret, bs, s') \<Longrightarrow> ret \<noteq> 0 \<Longrightarrow> length (recv_sched s') < length (recv_sched s)"
  by (auto simp: recv_def Let_def split: list.splits if_splits)

text \<open>The loop of \<open>recv_bytes\<close>; the result of a failed call, 0 at the end of the stream, or the number of
  bytes of the message, and the bytes read so far.\<close>

function recv_loop :: "nat \<Rightarrow> nat \<Rightarrow> u8 list \<Rightarrow> sock \<Rightarrow> int \<times> u8 list \<times> sock" where
  "recv_loop len left data s =
    (let (ret, bs, s) = recv left s in
     if ret < 0 then (ret, data, s)
     else if ret = 0 then (0, data, s)
     else if left - nat ret > 0 then recv_loop len (left - nat ret) (data @ bs) s
     else (int len, data @ bs, s))"
  by pat_completeness auto
termination
  by (relation "measure (\<lambda>(n, left, data, s). length (recv_sched s))") (auto dest!: recv_sched_less [OF sym])

declare recv_loop.simps [simp del]

text \<open>The guest's \<open>recv_bytes\<close>: the result, the length (unassigned, \<open>None\<close>, when the first call fails) and
  the message.  A short read of the length leaves the other bytes of \<open>tmp\<close> as they were (\<open>junk\<close>).  A
  negative length makes the allocation fail and is not followed further (\<open>None\<close>).\<close>

definition recv_bytes :: "u8 list \<Rightarrow> sock \<Rightarrow> (int \<times> int option \<times> u8 list \<times> sock) option" where
  "recv_bytes junk s =
    (let (ret, bs, s) = recv 4 s in
     if ret < 0 then Some (ret, None, [], s)
     else if ret = 0 then Some (0, None, [], s)
     else let len = be32_dec (bs @ drop (length bs) (take 4 junk)) in
       if len < 0 then None
       else let (ret, data, s) = recv_loop (nat len) (nat len) [] s in Some (ret, Some len, data, s))"

text \<open>The host's version ignores the result of the first call and reports every error as -1.\<close>

definition recv_bytes_host :: "u8 list \<Rightarrow> sock \<Rightarrow> (int \<times> int option \<times> u8 list \<times> sock) option" where
  "recv_bytes_host junk s =
    (let (ret, bs, s) = recv 4 s; len = be32_dec (bs @ drop (length bs) (take 4 junk)) in
     if len < 0 then None
     else let (ret, data, s) = recv_loop (nat len) (nat len) [] s
          in Some (if ret < 0 then -1 else ret, Some len, data, s))"

section \<open>Properties\<close>

definition frame :: "u8 list \<Rightarrow> u8 list" where
  "frame buf = be32_enc (length buf) @ buf"

lemma le_enc_4: "le_enc 4 x = [of_nat (x mod 256), of_nat (x div 256 mod 256), of_nat (x div 65536 mod 256), of_nat (x div 16777216 mod 256)]"
proof -
  have "(4::nat) = Suc (Suc (Suc (Suc 0)))" by simp
  then show ?thesis by (simp only: le_enc.simps) (simp add: div_mult2_eq [symmetric])
qed

lemma length_be32_enc [simp]: "length (be32_enc n) = 4"
  by (simp add: be32_enc_def)

lemma be32_dec_enc [simp]: "n < 2 ^ 31 \<Longrightarrow> be32_dec (be32_enc n) = int n"
proof -
  assume n: "n < 2 ^ 31"
  then have "le_dec (le_enc 4 n) = n" by (intro le_dec_enc_id) simp
  then show ?thesis using n by (simp add: be32_dec_def be32_enc_def signed_of_nat signed_take_bit_int_eq_self)
qed

lemma send_loop_appends: "send_loop data s = Some (0, s') \<Longrightarrow> outgoing s' = outgoing s @ data"
proof (induction data s rule: send_loop.induct)
  case (1 data s)
  then obtain ret t where t: "send data s = Some (ret, t)" "0 \<le> ret"
    by (auto simp: send_loop.simps [of data] split: option.splits if_splits)
  then have o: "outgoing t = outgoing s @ take (nat ret) data" "nat ret \<le> length data"
    by (auto simp: send_def Let_def min_def split: list.splits if_splits)
  show ?case
  proof (cases "length data - nat ret > 0")
    case True
    then have "send_loop (drop (nat ret) data) t = Some (0, s')" using 1(2) t by (simp add: send_loop.simps [of data])
    then show ?thesis using 1(1) [OF t(1) refl _ True] t(2) o by simp
  next
    case False
    then have "s' = t" using 1(2) t by (simp add: send_loop.simps [of data])
    then show ?thesis using o False by simp
  qed
qed

lemma send_loop_completes:
  "data \<noteq> [] \<Longrightarrow> list_all (\<lambda>k. 0 \<le> k) (send_sched s) \<Longrightarrow> int (length data) \<le> sum_list (send_sched s) \<Longrightarrow>
    \<exists>s'. send_loop data s = Some (0, s')"
proof (induction data s rule: send_loop.induct)
  case (1 data s)
  then obtain k ks where k: "send_sched s = k # ks" "0 \<le> k" by (cases "send_sched s") auto
  define t where "t = s\<lparr>outgoing := outgoing s @ take (nat k) data, send_sched := ks\<rparr>"
  have t: "send data s = Some (int (min (length data) (nat k)), t)" using k by (simp add: send_def t_def Let_def)
  show ?case
  proof (cases "nat k < length data")
    case True
    then have "\<exists>s'. send_loop (drop (nat k) data) t = Some (0, s')"
      using 1(1) [OF t refl] 1(2-4) k by (simp add: t_def list_all_iff min_def)
    then show ?thesis using True t k by (simp add: send_loop.simps [of data] min_def)
  qed (use t k in \<open>auto simp: send_loop.simps [of data] min_def\<close>)
qed



lemma recv_loop_complete:
  "m \<noteq> [] \<Longrightarrow> incoming s = m @ rest \<Longrightarrow> \<forall>k\<in>set (recv_sched s). 1 \<le> k \<Longrightarrow> length m \<le> length (recv_sched s) \<Longrightarrow>
    \<exists>j\<le>length m. recv_loop len (length m) data s = (int len, data @ m, s\<lparr>incoming := rest, recv_sched := drop j (recv_sched s)\<rparr>)"
proof (induction m arbitrary: data s rule: length_induct)
  case (1 m)
  obtain k ks where k: "recv_sched s = k # ks" "1 \<le> k" using 1(2,4,5) by (cases "recv_sched s") auto
  define n where "n = min (nat k) (length m)"
  have n: "0 < n" "n \<le> length m" using k(2) 1(2) by (auto simp: n_def)
  define t where "t = s\<lparr>incoming := drop n m @ rest, recv_sched := ks\<rparr>"
  have r: "recv (length m) s = (int n, take n m, t)"
    using k 1(3) n by (simp add: recv_def t_def n_def Let_def min_absorb1)
  show ?case
  proof (cases "n < length m")
    case True
    have lt: "length (drop n m) < length m" "length m - n \<le> length ks" using n True 1(5) k(1) by auto
    obtain j where j: "j \<le> length m - n"
      "recv_loop len (length m - n) (data @ take n m) t = (int len, data @ m, t\<lparr>incoming := rest, recv_sched := drop j ks\<rparr>)"
      using 1(1) [rule_format, OF lt(1), of t "data @ take n m"] 1(4) lt(2) k n True by (auto simp: t_def)
    then show ?thesis
      using r n True k by (intro exI [of _ "Suc j"]) (simp add: recv_loop.simps [of len "length m"] t_def)
  next
    case False
    then show ?thesis using r n k by (intro exI [of _ 1]) (auto simp: recv_loop.simps [of len "length m"] t_def Suc_le_eq)
  qed
qed

lemma recv_bytes_frame:
  assumes "m \<noteq> []" "length m < 2 ^ 31" "incoming s = frame m @ rest" "\<forall>k\<in>set (recv_sched s). 4 \<le> k" "length m < length (recv_sched s)"
  shows "\<exists>j\<le>length m. recv_bytes junk s =
    Some (int (length m), Some (int (length m)), m, s\<lparr>incoming := rest, recv_sched := drop (Suc j) (recv_sched s)\<rparr>)"
proof -
  obtain k ks where k: "recv_sched s = k # ks" "4 \<le> k" "\<forall>k\<in>set ks. 1 \<le> k" "length m \<le> length ks"
    using assms(4,5) by (cases "recv_sched s") force+
  define t where "t = s\<lparr>incoming := m @ rest, recv_sched := ks\<rparr>"
  have r: "recv 4 s = (4, be32_enc (length m), t)" using k assms(3) by (simp add: recv_def t_def frame_def Let_def min_absorb2)
  obtain j where j: "j \<le> length m" "recv_loop (length m) (length m) [] t = (int (length m), m, t\<lparr>incoming := rest, recv_sched := drop j ks\<rparr>)"
    using recv_loop_complete [OF assms(1), of t rest "length m" "[]"] k by (auto simp: t_def)
  then show ?thesis using r assms(2) k(1) by (intro exI [of _ j]) (simp add: recv_bytes_def t_def)
qed

text \<open>Several messages over one connection.\<close>

fun send_all :: "u8 list list \<Rightarrow> sock \<Rightarrow> sock option" where
  "send_all [] s = Some s"
| "send_all (m # ms) s = do { (ret, s) \<leftarrow> send_bytes m s; if ret \<noteq> 0 then None else send_all ms s }"

fun recv_msgs :: "u8 list \<Rightarrow> nat \<Rightarrow> sock \<Rightarrow> (u8 list list \<times> sock) option" where
  "recv_msgs junk 0 s = Some ([], s)"
| "recv_msgs junk (Suc n) s =
    do {
      (ret, len, m, s) \<leftarrow> recv_bytes junk s;
      if ret \<le> 0 then None else do { (ms, s) \<leftarrow> recv_msgs junk n s; Some (m # ms, s) }
    }"

lemma send_all_frames: "send_all ms s = Some s' \<Longrightarrow> outgoing s' = outgoing s @ concat (map frame ms)"
  by (induction ms arbitrary: s)
    (auto simp: send_bytes_def frame_def dest!: send_loop_appends split: Option.bind_splits if_splits)

lemma recv_msgs_frames:
  "\<forall>m\<in>set ms. m \<noteq> [] \<and> length m < 2 ^ 31 \<Longrightarrow> incoming s = concat (map frame ms) @ rest \<Longrightarrow> \<forall>k\<in>set (recv_sched s). 4 \<le> k \<Longrightarrow>
    (\<Sum>m\<leftarrow>ms. length m + 1) \<le> length (recv_sched s) \<Longrightarrow> \<exists>s'. recv_msgs junk (length ms) s = Some (ms, s') \<and> incoming s' = rest"
proof (induction ms arbitrary: s)
  case (Cons m ms)
  obtain j where j: "j \<le> length m" "recv_bytes junk s = Some (int (length m), Some (int (length m)), m,
      s\<lparr>incoming := concat (map frame ms) @ rest, recv_sched := drop (Suc j) (recv_sched s)\<rparr>)"
    using recv_bytes_frame [of m s "concat (map frame ms) @ rest" junk] Cons.prems by auto
  let ?t = "s\<lparr>incoming := concat (map frame ms) @ rest, recv_sched := drop (Suc j) (recv_sched s)\<rparr>"
  have "\<exists>s'. recv_msgs junk (length ms) ?t = Some (ms, s') \<and> incoming s' = rest"
    using Cons.prems j(1) by (intro Cons.IH) (auto dest: in_set_dropD)
  then show ?case using j(2) Cons.prems(1) by auto
qed simp


text \<open>A sender whose two messages leave in three pieces, and a receiver that gets them in pieces of four bytes
  and more.\<close>

definition sample_sender :: sock where
  "sample_sender = \<lparr>incoming = [], outgoing = [], recv_sched = [], send_sched = [3, 4, 9]\<rparr>"

definition sample_receiver :: sock where
  "sample_receiver = \<lparr>incoming = [0, 0, 0, 2, 5, 6, 0, 0, 0, 1, 9], outgoing = [], recv_sched = [9, 4, 5, 7, 4], send_sched = []\<rparr>"

lemmas framing_evals = send_all.simps send_bytes_def send_loop.simps send_def be32_enc_def le_enc_4 sample_sender_def sample_receiver_def



end
