(* ===== verification/Guest.thy ===== *)
theory Guest
  imports Framing Tpl
begin

text \<open>
  The connection manager of the guest (project/src/con-manager-guest.c): the table of the connections that
  were agreed for a later \<open>connect\<close>, the reports of agreed connections that come from the host, the queries
  of the intercepting library, and the heartbeats.  A pass of a thread's loop is one function; what the
  kernel answers is part of the state.  A datagram or a message that cannot be unpacked is not followed
  (\<open>None\<close>).
\<close>

definition CONNECT_CON :: u16 where "CONNECT_CON = 1"

definition ACCEPT_CON :: u16 where "ACCEPT_CON = 2"

definition CONNECT_QUERY :: u16 where "CONNECT_QUERY = 3"

lemmas con_type_defs = CONNECT_CON_def ACCEPT_CON_def CONNECT_QUERY_def

definition BUFLEN :: nat where "BUFLEN = 512"

text \<open>\<open>MY_HOST_IP\<close>, 10.22.1.2, in network byte order.\<close>

definition MY_HOST_IP :: u32 where "MY_HOST_IP = 0x0201160A"

record con_list_entry =
  e_src_ip :: u32
  e_src_port :: u16
  e_send_seq :: u32
  e_recv_seq :: u32
  e_has_timestamp :: u16
  e_timestamp :: u32
  e_mss_clamp :: u32
  e_snd_wscale :: u32
  e_rcv_wscale :: u32
  e_has_rcv_wscale :: u16

text \<open>The state of the manager.  \<open>connect_rcs\<close> are the results of its calls of \<open>connect\<close>; \<open>new_socks\<close> are the
  sockets that \<open>create_connection\<close> gets (\<open>None\<close> when \<open>socket\<close> fails) and \<open>made\<close> those it has used.  The report
  thread can end (\<open>reporting\<close>).\<close>

record guest =
  iamleader :: bool
  sk_consensus_connected :: bool
  sk_ask_consensus :: sock
  connect_con_list :: "u32 \<times> u16 \<rightharpoonup> con_list_entry"
  connect_rcs :: "int list"
  new_socks :: "sock option list"
  made :: "((u32 \<times> u16) \<times> sock) list"
  reporting :: bool
  hb_buf :: "u8 list"

definition init_con_manager_guest :: "sock \<Rightarrow> int list \<Rightarrow> sock option list \<Rightarrow> u8 list \<Rightarrow> guest" where
  "init_con_manager_guest s rcs socks junk = \<lparr>iamleader = False, sk_consensus_connected = False, sk_ask_consensus = s,
     connect_con_list = Map.empty, connect_rcs = rcs, new_socks = socks, made = [], reporting = True, hb_buf = junk\<rparr>"

section \<open>The table of agreed connections\<close>

definition hash_insert :: "con_info_type \<Rightarrow> guest \<Rightarrow> guest" where
  "hash_insert ci g =
    (let entry = \<lparr>e_src_ip = src_ip (con_id ci), e_src_port = src_port (con_id ci), e_send_seq = send_seq ci,
           e_recv_seq = recv_seq ci, e_has_timestamp = has_timestamp ci, e_timestamp = timestamp ci, e_mss_clamp = mss_clamp ci,
           e_snd_wscale = snd_wscale ci, e_rcv_wscale = rcv_wscale ci, e_has_rcv_wscale = has_rcv_wscale ci\<rparr>
     in g\<lparr>connect_con_list := (connect_con_list g)((dst_ip (con_id ci), dst_port (con_id ci)) \<mapsto> entry)\<rparr>)"

definition hash_find :: "con_info_type \<Rightarrow> guest \<Rightarrow> con_info_type option" where
  "hash_find ci g =
    (case connect_con_list g (dst_ip (con_id ci), dst_port (con_id ci)) of
       None \<Rightarrow> None
     | Some e \<Rightarrow> Some (ci\<lparr>con_id := (con_id ci)\<lparr>src_ip := e_src_ip e, src_port := e_src_port e\<rparr>, send_seq := e_send_seq e,
         recv_seq := e_recv_seq e, has_timestamp := e_has_timestamp e, timestamp := e_timestamp e, mss_clamp := e_mss_clamp e,
         snd_wscale := e_snd_wscale e, rcv_wscale := e_rcv_wscale e, has_rcv_wscale := e_has_rcv_wscale e\<rparr>))"

section \<open>Reports of agreed connections\<close>

text \<open>At most \<open>n\<close> calls of \<open>connect\<close>.\<close>

fun connect_tries :: "nat \<Rightarrow> int list \<Rightarrow> (int \<times> int list) option" where
  "connect_tries 0 rcs = Some (-1, rcs)"
| "connect_tries (Suc n) [] = None"
| "connect_tries (Suc n) (r # rcs) = (if r < 0 then connect_tries n rcs else Some (r, rcs))"

text \<open>When it cannot connect, \<open>create_connection\<close> ends the thread that called it.\<close>

definition create_connection :: "con_info_type \<Rightarrow> guest \<Rightarrow> guest option" where
  "create_connection ci g =
    (case new_socks g of
       [] \<Rightarrow> None
     | None # socks \<Rightarrow> Some (g\<lparr>new_socks := socks, reporting := False\<rparr>)
     | Some sk # socks \<Rightarrow>
        do {
          (ret, rcs) \<leftarrow> connect_tries 10 (connect_rcs g);
          let g = g\<lparr>new_socks := socks, connect_rcs := rcs\<rparr>;
          if ret < 0 then Some (g\<lparr>reporting := False\<rparr>)
          else do {
            (ret, sk) \<leftarrow> send_bytes (con_info_serialize ci) sk;
            Some (g\<lparr>made := made g @ [((src_ip (con_id ci), src_port (con_id ci)), sk)]\<rparr>)
          }
        })"

text \<open>A pass of \<open>serve_report\<close> with a datagram from the address \<open>from\<close>; the record is unpacked into memory of
  \<open>malloc\<close> (\<open>old\<close>).\<close>

definition serve_report_pass :: "con_info_type \<Rightarrow> u32 \<Rightarrow> u8 list \<Rightarrow> guest \<Rightarrow> guest option" where
  "serve_report_pass old from dgram g =
    (if \<not> reporting g then None
     else if from \<noteq> MY_HOST_IP then Some g
     else if iamleader g then Some g
     else do {
       ci \<leftarrow> con_info_deserialize old (take BUFLEN dgram);
       if con_type ci = ACCEPT_CON then create_connection ci g
       else if con_type ci = CONNECT_CON then Some (hash_insert ci g)
       else Some g
     })"

section \<open>Queries of the intercepting library\<close>

definition sk_ask_consensus_connect :: "guest \<Rightarrow> (int \<times> guest) option" where
  "sk_ask_consensus_connect g =
    (case connect_rcs g of
       [] \<Rightarrow> None
     | r # rcs \<Rightarrow>
        if r < 0 then Some (-1, g\<lparr>connect_rcs := rcs\<rparr>)
        else Some (0, g\<lparr>connect_rcs := rcs, sk_consensus_connected := True\<rparr>))"

definition ask_send :: "u8 list \<Rightarrow> guest \<Rightarrow> (int \<times> guest) option" where
  "ask_send buf g = map_option (\<lambda>(ret, s). (ret, g\<lparr>sk_ask_consensus := s\<rparr>)) (send_bytes buf (sk_ask_consensus g))"

text \<open>\<open>reset\<close> tells whether the error of a failed \<open>send\<close> is \<open>ECONNRESET\<close> or \<open>EDESTADDRREQ\<close>.\<close>

definition send_for_consensus :: "bool \<Rightarrow> con_info_type \<Rightarrow> guest \<Rightarrow> (int \<times> guest) option" where
  "send_for_consensus reset ci g =
    do {
      let buf = con_info_serialize ci;
      (ret, g) \<leftarrow> (if sk_consensus_connected g then Some (0, g) else sk_ask_consensus_connect g);
      if ret < 0 then Some (-1, g)
      else do {
        (ret, g) \<leftarrow> ask_send buf g;
        if ret < 0 then
          if reset then do {
            (ret, g) \<leftarrow> sk_ask_consensus_connect g;
            if ret \<noteq> 0 then Some (-1, g)
            else do { (ret, g) \<leftarrow> ask_send buf g; Some (if ret \<noteq> 0 then -1 else 0, g) }
          }
          else Some (-1, g)
        else Some (0, g)
      }
    }"

text \<open>A pass of \<open>serve_query\<close>: whether the thread goes on, the manager and the socket.  The flag of the leader
  is a C enumeration, whose four bytes are the answer to a request for consensus.\<close>

definition serve_query_pass ::
  "bool \<Rightarrow> u8 list \<Rightarrow> con_info_type \<Rightarrow> guest \<Rightarrow> sock \<Rightarrow> (bool \<times> guest \<times> sock) option" where
  "serve_query_pass reset junk old g sk =
    do {
      (ret, len, buf, sk) \<leftarrow> recv_bytes junk sk;
      if ret \<le> 0 then Some (False, g, sk)
      else if len = Some 1 then do {
        (ret, sk) \<leftarrow> send_bytes [of_bool (iamleader g)] sk;
        Some (True, g, sk)
      }
      else do {
        ci \<leftarrow> con_info_deserialize old buf;
        if iamleader g then do {
          (ret, g) \<leftarrow> send_for_consensus reset ci g;
          if ret < 0 then Some (False, g, sk)
          else do { (ret, sk) \<leftarrow> send (le_enc 4 (of_bool (iamleader g))) sk; Some (True, g, sk) }
        }
        else if con_type ci = CONNECT_QUERY then
          (case hash_find ci g of
             None \<Rightarrow> do { (ret, sk) \<leftarrow> send [0] sk; Some (True, g, sk) }
           | Some ci \<Rightarrow> do {
               (ret, sk) \<leftarrow> send [1] sk;
               (ret, sk) \<leftarrow> send_bytes (con_info_serialize ci) sk;
               Some (True, g, sk)
             })
        else Some (True, g, sk)
      }
    }"

section \<open>Heartbeats\<close>

text \<open>A pass of \<open>recv_hb\<close>: a datagram overwrites the start of the buffer, a failed call leaves it as it is, and the
  first eight bytes are compared with the address of the own host.\<close>

definition recv_hb_pass :: "u8 list option \<Rightarrow> guest \<Rightarrow> guest" where
  "recv_hb_pass dgram g =
    (let buf = (case dgram of None \<Rightarrow> hb_buf g | Some d \<Rightarrow> take 32 d @ drop (length (take 32 d)) (hb_buf g))
     in g\<lparr>hb_buf := buf, iamleader := le_dec (take 8 buf) = unat MY_HOST_IP\<rparr>)"

end
