(* ===== verification/Intercept.thy ===== *)
theory Intercept
  imports Guest
begin

text \<open>
  The library that intercepts the socket calls of the application in the guest (project/src/intercept.c).
  The calls it makes of the kernel are recorded in order with their answers; \<open>answer\<close> gives the result of each one from its
  number and the call, and \<open>facts\<close> what the kernel reports of a connected socket.  A failed call answers
  the negated error number and returns -1.  The connection with the manager and the stream of the accepted socket are
  byte streams.  Where the code uses a value that was never assigned there is no result (\<open>None\<close>), except
  for the two functions that end without a return statement, whose value is \<open>no_return\<close>.
\<close>

datatype repair_queue = SEND_QUEUE | RECV_QUEUE

datatype syscall =
    Socket
  | Close int
  | Accept int
  | Connect int "u32 \<times> u16"
  | Bind int "u32 \<times> u16"
  | SetReuseAddr int
  | SetReusePort int
  | SetRepair int bool
  | SetRepairQueue int repair_queue
  | SetQueueSeq int u32
  | SetRepairOption int nat u32
  | SetTimestamp int u32
  | GetQueueSeq int
  | GetTcpInfo int
  | GetTimestamp int
  | GetMaxseg int
  | GetSockName int
  | GetPeerName int
  | SendByte int u8

record tcp_facts =
  f_send_seq :: u32
  f_recv_seq :: u32
  f_options :: u8
  f_snd_wscale :: u32
  f_rcv_wscale :: u32
  f_timestamp :: u32
  f_mss :: u32
  f_local :: "u32 \<times> u16"
  f_remote :: "u32 \<times> u16"

record kernel =
  answer :: "nat \<Rightarrow> syscall \<Rightarrow> int"
  facts :: "int \<Rightarrow> tcp_facts"
  calls :: "(syscall \<times> int) list"
  tomgr :: sock
  accepted :: sock
  errno :: int
  no_return :: int

definition sys :: "syscall \<Rightarrow> kernel \<Rightarrow> int \<times> kernel" where
  "sys c k =
    (let a = answer k (length (calls k)) c; k = k\<lparr>calls := calls k @ [(c, a)]\<rparr>
     in if a < 0 then (-1, k\<lparr>errno := - a\<rparr>) else (a, k))"

definition TCPI_OPT_TIMESTAMPS :: u8 where "TCPI_OPT_TIMESTAMPS = 1"

definition TCPI_OPT_WSCALE :: u8 where "TCPI_OPT_WSCALE = 4"

definition TCPOPT_MAXSEG :: nat where "TCPOPT_MAXSEG = 2"

definition TCPOPT_WINDOW :: nat where "TCPOPT_WINDOW = 3"

definition TCPOPT_TIMESTAMP :: nat where "TCPOPT_TIMESTAMP = 8"

text \<open>\<open>CON_MGR_IP\<close> (127.0.0.1) and \<open>MY_IP\<close> (10.22.1.100) in network byte order, and the ports.\<close>

definition CON_MGR_IP :: u32 where "CON_MGR_IP = 0x0100007F"

definition MY_IP :: u32 where "MY_IP = 0x6401160A"

definition CON_MGR_PORT :: u16 where "CON_MGR_PORT = 7777"

definition QEMU_PORT :: u16 where "QEMU_PORT = 4321"

text \<open>\<open>htons\<close> and \<open>ntohs\<close>.\<close>

definition htons :: "u16 \<Rightarrow> u16" where
  "htons p = push_bit 8 p OR drop_bit 8 p"

section \<open>Helpers\<close>

definition tcp_repair_on :: "int \<Rightarrow> kernel \<Rightarrow> int \<times> kernel" where
  "tcp_repair_on fd k = sys (SetRepair fd True) k"

definition tcp_repair_off :: "int \<Rightarrow> kernel \<Rightarrow> int \<times> kernel" where
  "tcp_repair_off fd k = sys (SetRepair fd False) k"

text \<open>The result and, when both calls succeed, the number read.  A successful call has no return statement.\<close>

definition get_tcp_queue_seq :: "int \<Rightarrow> repair_queue \<Rightarrow> kernel \<Rightarrow> int \<times> u32 option \<times> kernel" where
  "get_tcp_queue_seq fd queue k =
    (let (ret, k) = sys (SetRepairQueue fd queue) k in
     if ret < 0 then (-1, None, k)
     else let (ret, k) = sys (GetQueueSeq fd) k in
       if ret < 0 then (-1, None, k)
       else (no_return k, Some (case queue of SEND_QUEUE \<Rightarrow> f_send_seq (facts k fd) | RECV_QUEUE \<Rightarrow> f_recv_seq (facts k fd)), k))"

definition set_tcp_queue_seq :: "int \<Rightarrow> repair_queue \<Rightarrow> u32 \<Rightarrow> kernel \<Rightarrow> int \<times> kernel" where
  "set_tcp_queue_seq fd queue seq k =
    (let (ret, k) = sys (SetRepairQueue fd queue) k in
     if ret < 0 then (-1, k)
     else let (ret, k) = sys (SetQueueSeq fd seq) k in if ret < 0 then (-1, k) else (0, k))"

definition get_tcp_con_id :: "int \<Rightarrow> con_info_type \<Rightarrow> kernel \<Rightarrow> int \<times> con_info_type \<times> kernel" where
  "get_tcp_con_id fd ci k =
    (let (ret, k) = sys (GetPeerName fd) k in
     if ret \<noteq> 0 then (-1, ci, k)
     else
       let (ip, port) = f_remote (facts k fd); ci = ci\<lparr>con_id := (con_id ci)\<lparr>dst_ip := ip, dst_port := port\<rparr>\<rparr>;
           (ret, k) = sys (GetSockName fd) k
       in if ret \<noteq> 0 then (-1, ci, k)
          else let (ip, port) = f_local (facts k fd) in (0, ci\<lparr>con_id := (con_id ci)\<lparr>src_ip := ip, src_port := port\<rparr>\<rparr>, k))"

definition set_reuse :: "int \<Rightarrow> kernel \<Rightarrow> int \<times> kernel" where
  "set_reuse fd k =
    (let (ret, k) = sys (SetReuseAddr fd) k in
     if ret < 0 then (-1, k) else let (ret, k) = sys (SetReusePort fd) k in if ret < 0 then (-1, k) else (0, k))"

definition bind_hook :: "int \<Rightarrow> u32 \<times> u16 \<Rightarrow> kernel \<Rightarrow> int \<times> kernel" where
  "bind_hook fd addr k = (let (ret, k) = set_reuse fd k in if ret < 0 then (-1, k) else sys (Bind fd addr) k)"

definition socket_hook :: "kernel \<Rightarrow> int \<times> kernel" where
  "socket_hook k = (let (fd, k) = sys Socket k; (ret, k) = set_reuse fd k in if ret < 0 then (-1, k) else (fd, k))"

section \<open>Repairing a socket\<close>

text \<open>From \<open>tcp_repair_on\<close> to the connection, and the options after it: the part that \<open>replace_tcp\<close> and \<open>connect\<close>
  have in common.\<close>

definition set_options :: "int \<Rightarrow> con_info_type \<Rightarrow> kernel \<Rightarrow> int \<times> kernel" where
  "set_options fd ci k =
    (let (ret, k) =
       (if has_timestamp ci \<noteq> 0 then
          let (ret, k) = sys (SetRepairOption fd TCPOPT_TIMESTAMP 0) k in
          if ret < 0 then (-1, k) else let (ret, k) = sys (SetTimestamp fd (timestamp ci)) k in if ret < 0 then (-1, k) else (0, k)
        else (0 :: int, k)) in
     if ret < 0 then (-1, k)
     else let (ret, k) = sys (SetRepairOption fd TCPOPT_MAXSEG (mss_clamp ci)) k in
       if ret < 0 then (-1, k)
       else if has_rcv_wscale ci \<noteq> 0 then
         let (ret, k) = sys (SetRepairOption fd TCPOPT_WINDOW (snd_wscale ci + push_bit 16 (rcv_wscale ci))) k
         in if ret < 0 then (-1, k) else (0, k)
       else (0, k))"

definition repair_socket :: "int \<Rightarrow> u32 \<times> u16 \<Rightarrow> con_info_type \<Rightarrow> kernel \<Rightarrow> int \<times> kernel" where
  "repair_socket fd localaddr ci k =
    (let (ret, k) = tcp_repair_on fd k in
     if ret \<noteq> 0 then (ret, k)
     else let (ret, k) = set_tcp_queue_seq fd RECV_QUEUE (recv_seq ci) k in
     if ret \<noteq> 0 then (-1, k)
     else let (ret, k) = set_tcp_queue_seq fd SEND_QUEUE (send_seq ci - 1) k in
     if ret \<noteq> 0 then (-1, k)
     else let (ret, k) = set_reuse fd k in
     if ret < 0 then (-1, k)
     else let (ret, k) = bind_hook fd localaddr k in
     if ret \<noteq> 0 then (-1, k)
     else let (ret, k) = sys (Connect fd (dst_ip (con_id ci), dst_port (con_id ci))) k in
     if ret \<noteq> 0 then (-1, k)
     else let (ret, k) = set_options fd ci k in
     if ret < 0 then (-1, k)
     else let (ret, k) = sys (SendByte fd 1) k; (ret, k) = tcp_repair_off fd k in (0, k))"

text \<open>The result, the new socket and the kernel.\<close>

definition replace_tcp :: "int \<Rightarrow> con_info_type \<Rightarrow> kernel \<Rightarrow> int \<times> int \<times> kernel" where
  "replace_tcp sk ci k =
    (let (ret, k) = tcp_repair_on sk k in
     if ret \<noteq> 0 then (ret, sk, k)
     else let (ret, k) = sys (GetSockName sk) k in
     if ret \<noteq> 0 then (-1, sk, k)
     else let localaddr = f_local (facts k sk); (ret, k) = sys (Close sk) k; (sk, k) = socket_hook k;
              (ret, k) = repair_socket sk localaddr ci k
          in (ret, sk, k))"

section \<open>Accepted connections\<close>

definition ask_for_consensus :: "con_info_type \<Rightarrow> kernel \<Rightarrow> (int \<times> kernel) option" where
  "ask_for_consensus ci k =
    do {
      (ret, s) \<leftarrow> send_bytes (con_info_serialize ci) (tomgr k);
      if ret < 0 then Some (-1, k\<lparr>tomgr := s\<rparr>)
      else let (ret, bs, s) = recv 1 s in Some (0, k\<lparr>tomgr := s\<rparr>)
    }"

text \<open>What the leader collects of a connection: \<open>None\<close> when a call fails.\<close>

definition connection_info :: "u16 \<Rightarrow> int \<Rightarrow> kernel \<Rightarrow> con_info_type option \<times> kernel" where
  "connection_info type fd k =
    (let (ret, k) = tcp_repair_on fd k;
         (ret, snd, k) = get_tcp_queue_seq fd SEND_QUEUE k in
     if ret < 0 then (None, k)
     else let (ret, rcv, k) = get_tcp_queue_seq fd RECV_QUEUE k in
     if ret < 0 then (None, k)
     else let (ret, k) = sys (GetTcpInfo fd) k in
     if ret \<noteq> 0 then (None, k)
     else let f = facts k fd;
              (ret, k) = (if f_options f AND TCPI_OPT_TIMESTAMPS \<noteq> 0 then sys (GetTimestamp fd) k else (0, k)) in
     if ret \<noteq> 0 then (None, k)
     else let has_ts = f_options f AND TCPI_OPT_TIMESTAMPS \<noteq> 0; has_ws = f_options f AND TCPI_OPT_WSCALE \<noteq> 0;
              (ret, k) = sys (GetMaxseg fd) k in
     if ret < 0 then (None, k)
     else let (ret, k) = tcp_repair_off fd k;
              zero_id = \<lparr>src_ip = 0, src_port = 0, src_pad = 0, dst_ip = 0, dst_port = 0, dst_pad = 0\<rparr>;
              ci = \<lparr>con_id = zero_id, send_seq = the snd, recv_seq = the rcv, has_timestamp = of_bool has_ts,
                    timestamp = (if has_ts then f_timestamp f else 0), mss_clamp = f_mss f,
                    snd_wscale = (if has_ws then f_snd_wscale f else 0), rcv_wscale = (if has_ws then f_rcv_wscale f else 0),
                    has_rcv_wscale = of_bool has_ws, con_type = type\<rparr>;
              (ret, ci, k) = get_tcp_con_id fd ci k
          in (Some ci, k))"

text \<open>Connecting to the manager and asking it for the leadership: the result, the socket and the answer.\<close>

definition check_leadership :: "u8 list \<Rightarrow> kernel \<Rightarrow> (int \<times> int \<times> u8 \<times> kernel) option" where
  "check_leadership junk k =
    (let (fd, k) = socket_hook k in
     if fd < 0 then Some (-1, fd, 0, k)
     else let (ret, k) = sys (Connect fd (CON_MGR_IP, htons CON_MGR_PORT)) k in
     if ret < 0 then Some (-1, fd, 0, k)
     else do {
       (ret, s) \<leftarrow> send_bytes [0] (tomgr k);
       (ret, len, buf, s) \<leftarrow> recv_bytes junk s;
       let k = k\<lparr>tomgr := s\<rparr>;
       n \<leftarrow> len;
       if n \<noteq> 1 then Some (-1, fd, 0, k)
       else if buf = [] then None
       else Some (0, fd, hd buf, k)
     })"

definition handle_accepted_sk :: "u8 list \<Rightarrow> int \<Rightarrow> kernel \<Rightarrow> (int \<times> int \<times> kernel) option" where
  "handle_accepted_sk junk sk k =
    do {
      (ret, sk_tomgr, leader, k) \<leftarrow> check_leadership junk k;
      if ret < 0 then Some (-1, sk, k)
      else if leader = 1 then
        (case connection_info ACCEPT_CON sk k of
           (None, k) \<Rightarrow> Some (-1, sk, k)
         | (Some ci, k) \<Rightarrow> do {
             (ret, k) \<leftarrow> ask_for_consensus ci k;
             let (ret, k) = sys (Close sk_tomgr) k;
             Some (0, sk, k)
           })
      else do {
        (ret, len, buf, s) \<leftarrow> recv_bytes junk (accepted k);
        ci \<leftarrow> con_info_deserialize \<lparr>con_id = \<lparr>src_ip = 0, src_port = 0, src_pad = 0, dst_ip = 0, dst_port = 0, dst_pad = 0\<rparr>,
            send_seq = 0, recv_seq = 0, has_timestamp = 0, timestamp = 0, mss_clamp = 0, snd_wscale = 0, rcv_wscale = 0,
            has_rcv_wscale = 0, con_type = 0\<rparr> buf;
        let (ret, sk, k) = replace_tcp sk ci (k\<lparr>accepted := s\<rparr>);
        let (ret, k) = sys (Close sk_tomgr) k;
        Some (0, sk, k)
      }
    }"

definition accept_hook :: "u8 list \<Rightarrow> int \<Rightarrow> kernel \<Rightarrow> (int \<times> kernel) option" where
  "accept_hook junk sockfd k =
    (let (sk, k) = sys (Accept sockfd) k in
     if sk < 0 then Some (sk, k)
     else let (ret, k) = sys (GetSockName sk) k in
     if htons (snd (f_local (facts k sk))) = CON_MGR_PORT then Some (sk, k)
     else do { (ret, sk, k) \<leftarrow> handle_accepted_sk junk sk k; Some (if ret < 0 then -1 else sk, k) })"

definition accept4_hook :: "u8 list \<Rightarrow> int \<Rightarrow> kernel \<Rightarrow> (int \<times> kernel) option" where
  "accept4_hook junk sockfd k =
    (let (sk, k) = sys (Accept sockfd) k in
     if sk < 0 then Some (sk, k)
     else do { (ret, sk, k) \<leftarrow> handle_accepted_sk junk sk k; Some (if ret < 0 then -1 else sk, k) })"

section \<open>Connections of the application\<close>

definition EINPROGRESS :: int where "EINPROGRESS = 115"

text \<open>The backup asks until the manager knows the connection.\<close>

partial_function (option) query_loop :: "u8 list \<Rightarrow> sock \<Rightarrow> (int \<times> sock) option" where
  "query_loop buf s =
    do {
      (ret, s) \<leftarrow> send_bytes buf s;
      if ret < 0 then Some (-1, s)
      else let (ret, bs, s) = recv 1 s in
        if bs = [] \<or> hd bs = 0 then query_loop buf s else Some (0, s)
    }"

definition connect_query :: "u32 \<times> u16 \<Rightarrow> con_info_type" where
  "connect_query addr =
    \<lparr>con_id = \<lparr>src_ip = 0, src_port = 0, src_pad = 0, dst_ip = fst addr, dst_port = snd addr, dst_pad = 0\<rparr>,
     send_seq = 0, recv_seq = 0, has_timestamp = 0, timestamp = 0, mss_clamp = 0, snd_wscale = 0, rcv_wscale = 0,
     has_rcv_wscale = 0, con_type = CONNECT_QUERY\<rparr>"

text \<open>The branch of the backup; the record is unpacked into memory of \<open>malloc\<close> (\<open>old\<close>).  The result of \<open>connect\<close> is
  \<open>None\<close> when the branch is left by its end.\<close>

definition connect_backup :: "u8 list \<Rightarrow> con_info_type \<Rightarrow> int \<Rightarrow> u32 \<times> u16 \<Rightarrow> kernel \<Rightarrow> (int option \<times> kernel) option" where
  "connect_backup junk old sockfd addr k =
    do {
      (ret, s) \<leftarrow> query_loop (con_info_serialize (connect_query addr)) (tomgr k);
      if ret < 0 then Some (Some (-1), k\<lparr>tomgr := s\<rparr>)
      else do {
        (ret, len, buf, s) \<leftarrow> recv_bytes junk s;
        ci \<leftarrow> con_info_deserialize old buf;
        let (ret, k) = repair_socket sockfd (src_ip (con_id ci), src_port (con_id ci)) ci (k\<lparr>tomgr := s\<rparr>);
        Some (if ret \<noteq> 0 then Some ret else None, k)
      }
    }"

definition connect_leader :: "int \<Rightarrow> u32 \<times> u16 \<Rightarrow> kernel \<Rightarrow> (int option \<times> kernel) option" where
  "connect_leader sockfd addr k =
    (let (ret, k) = sys (Connect sockfd addr) k in
     if ret < 0 \<and> errno k \<noteq> EINPROGRESS then Some (Some ret, k)
     else case connection_info CONNECT_CON sockfd k of
         (None, k) \<Rightarrow> Some (Some (-1), k)
       | (Some ci, k) \<Rightarrow> do { (ret, k) \<leftarrow> ask_for_consensus ci k; Some (None, k) })"

definition connect_hook :: "u8 list \<Rightarrow> con_info_type \<Rightarrow> int \<Rightarrow> u32 \<times> u16 \<Rightarrow> kernel \<Rightarrow> (int \<times> kernel) option" where
  "connect_hook junk old sockfd addr k =
    (if htons (snd addr) = QEMU_PORT \<or> htons (snd addr) = CON_MGR_PORT \<or> fst addr = CON_MGR_IP \<or> fst addr = MY_IP
     then Some (sys (Connect sockfd addr) k)
     else do {
       (ret, sk_tomgr, leader, k) \<leftarrow> check_leadership junk k;
       if ret < 0 then Some (-1, k)
       else do {
         (ret, k) \<leftarrow> (if leader = 1 then connect_leader sockfd addr k else connect_backup junk old sockfd addr k);
         case ret of
           Some r \<Rightarrow> Some (r, k)
         | None \<Rightarrow> let (ret, k) = sys (Close sk_tomgr) k in Some (no_return k, k)
       }
     })"

end
