(* ===== verification/Tpl_Proofs.thy ===== *)
theory Tpl_Proofs
  imports Tpl
begin

text \<open>
  The images of the serialisation library: what is packed is unpacked again, whatever a valid image holds is
  unpacked within its bytes, and the images that are not.
\<close>

section \<open>What an image holds\<close>

fun fits :: "tpl_node \<Rightarrow> tpl_val \<Rightarrow> bool" where
  "fits (Atom sz n) (VBytes bs) = (length bs = sz * n)"
| "fits (Str n) (VStrs ss) = (length ss = n \<and> (\<forall>s \<in> set ss. str_len s + 1 < 2 ^ 32))"
| "fits (Atom sz n) (VStrs ss) = False"
| "fits (Str n) (VBytes bs) = False"

lemma tpl_word_enc: "x < 2 ^ 32 \<Longrightarrow> tpl_word False (le_enc 4 x @ r) = x"
  by (simp add: tpl_word_def le_dec_enc_id del: le_enc.simps)

lemma fmt_char: "c \<in> set tpl_fmt_chars \<Longrightarrow> (of_char c :: u8) \<noteq> 0 \<and> ((of_char c :: u8) = of_char CHR ''#'' \<longleftrightarrow> c = CHR ''#'')"
  by (auto simp: tpl_fmt_chars_def)

lemma scan_fmt_ok:
  "set fmt \<subseteq> set tpl_fmt_chars \<Longrightarrow>
    scan_fmt (map of_char fmt @ 0 # r) = Inr (length fmt, length (filter (\<lambda>c. c = CHR ''#'') fmt))"
  by (induction fmt) (auto simp: fmt_char simp del: of_char_Char)

lemma fxlens_eq_enc: "\<forall>n \<in> set fx. n < 2 ^ 32 \<Longrightarrow> fxlens_eq False fx (concat (map (le_enc 4) fx) @ r)"
  by (induction fx) (simp_all add: tpl_word_enc del: le_enc.simps)

lemma length_dump_str [simp]: "length (dump_str s) = 4 + str_len s"
  by (cases s) (simp_all del: le_enc.simps)

lemma dump_str_word: "str_len s + 1 < 2 ^ 32 \<Longrightarrow> tpl_word False (dump_str s @ r) = (case s of None \<Rightarrow> 0 | Some cs \<Rightarrow> length cs + 1)"
  by (cases s) (simp_all add: tpl_word_enc del: le_enc.simps)

lemma drop_dump_str: "drop (4 + str_len s) (dump_str s @ r) = r" "take (str_len s) (drop 4 (dump_str s @ r)) = (case s of None \<Rightarrow> [] | Some cs \<Rightarrow> cs)"
  by (cases s; simp del: le_enc.simps)+

lemma serlen_strs_dump:
  "\<forall>s \<in> set ss. str_len s + 1 < 2 ^ 32 \<Longrightarrow>
    serlen_strs False False (length ss) (concat (map dump_str ss) @ r) = Some (length (concat (map dump_str ss)))"
proof (induction ss)
  case (Cons s ss)
  have "(let slen = tpl_word False (dump_str s @ t) in if slen > 1 then slen - 1 else 0) = str_len s" for t
    using Cons.prems by (subst dump_str_word) (auto split: option.splits)
  then show ?case using Cons by (simp add: Let_def drop_dump_str)
qed simp

lemma unpack_strs_dump:
  "\<forall>s \<in> set ss. str_len s + 1 < 2 ^ 32 \<Longrightarrow>
    unpack_strs False (length ss) (concat (map dump_str ss) @ r) = Some (ss, r)"
proof (induction ss)
  case (Cons s ss)
  have "tpl_word False (dump_str s @ t) - 1 = str_len s" "tpl_word False (dump_str s @ t) = 0 \<longleftrightarrow> s = None" for t
    using Cons.prems by (subst dump_str_word; auto split: option.splits)+
  moreover have "drop (str_len s) (drop 4 (dump_str s @ t)) = t" for t
    using drop_dump_str(1) [of s t] by (simp add: add.commute)
  ultimately show ?case using Cons by (auto simp: Let_def drop_dump_str simp del: drop_append take_append drop_drop split: option.splits)
qed simp

lemma tpl_serlen_dump:
  "list_all2 fits nodes vals \<Longrightarrow> old \<longrightarrow> (\<forall>n. Str n \<notin> set nodes) \<Longrightarrow>
    tpl_serlen False old nodes (concat (map dump_val vals) @ r) = Some (length (concat (map dump_val vals)))"
proof (induction rule: list_all2_induct)
  case (Cons c cs v vs)
  have "serlen_node False old c (dump_val v @ t) = Some (length (dump_val v))" for t
    using Cons.hyps(1) Cons.prems by (cases "(c, v)" rule: fits.cases) (auto simp: serlen_strs_dump)
  then show ?case using Cons by auto
qed simp

lemma unpack_nodes_dump:
  "list_all2 fits nodes vals \<Longrightarrow> unpack_nodes False nodes (concat (map dump_val vals) @ r) = Some vals"
proof (induction rule: list_all2_induct)
  case (Cons c cs v vs)
  then show ?case by (cases "(c, v)" rule: fits.cases) (auto simp: unpack_strs_dump)
qed simp

lemma length_dump: "list_all2 fits nodes vals \<Longrightarrow> length (tpl_dump fmt fx vals) = tpl_ser_osz fmt fx vals"
proof -
  have "length (dump_val v) = ser_val v" for v by (cases v) (simp_all add: length_concat comp_def)
  moreover have "length (concat (map (le_enc 4) fx)) = 4 * length fx" by (induction fx) simp_all
  ultimately show ?thesis
    by (simp add: tpl_dump_def tpl_dump_to_mem_def tpl_ser_osz_def TPL_MAGIC_def length_concat comp_def del: le_enc.simps)
qed

section \<open>What is packed is unpacked\<close>

definition packable :: "string \<Rightarrow> tpl_node list \<Rightarrow> nat list \<Rightarrow> tpl_val list \<Rightarrow> bool" where
  "packable fmt nodes fx vals \<longleftrightarrow>
    set fmt \<subseteq> set tpl_fmt_chars \<and> length (filter (\<lambda>c. c = CHR ''#'') fmt) = length fx \<and>
    (CHR ''s'' \<notin> set fmt \<longrightarrow> (\<forall>n. Str n \<notin> set nodes)) \<and> (\<forall>n \<in> set fx. n < 2 ^ 32) \<and>
    list_all2 fits nodes vals \<and> tpl_ser_osz fmt fx vals < 2 ^ 32"

lemma dump_parts:
  fixes fmt fx vals
  defines "d \<equiv> tpl_dump fmt fx vals" and "data \<equiv> concat (map dump_val vals)"
  shows "take 3 d = TPL_MAGIC" "d ! 3 = (if CHR ''s'' \<in> set fmt then 2 else 0)"
    "drop 4 d = le_enc 4 (tpl_ser_osz fmt fx vals) @ map of_char fmt @ 0 # concat (map (le_enc 4) fx) @ data"
    "drop 8 d = map of_char fmt @ 0 # concat (map (le_enc 4) fx) @ data"
    "drop (8 + length fmt + 1) d = concat (map (le_enc 4) fx) @ data"
    "drop (8 + length fmt + 1 + 4 * length fx) d = data"
proof -
  have d: "d = (TPL_MAGIC @ [if CHR ''s'' \<in> set fmt then 2 else 0]) @ le_enc 4 (tpl_ser_osz fmt fx vals) @
      map of_char fmt @ [0] @ concat (map (le_enc 4) fx) @ data"
    by (simp add: d_def data_def tpl_dump_def tpl_dump_to_mem_def del: le_enc.simps)
  have l: "length TPL_MAGIC = 3" by (simp add: TPL_MAGIC_def)
  have fx: "length (concat (map (le_enc 4) fx)) = 4 * length fx" by (induction fx) simp_all
  show "take 3 d = TPL_MAGIC" "d ! 3 = (if CHR ''s'' \<in> set fmt then 2 else 0)"
    by (simp_all add: d l nth_append)
  show d4: "drop 4 d = le_enc 4 (tpl_ser_osz fmt fx vals) @ map of_char fmt @ 0 # concat (map (le_enc 4) fx) @ data"
    by (simp add: d l del: le_enc.simps)
  have "drop 8 d = drop 4 (drop 4 d)" by simp
  then show d8: "drop 8 d = map of_char fmt @ 0 # concat (map (le_enc 4) fx) @ data"
    by (simp only: d4) (simp del: le_enc.simps)
  have "drop (8 + length fmt + 1) d = drop (length fmt + 1) (drop 8 d)" by (simp add: add.commute)
  then show d9: "drop (8 + length fmt + 1) d = concat (map (le_enc 4) fx) @ data" by (simp only: d8) simp
  have "drop (8 + length fmt + 1 + 4 * length fx) d = drop (4 * length fx) (drop (8 + length fmt + 1) d)"
    by (simp add: add.commute)
  then show "drop (8 + length fmt + 1 + 4 * length fx) d = data" by (simp only: d9) (simp add: fx)
qed

lemma dump_loads:
  assumes "packable fmt nodes fx vals"
  shows "tpl_load fmt nodes fx (tpl_dump fmt fx vals) = 0 \<and> tpl_unpack nodes (tpl_dump fmt fx vals) = Some vals"
proof -
  define d where "d = tpl_dump fmt fx vals"
  note parts = dump_parts [of fmt fx vals, folded d_def]
  note a = assms [unfolded packable_def]
  have len: "length d = tpl_ser_osz fmt fx vals" using a by (auto simp: d_def length_dump)
  have start: "length d = 8 + length fmt + 1 + 4 * length fx + length (concat (map dump_val vals))"
  proof -
    have "length (dump_val v) = ser_val v" for v by (cases v) (simp_all add: length_concat comp_def)
    then show ?thesis by (simp add: len tpl_ser_osz_def length_concat comp_def)
  qed
  have sz: "tpl_word False (drop 4 d) = length d" using a by (simp add: parts(3) tpl_word_enc len del: le_enc.simps)
  have scan: "scan_fmt (drop 8 d) = Inr (length fmt, length fx)" using a by (simp add: parts(4) scan_fmt_ok del: le_enc.simps)
  have fmt: "take (length fmt) (drop 8 d) = map of_char fmt" by (simp add: parts(4))
  have swap: "tpl_needs_endian_swap d = False" by (simp add: tpl_needs_endian_swap_def parts)
  have flags: "d ! 3 AND NOT 3 = 0" by (simp add: parts)
  have serlen: "tpl_serlen False (d ! 3 AND 2 = 0) nodes (drop (8 + length fmt + 1 + 4 * length fx) d) = Some (length (concat (map dump_val vals)))"
    using tpl_serlen_dump [of nodes vals "d ! 3 AND 2 = 0" "[]"] a unfolding parts by (auto split: if_splits)
  have "fxlens_eq False fx (drop (8 + length fmt + 1) d)" using a by (simp only: parts) (simp add: fxlens_eq_enc)
  then have "tpl_sanity fmt nodes fx d = 0"
    unfolding tpl_sanity_def Let_def swap scan sum.case prod.case fmt serlen option.case using sz start flags parts(1) by simp
  moreover have "unpack_nodes False nodes (concat (map dump_val vals)) = Some vals"
    using unpack_nodes_dump [of nodes vals "[]"] a by simp
  ultimately show ?thesis unfolding d_def [symmetric] using swap
    by (simp only: tpl_load_def tpl_unpack_def tpl_find_data_start_def scan sum.case prod.case parts(6)) simp
qed

section \<open>A valid image is unpacked within its bytes\<close>

lemma pound_char: "(of_char c :: u8) = of_char CHR ''#'' \<longleftrightarrow> c = CHR ''#''"
proof
  have unat: "unat (of_char d :: u8) = of_char d" for d
    using of_char_mod_256 [of d, where ?'a = nat] by (simp only: of_nat_of_char [symmetric, where ?'a = u8] unat_of_nat) simp
  assume "(of_char c :: u8) = of_char CHR ''#''"
  then have "(of_char c :: nat) = of_char CHR ''#''" by (simp only: unat [symmetric])
  then show "c = CHR ''#''" by (simp only: of_char_eq_iff)
qed simp

lemma scan_fmt_pounds: "scan_fmt bs = Inr (n, k) \<Longrightarrow> k = length (filter (\<lambda>b. b = of_char CHR ''#'') (take n bs))"
proof (induction bs arbitrary: n k)
  case (Cons b bs)
  then show ?case by (auto split: if_splits sum.splits prod.splits simp del: of_char_Char)
qed simp

lemma map_char_fxlens: "map_char prev c s = Some s' \<Longrightarrow> fxlens s' = fxlens s"
  by (auto simp: map_char_def Let_def simp del: tpl_type_size.simps split: option.splits if_split_asm)

lemma map_loop_fxlens:
  "map_loop prev fmt nums s = Some s' \<Longrightarrow> length (fxlens s') = length (fxlens s) + length (filter (\<lambda>c. c = CHR ''#'') fmt)"
proof (induction prev fmt nums s rule: map_loop.induct)
  case (2 prev c cs nums s)
  let ?run = "takeWhile (\<lambda>c. c = CHR ''#'') cs" and ?rest = "dropWhile (\<lambda>c. c = CHR ''#'') cs"
  have "filter (\<lambda>c. c = CHR ''#'') ?run = ?run" by (auto simp: filter_id_conv dest: set_takeWhileD)
  then have cs: "length (filter (\<lambda>c. c = CHR ''#'') cs) = length ?run + length (filter (\<lambda>c. c = CHR ''#'') ?rest)"
    by (metis filter_append length_append takeWhile_dropWhile_id)
  show ?case
  proof (cases "c = CHR ''#''")
    case True
    then obtain t where t: "map_pound prev (Suc (length ?run)) nums s = Some t"
      "map_loop CHR ''#'' ?rest (drop (Suc (length ?run)) nums) t = Some s'"
      using "2.prems" by (auto simp: Let_def split: Option.bind_splits)
    have "length (fxlens t) = length (fxlens s) + Suc (length ?run)"
      using t(1) by (auto simp: map_pound_def Let_def split: if_splits)
    then show ?thesis using "2.IH"(1) [OF True refl t(1) t(2)] True cs by simp
  next
    case False
    then obtain t where t: "map_char prev c s = Some t" "map_loop c cs nums t = Some s'"
      using "2.prems" by (auto split: Option.bind_splits)
    then show ?thesis using "2.IH"(2) [OF False t] False by (simp add: map_char_fxlens)
  qed
qed (auto split: if_splits)

lemma tpl_map_fxlens: "tpl_map fmt nums = Some (nodes, fx) \<Longrightarrow> length fx = length (filter (\<lambda>c. c = CHR ''#'') fmt)"
  by (auto simp: tpl_map_def map_start_def dest!: map_loop_fxlens)

lemma le_dec_bound: "le_dec bs < 256 ^ length bs"
proof (induction bs)
  case (Cons b bs)
  have "unat b < 256" using unsigned_less [of b] by simp
  then show ?case using Cons by simp
qed simp

lemma tpl_word_bound: "tpl_word swap bs < 2 ^ 32"
proof -
  define ws where "ws = (if swap then rev (take 4 bs) else take 4 bs)"
  have "le_dec ws < 256 ^ length ws" by (rule le_dec_bound)
  also have "\<dots> \<le> 256 ^ 4" by (rule power_increasing) (simp_all add: ws_def)
  finally show ?thesis by (simp add: tpl_word_def ws_def)
qed

lemma length_swap_elems: "sz * n \<le> length bs \<Longrightarrow> length (swap_elems sz n bs) = sz * n"
  by (induction n arbitrary: bs) simp_all

lemma unpack_strs_safe:
  "serlen_strs swap False n bs = Some l \<Longrightarrow>
    l \<le> length bs \<and> (\<exists>ss. unpack_strs swap n bs = Some (ss, drop l bs) \<and> fits (Str n) (VStrs ss))"
proof (induction n arbitrary: bs l)
  case (Suc n)
  define k where "k = tpl_word swap bs - 1"
  have k: "(if tpl_word swap bs > 1 then tpl_word swap bs - 1 else 0) = k" by (simp add: k_def)
  obtain m where m: "serlen_strs swap False n (drop (4 + k) bs) = Some m" "l = 4 + k + m" "4 + k \<le> length bs"
    using Suc.prems unfolding serlen_strs.simps Let_def if_False k by (auto split: if_splits)
  obtain ss where ss: "m \<le> length bs - (4 + k)" "unpack_strs swap n (drop (4 + k) bs) = Some (ss, drop m (drop (4 + k) bs))"
      "fits (Str n) (VStrs ss)"
    using Suc.IH [OF m(1)] by auto
  have "k + 1 < 2 ^ 32" using tpl_word_bound [of swap bs] by (simp add: k_def)
  moreover have "drop k (drop 4 bs) = drop (4 + k) bs" by (simp add: add.commute)
  ultimately show ?case unfolding unpack_strs.simps Let_def k_def [symmetric] using m ss by (auto simp: add.commute)
qed simp

lemma unpack_nodes_safe:
  "tpl_serlen swap False nodes bs = Some l \<Longrightarrow> \<exists>vs. unpack_nodes swap nodes bs = Some vs \<and> list_all2 fits nodes vs"
proof (induction nodes arbitrary: bs l)
  case (Cons c cs)
  obtain i j where c: "serlen_node swap False c bs = Some i" and cs: "tpl_serlen swap False cs (drop i bs) = Some j"
    using Cons.prems by (auto split: Option.bind_splits)
  obtain vs where vs: "unpack_nodes swap cs (drop i bs) = Some vs" "list_all2 fits cs vs" using Cons.IH [OF cs] by auto
  show ?case
  proof (cases c)
    case (Atom sz n)
    then show ?thesis using c vs by (auto simp: length_swap_elems split: if_splits)
  next
    case (Str n)
    then show ?thesis using c vs unpack_strs_safe [of swap n bs i] by auto
  qed
qed simp

lemma scan_fmt_error: "scan_fmt bs = Inl e \<Longrightarrow> e < 0"
  by (induction bs arbitrary: e) (auto split: if_splits sum.splits)

lemma load_safe:
  assumes map: "tpl_map fmt nums = Some (nodes, fx)" and load: "tpl_load fmt nodes fx d = 0" and new: "d ! 3 AND 2 \<noteq> 0"
  shows "\<exists>vs. tpl_unpack nodes d = Some vs \<and> list_all2 fits nodes vs"
proof -
  have sane: "tpl_sanity fmt nodes fx d = 0" using load by (simp add: tpl_load_def split: if_splits)
  obtain n k where scan: "scan_fmt (drop 8 d) = Inr (n, k)" and fmt: "take n (drop 8 d) = map of_char fmt"
    and serlen: "tpl_serlen (tpl_needs_endian_swap d) (d ! 3 AND 2 = 0) nodes (drop (8 + n + 1 + 4 * length fx) d) \<noteq> None"
    using sane by (cases "scan_fmt (drop 8 d)") (auto simp: tpl_sanity_def Let_def split: if_splits option.splits dest!: scan_fmt_error)
  have "filter (\<lambda>b. b = (of_char CHR ''#'' :: u8)) (map of_char fmt) = map of_char (filter (\<lambda>c. c = CHR ''#'') fmt)"
    by (induction fmt) (simp_all add: pound_char del: of_char_Char)
  then have "k = length fx" using scan_fmt_pounds [OF scan] tpl_map_fxlens [OF map] by (simp add: fmt)
  then show ?thesis using serlen new unpack_nodes_safe by (auto simp: tpl_unpack_def tpl_find_data_start_def scan)
qed

section \<open>Connection records\<close>

definition con_info_nodes :: "tpl_node list" where
  "con_info_nodes = [Atom 4 1, Atom 2 1, Atom 4 1, Atom 2 1, Atom 4 1, Atom 4 1, Atom 2 1, Atom 4 1, Atom 4 1, Atom 4 1,
    Atom 4 1, Atom 2 1, Atom 2 1]"

lemma con_info_map: "tpl_map con_info_fmt [] = Some (con_info_nodes, [])"
  by (simp add: tpl_map_def con_info_fmt_def map_start_def map_char_def con_info_nodes_def Let_def)

lemma con_info_packable: "packable con_info_fmt con_info_nodes [] (con_info_vals ci)"
  by (simp add: packable_def con_info_fmt_def con_info_nodes_def con_info_vals_def tpl_fmt_chars_def tpl_ser_osz_def
    del: le_enc.simps)

lemma con_info_of_vals:
  "con_info_of old (con_info_vals ci) = ci\<lparr>con_id := (con_id ci)\<lparr>src_pad := src_pad (con_id old), dst_pad := dst_pad (con_id old)\<rparr>\<rparr>"
  by (cases ci; cases "con_id ci"; cases old) (simp add: con_info_of_def con_info_vals_def del: le_enc.simps)

lemma con_info_serialize_deserialize:
  "con_info_deserialize old (con_info_serialize ci) =
    Some (ci\<lparr>con_id := (con_id ci)\<lparr>src_pad := src_pad (con_id old), dst_pad := dst_pad (con_id old)\<rparr>\<rparr>)"
  using dump_loads [OF con_info_packable [of ci]]
  by (simp add: con_info_serialize_def con_info_deserialize_def con_info_map con_info_of_vals)

section \<open>Properties\<close>

text \<open>Property C34: a connection record that is packed, sent and unpacked at the other side is the same record: all of
  its thirteen fields keep their values, and only the padding of its addresses is that of the record unpacked into.\<close>

theorem con_info_roundtrip:
  "con_info_deserialize old (con_info_serialize ci) =
    Some (ci\<lparr>con_id := (con_id ci)\<lparr>src_pad := src_pad (con_id old), dst_pad := dst_pad (con_id old)\<rparr>\<rparr>)"
  by (rule con_info_serialize_deserialize)



text \<open>Property C35: whatever bytes arrive, an image that \<open>tpl_load\<close> accepts in the string format of this version is
  unpacked without a read past its end, and every field gets all of its bytes, for images of either byte order.\<close>

theorem unpack_within_image:
  assumes "tpl_map fmt nums = Some (nodes, fx)" "tpl_load fmt nodes fx d = 0" "d ! 3 AND 2 \<noteq> 0"
  shows "\<exists>vs. tpl_unpack nodes d = Some vs \<and> list_all2 fits nodes vs"
  by (rule load_safe [OF assms])

text \<open>A big-endian image of two numbers and a null string.\<close>

definition sample_image :: "u8 list" where
  "sample_image = [116, 112, 108, 3, 0, 0, 0, 22, 117, 118, 115, 0, 1, 2, 3, 4, 5, 6, 0, 0, 0, 0]"

lemmas tpl_evals = tpl_map_def map_start_def map_char_def map_pound_def tpl_load_def tpl_sanity_def tpl_needs_endian_swap_def
  tpl_word_def tpl_fmt_chars_def TPL_MAGIC_def tpl_unpack_def tpl_find_data_start_def Let_def

theorem unpack_within_image_witness:
  "tpl_load ''uvs'' [Atom 4 1, Atom 2 1, Str 1] [] sample_image = 0 \<and>
   (\<exists>vs. tpl_unpack [Atom 4 1, Atom 2 1, Str 1] sample_image = Some vs \<and> list_all2 fits [Atom 4 1, Atom 2 1, Str 1] vs)"
proof -
  have map: "tpl_map ''uvs'' [] = Some ([Atom 4 1, Atom 2 1, Str 1], [])" by (simp add: tpl_evals)
  have load: "tpl_load ''uvs'' [Atom 4 1, Atom 2 1, Str 1] [] sample_image = 0" by (simp add: tpl_evals sample_image_def)
  show ?thesis using unpack_within_image [OF map load] load by (simp add: sample_image_def)
qed

lemma two_strings:
  "serlen_strs swap old 2 = serlen_strs swap old (Suc (Suc 0))" "unpack_strs swap 2 = unpack_strs swap (Suc (Suc 0))"
  by (simp_all add: numeral_2_eq_2)

text \<open>Two strings in the format of version 1.2.\<close>

definition old_image :: "u8 list" where
  "old_image = [116, 112, 108, 0, 25, 0, 0, 0, 115, 35, 0, 2, 0, 0, 0, 1, 0, 0, 0, 97, 1, 0, 0, 0, 98]"


end
