(* ===== verification/Connections.thy ===== *)
theory Connections
  imports Proxy_Proofs Guest Intercept Tpl_Proofs
begin

text \<open>
  The path of a new connection through the system: the intercepting library of the leader, the service of
  the host's connection manager (vpb/con-manager.c), the agreed action at every host, the manager of the
  guest and the intercepting library of a backup.
\<close>

section \<open>The service of the host\<close>

text \<open>A pass of \<open>serve\<close>: whether the thread goes on, the number of the request it waits for, the proxy and the
  socket; \<open>serve_reply\<close> is what follows the wait.\<close>

definition serve_pass ::
  "bool \<Rightarrow> u8 \<Rightarrow> u64 \<times> u16 \<Rightarrow> u8 list \<Rightarrow> con_info_type \<Rightarrow> 'd proxy_node \<Rightarrow> sock \<Rightarrow> (bool \<times> u64 option \<times> 'd proxy_node \<times> sock) option" where
  "serve_pass leader node_id ids junk old p sk =
    do {
      (ret, len, buf, sk) \<leftarrow> recv_bytes_host junk sk;
      if ret \<le> 0 then Some (False, None, p, sk)
      else if len = Some 1 then do { (ret, sk) \<leftarrow> send [of_bool leader] sk; Some (True, None, p, sk) }
      else do {
        ci \<leftarrow> con_info_deserialize old buf;
        if leader then do { (rec, p) \<leftarrow> tcpnewcon_handle leader node_id ids buf p; Some (True, rec, p, sk) }
        else Some (True, None, p, sk)
      }
    }"

definition serve_reply :: "sock \<Rightarrow> (bool \<times> sock) option" where
  "serve_reply sk = map_option (\<lambda>(ret, sk). (\<not> ret < 0, sk)) (send [1] sk)"

text \<open>A pass of \<open>hb_to_guest\<close>: the datagram the leader sends, the address 10.22.1.2 of the host in eight bytes.\<close>

definition HOST_IP :: u32 where "HOST_IP = 0x0201160A"

definition hb_to_guest_pass :: "bool \<Rightarrow> u8 list option" where
  "hb_to_guest_pass leader = (if leader then Some (le_enc 8 (unat HOST_IP)) else None)"

section \<open>Sockets that move a message per call\<close>

text \<open>A socket for which the kernel moves up to 512 bytes in each of the next \<open>n\<close> calls in either direction.\<close>

definition smooth :: "nat \<Rightarrow> sock \<Rightarrow> bool" where
  "smooth n s \<longleftrightarrow> n \<le> length (send_sched s) \<and> n \<le> length (recv_sched s) \<and>
    (\<forall>k \<in> set (send_sched s) \<union> set (recv_sched s). 512 \<le> k)"

lemma send_smooth:
  assumes "smooth (Suc n) s" "length m \<le> 512"
  shows "\<exists>ks. send m s = Some (int (length m), s\<lparr>outgoing := outgoing s @ m, send_sched := ks\<rparr>) \<and> smooth n (s\<lparr>send_sched := ks\<rparr>)"
proof -
  obtain k ks where "send_sched s = k # ks" "512 \<le> k" using assms(1) by (cases "send_sched s") (auto simp: smooth_def)
  then show ?thesis using assms by (intro exI [of _ ks]) (auto simp: smooth_def send_def Let_def)
qed

lemma send_bytes_smooth:
  assumes "smooth (Suc n) s" "length m \<le> 508"
  shows "\<exists>ks. send_bytes m s = Some (0, s\<lparr>outgoing := outgoing s @ frame m, send_sched := ks\<rparr>) \<and> smooth n (s\<lparr>send_sched := ks\<rparr>)"
proof -
  obtain ks where "send (frame m) s = Some (int (length (frame m)), s\<lparr>outgoing := outgoing s @ frame m, send_sched := ks\<rparr>)"
    "smooth n (s\<lparr>send_sched := ks\<rparr>)"
    using send_smooth [OF assms(1), of "frame m"] assms(2) by (auto simp: frame_def)
  then show ?thesis by (auto simp: send_bytes_def frame_def send_loop.simps [of "be32_enc _ @ _"])
qed

lemma recv_smooth:
  assumes "smooth (Suc n) s" "incoming s = m @ rest" "length m \<le> 512"
  shows "\<exists>ks. recv (length m) s = (int (length m), m, s\<lparr>incoming := rest, recv_sched := ks\<rparr>) \<and> smooth n (s\<lparr>recv_sched := ks\<rparr>)"
proof -
  obtain k ks where "recv_sched s = k # ks" "512 \<le> k" using assms(1) by (cases "recv_sched s") (auto simp: smooth_def)
  then show ?thesis using assms by (intro exI [of _ ks]) (auto simp: smooth_def recv_def Let_def min_absorb2)
qed

lemma recv_bytes_smooth:
  assumes "smooth (Suc (Suc n)) s" "incoming s = frame m @ rest" "m \<noteq> []" "length m \<le> 508"
  shows "\<exists>ks. recv_bytes junk s = Some (int (length m), Some (int (length m)), m, s\<lparr>incoming := rest, recv_sched := ks\<rparr>) \<and>
    smooth n (s\<lparr>recv_sched := ks\<rparr>)"
proof -
  obtain ks where r: "recv 4 s = (4, be32_enc (length m), s\<lparr>incoming := m @ rest, recv_sched := ks\<rparr>)"
    "smooth (Suc n) (s\<lparr>recv_sched := ks\<rparr>)"
    using recv_smooth [OF assms(1), of "be32_enc (length m)" "m @ rest"] assms(2) by (auto simp: frame_def)
  let ?t = "s\<lparr>incoming := m @ rest, recv_sched := ks\<rparr>"
  have "smooth (Suc n) ?t" using r(2) by (simp add: smooth_def)
  then obtain js where "recv (length m) ?t = (int (length m), m, ?t\<lparr>incoming := rest, recv_sched := js\<rparr>)"
    "smooth n (?t\<lparr>recv_sched := js\<rparr>)"
    using recv_smooth [of n ?t m rest] assms(4) by auto
  then show ?thesis using r(1) assms(3,4)
    by (intro exI [of _ js]) (auto simp: recv_bytes_def recv_loop.simps [of "length m"] smooth_def Let_def)
qed

section \<open>Records on a connection\<close>

text \<open>What the parties of the path rely on: an encoding of records in images of one small size.  Decoding keeps
  everything but what the image does not hold, which is taken from the record decoded into.\<close>

locale record_codec =
  fixes encode :: "'r \<Rightarrow> u8 list" and decode :: "'r \<Rightarrow> u8 list \<Rightarrow> 'r option" and merge :: "'r \<Rightarrow> 'r \<Rightarrow> 'r" and width :: nat
  assumes decode_encode: "decode old (encode r) = Some (merge old r)"
    and encode_merge: "encode (merge old r) = encode r"
    and length_encode: "length (encode r) = width"
    and width_bounds: "1 < width" "width \<le> 508"
begin

lemma encode_nonempty: "encode r \<noteq> []"
  using length_encode [of r] width_bounds(1) by auto

lemma send_record:
  "smooth (Suc n) s \<Longrightarrow>
    \<exists>ks. send_bytes (encode r) s = Some (0, s\<lparr>outgoing := outgoing s @ frame (encode r), send_sched := ks\<rparr>) \<and> smooth n (s\<lparr>send_sched := ks\<rparr>)"
  using width_bounds(2) by (intro send_bytes_smooth) (simp_all add: length_encode)

lemma recv_record:
  "smooth (Suc (Suc n)) s \<Longrightarrow> incoming s = frame (encode r) @ rest \<Longrightarrow>
    \<exists>ks. recv_bytes junk s = Some (int width, Some (int width), encode r, s\<lparr>incoming := rest, recv_sched := ks\<rparr>) \<and>
      smooth n (s\<lparr>recv_sched := ks\<rparr>)"
  using recv_bytes_smooth [of n s "encode r" rest junk] width_bounds(2) encode_nonempty by (simp add: length_encode)

end

lemma length_con_info: "length (con_info_serialize ci) = 70"
proof -
  have "length (con_info_serialize ci) = tpl_ser_osz con_info_fmt [] (con_info_vals ci)"
    using length_dump con_info_packable [of ci] by (auto simp: con_info_serialize_def con_info_map packable_def)
  then show ?thesis by (simp add: tpl_ser_osz_def con_info_fmt_def con_info_vals_def del: le_enc.simps)
qed

text \<open>The padding of the addresses is not part of the image.\<close>

lemma con_info_serialize_pad: "con_info_serialize (ci\<lparr>con_id := (con_id ci)\<lparr>src_pad := a, dst_pad := b\<rparr>\<rparr>) = con_info_serialize ci"
  by (simp add: con_info_serialize_def con_info_vals_def)

interpretation coninfo: record_codec con_info_serialize con_info_deserialize
  "\<lambda>old ci. ci\<lparr>con_id := (con_id ci)\<lparr>src_pad := src_pad (con_id old), dst_pad := dst_pad (con_id old)\<rparr>\<rparr>" 70
  by unfold_locales (simp_all add: con_info_serialize_deserialize con_info_serialize_pad length_con_info)

section \<open>A kernel whose calls succeed\<close>

definition cooperative :: "kernel \<Rightarrow> bool" where
  "cooperative k \<longleftrightarrow> (\<forall>i c. if c = Socket then 0 \<le> answer k i c else answer k i c = 0) \<and> 0 \<le> no_return k"

definition logged :: "kernel \<Rightarrow> syscall list \<Rightarrow> kernel" where
  "logged k cs = k\<lparr>calls := calls k @ map (\<lambda>c. (c, 0)) cs\<rparr>"

lemma logged_simps [simp]:
  "logged (logged k as) bs = logged k (as @ bs)" "cooperative (logged k as) = cooperative k" "facts (logged k as) = facts k"
  "tomgr (logged k as) = tomgr k" "accepted (logged k as) = accepted k" "no_return (logged k as) = no_return k"
  "calls (logged k as) = calls k @ map (\<lambda>c. (c, 0)) as" "logged (k\<lparr>tomgr := s\<rparr>) as = (logged k as)\<lparr>tomgr := s\<rparr>"
  "logged (k\<lparr>accepted := s\<rparr>) as = (logged k as)\<lparr>accepted := s\<rparr>" "cooperative (k\<lparr>tomgr := s\<rparr>) = cooperative k"
  "cooperative (k\<lparr>accepted := s\<rparr>) = cooperative k"
  by (simp_all add: logged_def cooperative_def)

lemma sys_logged: "cooperative k \<Longrightarrow> c \<noteq> Socket \<Longrightarrow> sys c k = (0, logged k [c])"
  by (auto simp: cooperative_def sys_def logged_def Let_def dest!: spec [of _ c])

lemma helpers_logged:
  assumes "cooperative k"
  shows "tcp_repair_on fd k = (0, logged k [SetRepair fd True])" "tcp_repair_off fd k = (0, logged k [SetRepair fd False])"
    "set_reuse fd k = (0, logged k [SetReuseAddr fd, SetReusePort fd])"
    "set_tcp_queue_seq fd q seq k = (0, logged k [SetRepairQueue fd q, SetQueueSeq fd seq])"
    "get_tcp_queue_seq fd q k = (no_return k, Some (case q of SEND_QUEUE \<Rightarrow> f_send_seq (facts k fd) | RECV_QUEUE \<Rightarrow> f_recv_seq (facts k fd)),
       logged k [SetRepairQueue fd q, GetQueueSeq fd])"
    "bind_hook fd a k = (0, logged k [SetReuseAddr fd, SetReusePort fd, Bind fd a])"
  using assms by (simp_all add: tcp_repair_on_def tcp_repair_off_def set_reuse_def set_tcp_queue_seq_def get_tcp_queue_seq_def
      bind_hook_def sys_logged Let_def split: repair_queue.split)

text \<open>The calls that make a socket the end of an agreed connection.\<close>

definition option_calls :: "int \<Rightarrow> con_info_type \<Rightarrow> syscall list" where
  "option_calls fd ci =
    (if has_timestamp ci \<noteq> 0 then [SetRepairOption fd TCPOPT_TIMESTAMP 0, SetTimestamp fd (timestamp ci)] else []) @
    [SetRepairOption fd TCPOPT_MAXSEG (mss_clamp ci)] @
    (if has_rcv_wscale ci \<noteq> 0 then [SetRepairOption fd TCPOPT_WINDOW (snd_wscale ci + push_bit 16 (rcv_wscale ci))] else [])"

definition repair_calls :: "int \<Rightarrow> u32 \<times> u16 \<Rightarrow> con_info_type \<Rightarrow> syscall list" where
  "repair_calls fd a ci =
    [SetRepair fd True, SetRepairQueue fd RECV_QUEUE, SetQueueSeq fd (recv_seq ci), SetRepairQueue fd SEND_QUEUE,
     SetQueueSeq fd (send_seq ci - 1), SetReuseAddr fd, SetReusePort fd, SetReuseAddr fd, SetReusePort fd, Bind fd a,
     Connect fd (dst_ip (con_id ci), dst_port (con_id ci))] @ option_calls fd ci @ [SendByte fd 1, SetRepair fd False]"

lemma repair_socket_logged: "cooperative k \<Longrightarrow> repair_socket fd a ci k = (0, logged k (repair_calls fd a ci))"
  by (simp add: repair_socket_def set_options_def helpers_logged sys_logged Let_def repair_calls_def option_calls_def)

text \<open>A new socket has the two options set.\<close>

definition opened :: "kernel \<Rightarrow> kernel" where
  "opened k = (let fd = answer k (length (calls k)) Socket
     in k\<lparr>calls := calls k @ [(Socket, fd), (SetReuseAddr fd, 0), (SetReusePort fd, 0)]\<rparr>)"

lemma opened_simps [simp]:
  "cooperative (opened k) = cooperative k" "facts (opened k) = facts k" "tomgr (opened k) = tomgr k"
  "accepted (opened k) = accepted k" "no_return (opened k) = no_return k" "length (calls (opened k)) = length (calls k) + 3"
  "answer (opened k) = answer k"
  by (simp_all add: opened_def cooperative_def Let_def)

lemma socket_hook_opened:
  assumes "cooperative k"
  shows "socket_hook k = (answer k (length (calls k)) Socket, opened k)"
proof -
  let ?k = "k\<lparr>calls := calls k @ [(Socket, answer k (length (calls k)) Socket)]\<rparr>"
  have "\<not> answer k i Socket < 0" for i using assms by (auto simp: cooperative_def not_less dest: spec [of _ Socket])
  then have "sys Socket k = (answer k (length (calls k)) Socket, ?k)" by (simp add: sys_def Let_def)
  moreover have "cooperative ?k" using assms by (simp add: cooperative_def)
  ultimately show ?thesis by (simp add: socket_hook_def helpers_logged opened_def logged_def Let_def)
qed

section \<open>What a socket becomes\<close>

text \<open>The state of the socket \<open>fd\<close> after a sequence of calls: sequence numbers are set for the queue that was
  selected, and a new socket starts afresh.\<close>

record rsock =
  in_repair :: bool
  selected :: "repair_queue option"
  seqs :: "repair_queue \<rightharpoonup> u32"
  bound :: "(u32 \<times> u16) option"
  peer :: "(u32 \<times> u16) option"
  options :: "nat \<rightharpoonup> u32"
  tstamp :: "u32 option"

definition fresh :: rsock where
  "fresh = \<lparr>in_repair = False, selected = None, seqs = Map.empty, bound = None, peer = None, options = Map.empty, tstamp = None\<rparr>"

fun after_call :: "int \<Rightarrow> syscall \<times> int \<Rightarrow> rsock \<Rightarrow> rsock" where
  "after_call fd (Socket, r) st = (if r = fd then fresh else st)"
| "after_call fd (Close d, r) st = (if d = fd then fresh else st)"
| "after_call fd (SetRepair d b, r) st = (if d = fd then st\<lparr>in_repair := b\<rparr> else st)"
| "after_call fd (SetRepairQueue d q, r) st = (if d = fd then st\<lparr>selected := Some q\<rparr> else st)"
| "after_call fd (SetQueueSeq d n, r) st =
    (if d = fd then case selected st of None \<Rightarrow> st | Some q \<Rightarrow> st\<lparr>seqs := (seqs st)(q \<mapsto> n)\<rparr> else st)"
| "after_call fd (Bind d a, r) st = (if d = fd then st\<lparr>bound := Some a\<rparr> else st)"
| "after_call fd (Connect d a, r) st = (if d = fd then st\<lparr>peer := Some a\<rparr> else st)"
| "after_call fd (SetRepairOption d c n, r) st = (if d = fd then st\<lparr>options := (options st)(c \<mapsto> n)\<rparr> else st)"
| "after_call fd (SetTimestamp d n, r) st = (if d = fd then st\<lparr>tstamp := Some n\<rparr> else st)"
| "after_call fd (c, r) st = st"

definition socket_after :: "int \<Rightarrow> (syscall \<times> int) list \<Rightarrow> rsock" where
  "socket_after fd cs = fold (after_call fd) cs fresh"

text \<open>The end of a connection with the given numbers, addresses and options.\<close>

definition endpoint :: "con_info_type \<Rightarrow> u32 \<times> u16 \<Rightarrow> rsock" where
  "endpoint ci a =
    \<lparr>in_repair = False, selected = Some SEND_QUEUE, seqs = [RECV_QUEUE \<mapsto> recv_seq ci, SEND_QUEUE \<mapsto> send_seq ci - 1],
     bound = Some a, peer = Some (dst_ip (con_id ci), dst_port (con_id ci)),
     options = (if has_timestamp ci \<noteq> 0 then [TCPOPT_TIMESTAMP \<mapsto> 0] else Map.empty) ++ [TCPOPT_MAXSEG \<mapsto> mss_clamp ci] ++
       (if has_rcv_wscale ci \<noteq> 0 then [TCPOPT_WINDOW \<mapsto> snd_wscale ci + push_bit 16 (rcv_wscale ci)] else Map.empty),
     tstamp = (if has_timestamp ci \<noteq> 0 then Some (timestamp ci) else None)\<rparr>"

lemma repaired_endpoint: "fold (after_call fd) (map (\<lambda>c. (c, 0)) (repair_calls fd a ci)) fresh = endpoint ci a"
  by (simp add: repair_calls_def option_calls_def endpoint_def fresh_def TCPOPT_TIMESTAMP_def TCPOPT_MAXSEG_def TCPOPT_WINDOW_def
      map_add_def fun_eq_iff)

lemma socket_after_repair:
  assumes "fd \<noteq> t"
  shows "socket_after fd (cs @ [(Socket, fd), (SetReuseAddr fd, 0), (SetReusePort fd, 0)] @
      map (\<lambda>c. (c, 0)) (repair_calls fd a ci) @ [(Close t, 0)]) = endpoint ci a"
  using assms by (simp add: socket_after_def repaired_endpoint)

section \<open>The stages of the path\<close>

text \<open>What the kernel reports of a connection, as a record.\<close>

definition reported_info :: "u16 \<Rightarrow> tcp_facts \<Rightarrow> con_info_type" where
  "reported_info type f =
    (let has_ts = f_options f AND TCPI_OPT_TIMESTAMPS \<noteq> 0; has_ws = f_options f AND TCPI_OPT_WSCALE \<noteq> 0 in
     \<lparr>con_id = \<lparr>src_ip = fst (f_local f), src_port = snd (f_local f), src_pad = 0, dst_ip = fst (f_remote f),
        dst_port = snd (f_remote f), dst_pad = 0\<rparr>, send_seq = f_send_seq f, recv_seq = f_recv_seq f,
      has_timestamp = of_bool has_ts, timestamp = (if has_ts then f_timestamp f else 0), mss_clamp = f_mss f,
      snd_wscale = (if has_ws then f_snd_wscale f else 0), rcv_wscale = (if has_ws then f_rcv_wscale f else 0),
      has_rcv_wscale = of_bool has_ws, con_type = type\<rparr>)"

lemma connection_info_logged:
  assumes "cooperative k"
  shows "\<exists>cs. connection_info type fd k = (Some (reported_info type (facts k fd)), logged k cs)"
proof -
  have "\<not> no_return k < 0" using assms by (simp add: cooperative_def)
  then show ?thesis using assms
    by (auto simp: connection_info_def reported_info_def helpers_logged sys_logged get_tcp_con_id_def Let_def split: prod.splits)
qed

lemma check_leadership_ok:
  fixes k
  defines "t \<equiv> answer k (length (calls k)) Socket"
  assumes "cooperative k" "smooth (Suc (Suc (Suc n))) (tomgr k)" "incoming (tomgr k) = frame [b] @ rest"
  shows "\<exists>s. check_leadership junk k = Some (0, t, b, (logged (opened k) [Connect t (CON_MGR_IP, htons CON_MGR_PORT)])\<lparr>tomgr := s\<rparr>) \<and>
    outgoing s = outgoing (tomgr k) @ frame [0] \<and> incoming s = rest \<and> smooth n s"
proof -
  have t: "\<not> t < 0" using assms(2) by (auto simp: t_def cooperative_def not_less dest: spec [of _ Socket])
  obtain ks where s: "send_bytes [0] (tomgr k) = Some (0, (tomgr k)\<lparr>outgoing := outgoing (tomgr k) @ frame [0], send_sched := ks\<rparr>)"
    "smooth (Suc (Suc n)) ((tomgr k)\<lparr>send_sched := ks\<rparr>)"
    using send_bytes_smooth [OF assms(3), of "[0]"] by auto
  let ?s = "(tomgr k)\<lparr>outgoing := outgoing (tomgr k) @ frame [0], send_sched := ks\<rparr>"
  have "smooth (Suc (Suc n)) ?s" using s(2) by (simp add: smooth_def)
  then obtain js where r: "recv_bytes junk ?s = Some (1, Some 1, [b], ?s\<lparr>incoming := rest, recv_sched := js\<rparr>)" "smooth n (?s\<lparr>recv_sched := js\<rparr>)"
    using recv_bytes_smooth [of n ?s "[b]" rest junk] assms(4) by auto
  then show ?thesis using s(1) t assms(2)
    by (auto simp: check_leadership_def socket_hook_opened sys_logged t_def smooth_def)
qed

lemma leader_accept:
  assumes "cooperative k" "smooth 6 (tomgr k)" "incoming (tomgr k) = frame [1] @ rest"
  shows "\<exists>k'. handle_accepted_sk junk sk k = Some (0, sk, k') \<and>
    outgoing (tomgr k') = outgoing (tomgr k) @ frame [0] @ frame (con_info_serialize (reported_info ACCEPT_CON (facts k sk)))"
proof -
  have "smooth (Suc (Suc (Suc 3))) (tomgr k)" using assms(2) by simp
  from check_leadership_ok [OF assms(1) this assms(3), of junk] obtain s t k1 where
    c: "check_leadership junk k = Some (0, t, 1, k1\<lparr>tomgr := s\<rparr>)" "outgoing s = outgoing (tomgr k) @ frame [0]" "smooth 3 s"
    and k1: "cooperative k1" "facts k1 = facts k"
    using assms(1) by auto
  obtain cs where i: "connection_info ACCEPT_CON sk (k1\<lparr>tomgr := s\<rparr>) = (Some (reported_info ACCEPT_CON (facts k sk)), (logged k1 cs)\<lparr>tomgr := s\<rparr>)"
    using connection_info_logged [of "k1\<lparr>tomgr := s\<rparr>" ACCEPT_CON sk] k1 by auto
  have "smooth (Suc 2) s" using c(3) by simp
  then obtain ks where b: "send_bytes (con_info_serialize (reported_info ACCEPT_CON (facts k sk))) s =
      Some (0, s\<lparr>outgoing := outgoing s @ frame (con_info_serialize (reported_info ACCEPT_CON (facts k sk))), send_sched := ks\<rparr>)"
    using coninfo.send_record [of 2 s "reported_info ACCEPT_CON (facts k sk)"] by auto
  have "outgoing (snd (snd (recv 1 u))) = outgoing u" for u by (auto simp: recv_def Let_def split: list.splits)
  then show ?thesis using c(1,2) i b k1(1)
    by (simp add: handle_accepted_sk_def ask_for_consensus_def sys_logged split_beta split: prod.split)
qed

lemma manager_forwards:
  assumes "iamleader g" "sk_consensus_connected g" "smooth 1 (sk_ask_consensus g)" "smooth 3 sk"
    "incoming sk = frame (con_info_serialize ci) @ rest"
  shows "\<exists>g' sk'. serve_query_pass reset junk old g sk = Some (True, g', sk') \<and>
    outgoing (sk_ask_consensus g') = outgoing (sk_ask_consensus g) @ frame (con_info_serialize ci)"
proof -
  let ?m = "con_info_serialize ci" and ?a = "sk_ask_consensus g"
  obtain ks where r: "recv_bytes junk sk = Some (70, Some 70, ?m, sk\<lparr>incoming := rest, recv_sched := ks\<rparr>)" "smooth 1 (sk\<lparr>recv_sched := ks\<rparr>)"
    using coninfo.recv_record [of 1 sk ci rest junk] assms(4) [unfolded numeral_3_eq_3] assms(5) by auto
  obtain js where a: "send_bytes ?m ?a = Some (0, ?a\<lparr>outgoing := outgoing ?a @ frame ?m, send_sched := js\<rparr>)"
    using coninfo.send_record [of 0 ?a ci] assms(3) by auto
  have "smooth (Suc 0) (sk\<lparr>incoming := rest, recv_sched := ks\<rparr>)" using r(2) by (simp add: smooth_def)
  from send_smooth [OF this, of "le_enc 4 1"] obtain ls where
    s: "send (le_enc 4 1) (sk\<lparr>incoming := rest, recv_sched := ks\<rparr>) =
      Some (4, sk\<lparr>incoming := rest, recv_sched := ks, outgoing := outgoing sk @ le_enc 4 1, send_sched := ls\<rparr>)"
    by (auto simp del: le_enc.simps)
  show ?thesis using r(1) a s assms(1,2)
    by (simp add: serve_query_pass_def con_info_serialize_deserialize send_for_consensus_def ask_send_def con_info_serialize_pad
        del: le_enc.simps)
qed

lemma host_submits:
  assumes "smooth 2 sk" "incoming sk = frame (con_info_serialize ci) @ rest"
  shows "\<exists>p' sk'. serve_pass True node_id ids junk old p sk = Some (True, Some (cur_rec p + 1), p', sk') \<and>
    tailhead p' = tailhead p @ [\<lparr>tq_type = TCPNEWCON, tq_connection_id = snd ids, tq_req_id = fst ids,
      tq_cmd = \<lparr>cmd_len = 70, cmd_cmd = con_info_serialize ci\<rparr>\<rparr>]"
proof -
  let ?m = "con_info_serialize ci"
  obtain ks where r: "recv 4 sk = (4, be32_enc 70, sk\<lparr>incoming := ?m @ rest, recv_sched := ks\<rparr>)" "smooth 1 (sk\<lparr>recv_sched := ks\<rparr>)"
    using recv_smooth [of 1 sk "be32_enc 70" "?m @ rest"] assms [unfolded numeral_2_eq_2] by (auto simp: frame_def length_con_info)
  have "smooth (Suc 0) (sk\<lparr>incoming := ?m @ rest, recv_sched := ks\<rparr>)" using r(2) by (simp add: smooth_def)
  from recv_smooth [OF this, of ?m rest] obtain js where
    "recv 70 (sk\<lparr>incoming := ?m @ rest, recv_sched := ks\<rparr>) = (70, ?m, sk\<lparr>incoming := rest, recv_sched := js\<rparr>)"
    by (auto simp: length_con_info)
  then have "recv_bytes_host junk sk = Some (70, Some 70, ?m, sk\<lparr>incoming := rest, recv_sched := js\<rparr>)"
    using r(1) by (simp add: recv_bytes_host_def recv_loop.simps [of 70])
  then show ?thesis
    by (simp add: serve_pass_def con_info_serialize_deserialize tcpnewcon_handle_def submit_if_def leader_handle_submit_req_def
        submit_pair_def action_defs TAILQ_CMD_SIZE_def length_con_info)
qed

lemma host_reports:
  assumes "clear_pad (con_id ci) = con_id ci" "con_isn_list (cmgr h) (con_id ci) = Some isn" "mem_read data 0 70 = con_info_serialize ci"
  shows "do_action_to_server env conn TCPNEWCON data 70 h =
    Some (h\<lparr>reported := reported h @ [con_info_serialize (ci\<lparr>recv_seq := isn\<rparr>)]\<rparr>)"
proof -
  have "ci\<lparr>con_id := (con_id ci)\<lparr>src_pad := 0, dst_pad := 0\<rparr>\<rparr> = ci" using assms(1) by (simp add: clear_pad_def)
  then have "con_info_deserialize zero_con_info (con_info_serialize ci) = Some ci"
    by (simp add: con_info_serialize_deserialize zero_con_info_def)
  then show ?thesis using assms(2,3)
    by (simp add: do_action_to_server_def action_defs do_action_tcpnewcon_def handle_consensused_con_def get_isn_def)
qed

lemma guest_connects:
  assumes "\<not> iamleader g" "reporting g" "new_socks g = Some s # ss" "connect_rcs g = r # rcs" "0 \<le> r" "smooth 1 s" "con_type ci = ACCEPT_CON"
  shows "\<exists>g' s'. serve_report_pass old MY_HOST_IP (con_info_serialize ci) g = Some g' \<and>
    made g' = made g @ [((src_ip (con_id ci), src_port (con_id ci)), s')] \<and> outgoing s' = outgoing s @ frame (con_info_serialize ci)"
proof -
  obtain ks where "send_bytes (con_info_serialize ci) s = Some (0, s\<lparr>outgoing := outgoing s @ frame (con_info_serialize ci), send_sched := ks\<rparr>)"
    using coninfo.send_record [of 0 s ci] assms(6) by auto
  moreover have "take BUFLEN (con_info_serialize ci) = con_info_serialize ci" by (simp add: BUFLEN_def length_con_info)
  moreover have "connect_tries 10 (r # rcs) = Some (r, rcs)" using assms(5) by (simp add: numeral_eq_Suc)
  ultimately show ?thesis using assms
    by (simp add: serve_report_pass_def con_info_serialize_deserialize create_connection_def con_info_serialize_pad)
qed

lemma backup_accepts:
  assumes "cooperative k" "calls k = []" "answer k 0 Socket \<noteq> answer k 7 Socket" "smooth 3 (tomgr k)" "incoming (tomgr k) = frame [0] @ rest"
    "smooth 2 (accepted k)" "incoming (accepted k) = frame (con_info_serialize ci) @ rest'"
  shows "\<exists>k'. handle_accepted_sk junk sk k = Some (0, answer k 7 Socket, k') \<and>
    socket_after (answer k 7 Socket) (calls k') = endpoint ci (f_local (facts k sk))"
proof -
  let ?t = "answer k 0 Socket" and ?n = "answer k 7 Socket" and ?m = "con_info_serialize ci"
  let ?k1 = "logged (opened k) [Connect ?t (CON_MGR_IP, htons CON_MGR_PORT)]"
  obtain s where c: "check_leadership junk k = Some (0, ?t, 0, ?k1\<lparr>tomgr := s\<rparr>)"
    using check_leadership_ok [of k 0 0 rest junk] assms(1,2,4,5) by (auto simp: numeral_3_eq_3)
  obtain ks where r: "recv_bytes junk (accepted k) = Some (70, Some 70, ?m, (accepted k)\<lparr>incoming := rest', recv_sched := ks\<rparr>)"
    using coninfo.recv_record [of 0 "accepted k" ci rest' junk] assms(6) [unfolded numeral_2_eq_2] assms(7) by auto
  define ci' where "ci' = ci\<lparr>con_id := (con_id ci)\<lparr>src_pad := 0, dst_pad := 0\<rparr>\<rparr>"
  define k2 where "k2 = ?k1\<lparr>tomgr := s, accepted := (accepted k)\<lparr>incoming := rest', recv_sched := ks\<rparr>\<rparr>"
  define k3 where "k3 = logged k2 [SetRepair sk True, GetSockName sk, Close sk]"
  have coop: "cooperative k2" "cooperative k3" "facts k2 = facts k" using assms(1) by (simp_all add: k2_def k3_def)
  have "length (calls k3) = 7" "answer k3 = answer k" by (simp_all add: k3_def k2_def logged_def opened_def assms(2) Let_def)
  then have n: "answer k3 (length (calls k3)) Socket = ?n" by simp
  have "replace_tcp sk ci' k2 = (0, ?n, logged (opened k3) (repair_calls ?n (f_local (facts k sk)) ci'))"
    using coop by (simp add: replace_tcp_def helpers_logged sys_logged k3_def [symmetric] socket_hook_opened n repair_socket_logged)
  then have h: "handle_accepted_sk junk sk k = Some (0, ?n, logged (opened k3) (repair_calls ?n (f_local (facts k sk)) ci' @ [Close ?t]))"
    using c r coop by (simp add: handle_accepted_sk_def con_info_serialize_deserialize ci'_def k2_def [simplified] sys_logged)
  have "calls (logged (opened k3) (repair_calls ?n (f_local (facts k sk)) ci' @ [Close ?t])) =
      calls k3 @ [(Socket, ?n), (SetReuseAddr ?n, 0), (SetReusePort ?n, 0)] @
      map (\<lambda>c. (c, 0)) (repair_calls ?n (f_local (facts k sk)) ci') @ [(Close ?t, 0)]"
    by (simp add: opened_def n Let_def)
  moreover have "endpoint ci' = endpoint ci" by (simp add: endpoint_def ci'_def fun_eq_iff)
  ultimately show ?thesis using h socket_after_repair [of ?n ?t] assms(3) by metis
qed

section \<open>Connections the application opens\<close>

lemma query_loop_ok:
  assumes "smooth (2 * m + n + 2) s" "incoming s = replicate m 0 @ [1] @ rest" "length buf \<le> 508"
  shows "\<exists>s'. query_loop buf s = Some (0, s') \<and> incoming s' = rest \<and> smooth n s'"
  using assms(1,2)
proof (induction m arbitrary: s)
  case (0 s)
  obtain ks where a: "send_bytes buf s = Some (0, s\<lparr>outgoing := outgoing s @ frame buf, send_sched := ks\<rparr>)" "smooth (Suc n) (s\<lparr>send_sched := ks\<rparr>)"
    using send_bytes_smooth [of "Suc n" s buf] 0(1) assms(3) by auto
  let ?s = "s\<lparr>outgoing := outgoing s @ frame buf, send_sched := ks\<rparr>"
  have "smooth (Suc n) ?s" using a(2) by (simp add: smooth_def)
  from recv_smooth [OF this, of "[1]" rest] obtain js where "recv 1 ?s = (1, [1], ?s\<lparr>incoming := rest, recv_sched := js\<rparr>)"
    "smooth n (?s\<lparr>recv_sched := js\<rparr>)" using 0(2) by auto
  then show ?case using a(1) by (simp add: query_loop.simps [of buf s] smooth_def)
next
  case (Suc m s)
  obtain ks where a: "send_bytes buf s = Some (0, s\<lparr>outgoing := outgoing s @ frame buf, send_sched := ks\<rparr>)"
    "smooth (Suc (2 * m + n + 2)) (s\<lparr>send_sched := ks\<rparr>)"
    using send_bytes_smooth [of "Suc (2 * m + n + 2)" s buf] Suc.prems(1) assms(3) by auto
  let ?s = "s\<lparr>outgoing := outgoing s @ frame buf, send_sched := ks\<rparr>"
  have "smooth (Suc (2 * m + n + 2)) ?s" using a(2) by (simp add: smooth_def)
  from recv_smooth [OF this, of "[0]" "replicate m 0 @ [1] @ rest"] obtain js where
    r: "recv 1 ?s = (1, [0], ?s\<lparr>incoming := replicate m 0 @ [1] @ rest, recv_sched := js\<rparr>)" "smooth (2 * m + n + 2) (?s\<lparr>recv_sched := js\<rparr>)"
    using Suc.prems(2) by auto
  let ?u = "?s\<lparr>incoming := replicate m 0 @ [1] @ rest, recv_sched := js\<rparr>"
  have "\<exists>s'. query_loop buf ?u = Some (0, s') \<and> incoming s' = rest \<and> smooth n s'"
    by (rule Suc.IH) (use r(2) in \<open>simp_all add: smooth_def\<close>)
  then show ?case using a(1) r(1) by (simp add: query_loop.simps [of buf s])
qed

lemma backup_connects:
  assumes "cooperative k" "calls k = []" "answer k 0 Socket \<noteq> fd" "smooth (2 * m + 7) (tomgr k)"
    "incoming (tomgr k) = frame [0] @ replicate m 0 @ [1] @ frame (con_info_serialize ci) @ rest"
    "htons (snd a) \<notin> {QEMU_PORT, CON_MGR_PORT}" "fst a \<notin> {CON_MGR_IP, MY_IP}"
  shows "\<exists>k'. connect_hook junk old fd a k = Some (no_return k, k') \<and>
    socket_after fd (calls k') = endpoint ci (src_ip (con_id ci), src_port (con_id ci))"
proof -
  let ?t = "answer k 0 Socket" and ?m = "con_info_serialize ci"
  let ?k1 = "logged (opened k) [Connect ?t (CON_MGR_IP, htons CON_MGR_PORT)]"
  have "smooth (Suc (Suc (Suc (2 * m + 2 + 2)))) (tomgr k)" using assms(4) by (simp add: numeral_eq_Suc)
  from check_leadership_ok [OF assms(1) this assms(5), of junk] obtain s where
    c: "check_leadership junk k = Some (0, ?t, 0, ?k1\<lparr>tomgr := s\<rparr>)" "smooth (2 * m + 2 + 2) s"
      "incoming s = replicate m 0 @ [1] @ frame ?m @ rest"
    using assms(2) by auto
  obtain u where u: "query_loop (con_info_serialize (connect_query a)) s = Some (0, u)" "incoming u = frame ?m @ rest" "smooth (Suc (Suc 0)) u"
    using query_loop_ok [OF c(2,3), of "con_info_serialize (connect_query a)"] by (auto simp: length_con_info numeral_2_eq_2)
  obtain v where r: "recv_bytes junk u = Some (70, Some 70, ?m, v)"
    using coninfo.recv_record [OF u(3,2), of junk] by auto
  define ci' where "ci' = ci\<lparr>con_id := (con_id ci)\<lparr>src_pad := src_pad (con_id old), dst_pad := dst_pad (con_id old)\<rparr>\<rparr>"
  let ?a = "(src_ip (con_id ci), src_port (con_id ci))"
  have "connect_backup junk old fd a (?k1\<lparr>tomgr := s\<rparr>) = Some (None, (logged ?k1 (repair_calls fd ?a ci'))\<lparr>tomgr := v\<rparr>)"
    using u(1) r assms(1)
    by (simp add: connect_backup_def con_info_serialize_deserialize ci'_def [symmetric] repair_socket_logged)
      (simp add: ci'_def)
  then have h: "connect_hook junk old fd a k = Some (no_return k, (logged ?k1 (repair_calls fd ?a ci' @ [Close ?t]))\<lparr>tomgr := v\<rparr>)"
    using c(1) assms(1,6,7) by (simp add: connect_hook_def sys_logged)
  have "endpoint ci' = endpoint ci" by (simp add: endpoint_def ci'_def fun_eq_iff)
  then have "socket_after fd (calls ((logged ?k1 (repair_calls fd ?a ci' @ [Close ?t]))\<lparr>tomgr := v\<rparr>)) = endpoint ci ?a"
    using assms(2,3) by (simp add: socket_after_def opened_def Let_def repaired_endpoint [simplified])
  then show ?thesis using h by blast
qed

lemma manager_leadership:
  assumes "smooth (Suc (Suc (Suc n))) sk" "incoming sk = frame [x] @ rest"
  shows "\<exists>sk'. serve_query_pass reset junk old g sk = Some (True, g, sk') \<and> outgoing sk' = outgoing sk @ frame [of_bool (iamleader g)] \<and>
    incoming sk' = rest \<and> smooth n sk'"
proof -
  obtain ks where r: "recv_bytes junk sk = Some (1, Some 1, [x], sk\<lparr>incoming := rest, recv_sched := ks\<rparr>)" "smooth (Suc n) (sk\<lparr>recv_sched := ks\<rparr>)"
    using recv_bytes_smooth [of "Suc n" sk "[x]" rest junk] assms by auto
  have "smooth (Suc n) (sk\<lparr>incoming := rest, recv_sched := ks\<rparr>)" using r(2) by (simp add: smooth_def)
  from send_bytes_smooth [OF this, of "[of_bool (iamleader g)]"] r(1) show ?thesis by (auto simp: serve_query_pass_def smooth_def)
qed

text \<open>The manager of a backup has stored the connection and answers a query for its destination.\<close>

lemma manager_answers:
  assumes "\<not> iamleader g" "reporting g" "con_type ci = CONNECT_CON" "smooth 4 sk" "a = (dst_ip (con_id ci), dst_port (con_id ci))"
    "incoming sk = frame (con_info_serialize (connect_query a)) @ rest"
  shows "\<exists>g' sk'. serve_report_pass old MY_HOST_IP (con_info_serialize ci) g = Some g' \<and> \<not> iamleader g' \<and>
    serve_query_pass reset junk old' g' sk = Some (True, g', sk') \<and>
    outgoing sk' = outgoing sk @ [1] @ frame (con_info_serialize (ci\<lparr>con_type := CONNECT_QUERY\<rparr>))"
proof -
  let ?q = "con_info_serialize (connect_query a)"
  obtain ks where r: "recv_bytes junk sk = Some (70, Some 70, ?q, sk\<lparr>incoming := rest, recv_sched := ks\<rparr>)" "smooth 2 (sk\<lparr>recv_sched := ks\<rparr>)"
    using coninfo.recv_record [of 2 sk "connect_query a" rest junk] assms(4,6) by auto
  let ?s = "sk\<lparr>incoming := rest, recv_sched := ks\<rparr>"
  have "smooth (Suc 1) ?s" using r(2) by (simp add: smooth_def numeral_2_eq_2)
  from send_smooth [OF this, of "[1]"] obtain js where
    s: "send [1] ?s = Some (1, ?s\<lparr>outgoing := outgoing sk @ [1], send_sched := js\<rparr>)" "smooth 1 (?s\<lparr>send_sched := js\<rparr>)" by auto
  let ?t = "?s\<lparr>outgoing := outgoing sk @ [1], send_sched := js\<rparr>" and ?m = "con_info_serialize (ci\<lparr>con_type := CONNECT_QUERY\<rparr>)"
  have "smooth (Suc 0) ?t" using s(2) by (simp add: smooth_def)
  from coninfo.send_record [OF this, of "ci\<lparr>con_type := CONNECT_QUERY\<rparr>"] obtain ls where
    t: "send_bytes ?m ?t = Some (0, ?t\<lparr>outgoing := outgoing sk @ [1] @ frame ?m, send_sched := ls\<rparr>)" by (auto simp: length_con_info)
  have take: "take BUFLEN (con_info_serialize ci) = con_info_serialize ci" by (simp add: BUFLEN_def length_con_info)
  have i: "serve_report_pass old MY_HOST_IP (con_info_serialize ci) g = Some (hash_insert ci g)"
    using assms(1-3) by (simp add: serve_report_pass_def take con_info_serialize_deserialize con_type_defs hash_insert_def)
  let ?q' = "(connect_query a)\<lparr>con_id := (con_id (connect_query a))\<lparr>src_pad := src_pad (con_id old'), dst_pad := dst_pad (con_id old')\<rparr>\<rparr>"
  have "hash_find ?q' (hash_insert ci g) =
      Some (ci\<lparr>con_type := CONNECT_QUERY, con_id := (con_id ci)\<lparr>src_pad := src_pad (con_id old'), dst_pad := dst_pad (con_id old')\<rparr>\<rparr>)"
    using assms(5) by (cases ci; cases "con_id ci") (simp add: hash_find_def hash_insert_def connect_query_def)
  moreover have "con_info_serialize (ci\<lparr>con_type := CONNECT_QUERY, con_id := (con_id ci)\<lparr>src_pad := x, dst_pad := y\<rparr>\<rparr>) = ?m" for x y
    using con_info_serialize_pad [where ci = "ci\<lparr>con_type := CONNECT_QUERY\<rparr>" and a = x and b = y] by simp
  ultimately have "serve_query_pass reset junk old' (hash_insert ci g) sk =
      Some (True, hash_insert ci g, ?t\<lparr>outgoing := outgoing sk @ [1] @ frame ?m, send_sched := ls\<rparr>)"
    using r(1) s(1) t assms(1)
    by (simp add: serve_query_pass_def con_info_serialize_deserialize) (simp add: connect_query_def hash_insert_def)
  then show ?thesis using i assms(1) by (simp add: hash_insert_def)
qed

end
