(* ===== verification/Spec2Isabelle.thy ===== *)
theory Spec2Isabelle
  imports Dare_Log_Proofs Kvs Ep_Db Ringbuf Con_Manager Packet_Buffer Dare_Votes Dare_Runs Connections
begin

text \<open>
  Verification development for the Reliable-Socket system.
\<close>

section \<open>The path of a connection through the system\<close>

lemma syn_saves_isn:
  assumes "tcp_frame syn sz" "syn_frame syn"
  shows "do_action_to_server env conn RAW syn sz h =
    Some (h\<lparr>cmgr := save_isn (cmgr h) (be32 syn (tcph syn + 4) + 1) (frame_con_rev (env_pad env) syn)\<rparr>)"
  using assms by (simp add: do_action_to_server_def action_defs do_action_raw_def tcp_frame_def syn_frame_def)

lemma reported_info_pad: "clear_pad (con_id (reported_info type f)) = con_id (reported_info type f)"
  by (simp add: reported_info_def clear_pad_def Let_def)

lemma syn_then_report:
  fixes h :: "'d host"
  assumes "tcp_frame syn sz" "syn_frame syn" "frame_con_rev (env_pad env) syn = con_id (reported_info type f)"
    "mem_read req 0 70 = con_info_serialize (reported_info type f)"
  shows "\<exists>h1 h2. do_action_to_server env conn RAW syn sz h = Some h1 \<and> do_action_to_server env conn' TCPNEWCON req 70 h1 = Some h2 \<and>
    last (reported h2) = con_info_serialize ((reported_info type f)\<lparr>recv_seq := be32 syn (tcph syn + 4) + 1\<rparr>)"
proof -
  let ?h1 = "h\<lparr>cmgr := save_isn (cmgr h) (be32 syn (tcph syn + 4) + 1) (frame_con_rev (env_pad env) syn)\<rparr>"
  have "con_isn_list (cmgr ?h1) (con_id (reported_info type f)) = Some (be32 syn (tcph syn + 4) + 1)"
    using assms(3) by (simp add: save_isn_def Let_def)
  from host_reports [OF reported_info_pad this assms(4), of env conn'] show ?thesis
    using syn_saves_isn [OF assms(1,2), of env conn h] by auto
qed

text \<open>The client of the sample SYN, connected to the guest.\<close>

definition sample_stream :: "u8 list \<Rightarrow> sock" where
  "sample_stream bs = \<lparr>incoming = bs, outgoing = [], recv_sched = replicate 20 512, send_sched = replicate 20 512\<rparr>"

definition sample_facts :: tcp_facts where
  "sample_facts = \<lparr>f_send_seq = 1000, f_recv_seq = 1, f_options = 5, f_snd_wscale = 7, f_rcv_wscale = 6, f_timestamp = 99, f_mss = 1460,
     f_local = (20, 20480), f_remote = (10, 2304)\<rparr>"

definition sample_kernel :: "u8 list \<Rightarrow> kernel" where
  "sample_kernel bs = \<lparr>answer = \<lambda>i c. if c = Socket then int i + 3 else 0, facts = \<lambda>_. sample_facts, calls = [],
     tomgr = sample_stream bs, accepted = sample_stream [], errno = 0, no_return = 0\<rparr>"

definition sample_guest :: "bool \<Rightarrow> guest" where
  "sample_guest leader = (init_con_manager_guest (sample_stream []) [0] [Some (sample_stream [])] [])
     \<lparr>iamleader := leader, sk_consensus_connected := leader\<rparr>"

definition sample_env :: action_env where
  "sample_env = \<lparr>env_pad = (0, 0), env_garbage = 0, guest_vm_ip = 20\<rparr>"

lemma sample_smooth [simp]: "n \<le> 20 \<Longrightarrow> smooth n (sample_stream bs)"
  by (simp add: sample_stream_def smooth_def)

lemma sample_kernel_simps [simp]:
  "cooperative (sample_kernel bs)" "calls (sample_kernel bs) = []" "tomgr (sample_kernel bs) = sample_stream bs"
  "answer (sample_kernel bs) i Socket = int i + 3" "facts (sample_kernel bs) fd = sample_facts" "no_return (sample_kernel bs) = 0"
  "(tomgr (sample_kernel bs))\<lparr>incoming := bs'\<rparr> = sample_stream bs'"
  by (simp_all add: sample_kernel_def cooperative_def sample_stream_def)

lemma sample_guest_simps [simp]:
  "iamleader (sample_guest l) = l" "sk_consensus_connected (sample_guest l) = l" "reporting (sample_guest l)"
  "sk_ask_consensus (sample_guest l) = sample_stream []" "new_socks (sample_guest l) = [Some (sample_stream [])]"
  "connect_rcs (sample_guest l) = [0]" "made (sample_guest l) = []"
  by (simp_all add: sample_guest_def init_con_manager_guest_def)

lemma sample_simps [simp]:
  "f_local sample_facts = (20, 20480)" "f_remote sample_facts = (10, 2304)" "env_pad sample_env = (0, 0)"
  "incoming (sample_stream bs) = bs" "outgoing (sample_stream bs) = []" "(sample_stream bs)\<lparr>incoming := bs'\<rparr> = sample_stream bs'"
  by (simp_all add: sample_facts_def sample_env_def sample_stream_def)

lemma sample_syn: "frame_con_rev (0, 0) (sample_frame 2 0) = con_id (reported_info type sample_facts)"
  by (simp add: frame_evals frame_con_rev_def reported_info_def sample_facts_def Let_def)

lemma sample_isn: "be32 (sample_frame 2 0) (tcph (sample_frame 2 0) + 4) + 1 = 1"
  by (simp add: frame_evals)

definition sample_request_info :: "u16 \<Rightarrow> memory" where
  "sample_request_info type = mem_write (\<lambda>_. 0) 0 (con_info_serialize (reported_info type sample_facts))"

lemma sample_request_info: "mem_read (sample_request_info type) 0 70 = con_info_serialize (reported_info type sample_facts)"
  by (simp add: sample_request_info_def mem_read_write_same length_con_info)

text \<open>Property C6: the leader's side of a new connection.  When the application of the leader accepts a connection, the
  intercepting library asks the manager of the guest, the manager answers that this server leads and passes the
  record of the connection on, and the service of the host submits it for consensus: the request at the end of
  the proxy's queue holds, byte for byte, what the kernel of the guest reported of the connection.\<close>

theorem accepted_connection_submitted:
  assumes "cooperative k" "smooth 6 (tomgr k)" "incoming (tomgr k) = frame [1]" "outgoing (tomgr k) = []"
    and "iamleader g" "sk_consensus_connected g" "smooth 1 (sk_ask_consensus g)" "outgoing (sk_ask_consensus g) = []"
    and "smooth 6 m" "incoming m = frame [0] @ frame (con_info_serialize (reported_info ACCEPT_CON (facts k sk)))" "smooth 2 hs"
  shows "\<exists>k'. handle_accepted_sk junk sk k = Some (0, sk, k') \<and> outgoing (tomgr k') = incoming m \<and>
    (\<exists>m1 g' m2. serve_query_pass reset junk old g m = Some (True, g, m1) \<and> outgoing m1 = outgoing m @ incoming (tomgr k) \<and>
      serve_query_pass reset junk old g m1 = Some (True, g', m2) \<and>
      (\<exists>p' hs'. serve_pass True node_id ids junk old p (hs\<lparr>incoming := outgoing (sk_ask_consensus g')\<rparr>) =
           Some (True, Some (cur_rec p + 1), p', hs') \<and>
         tailhead p' = tailhead p @ [\<lparr>tq_type = TCPNEWCON, tq_connection_id = snd ids, tq_req_id = fst ids,
           tq_cmd = \<lparr>cmd_len = 70, cmd_cmd = con_info_serialize (reported_info ACCEPT_CON (facts k sk))\<rparr>\<rparr>]))"
proof -
  let ?ci = "reported_info ACCEPT_CON (facts k sk)"
  obtain k' where k': "handle_accepted_sk junk sk k = Some (0, sk, k')" "outgoing (tomgr k') = incoming m"
    using leader_accept [of k "[]" junk sk] assms(1-4,10) by auto
  have "smooth (Suc (Suc (Suc 3))) m" using assms(9) by simp
  then obtain m1 where m1: "serve_query_pass reset junk old g m = Some (True, g, m1)" "outgoing m1 = outgoing m @ frame [1]"
    "incoming m1 = frame (con_info_serialize ?ci) @ []" "smooth 3 m1"
    using manager_leadership [of 3 m 0 "frame (con_info_serialize ?ci)" reset junk old g] assms(5,10) by auto
  obtain g' m2 where g': "serve_query_pass reset junk old g m1 = Some (True, g', m2)"
    "outgoing (sk_ask_consensus g') = frame (con_info_serialize ?ci)"
    using manager_forwards [OF assms(5-7) m1(4,3), of reset junk old] assms(8) by auto
  have "smooth 2 (hs\<lparr>incoming := outgoing (sk_ask_consensus g')\<rparr>)" using assms(11) by (simp add: smooth_def)
  from host_submits [OF this, of ?ci "[]" node_id ids junk old p] show ?thesis
    using k' m1(1,2) g' assms(3) by auto
qed

theorem accepted_connection_submitted_witness:
  "\<exists>k'. handle_accepted_sk [] 4 (sample_kernel (frame [1])) = Some (0, 4, k') \<and>
     outgoing (tomgr k') = frame [0] @ frame (con_info_serialize (reported_info ACCEPT_CON sample_facts))"
  using accepted_connection_submitted [of "sample_kernel (frame [1])" "sample_guest True"
      "sample_stream (frame [0] @ frame (con_info_serialize (reported_info ACCEPT_CON sample_facts)))" 4 "sample_stream []" "[]" False
      zero_con_info 1 "(0, 0)" "proxy_init None []"]
  by auto





end
